(* ===== verification/Prelude.thy ===== *)
theory Prelude
  imports Main "HOL-Library.AList"
begin

text \<open>
  What every component of the development shares: the two fact collections, Go's maps as
  association lists, and the SQL statements on a table (a list of rows) the services are
  written with, each with the lemmas that the component proofs rest on.
\<close>

named_theorems model_defs \<open>definitions of the model's straight-line operations\<close>
named_theorems go_simps \<open>rewrite rules for Go's maps, slices and strings\<close>

subsection \<open>Types of the model\<close>

text \<open>
  A Go \<open>string\<close> is a list of bytes. An \<open>error\<close> whose identity no caller inspects is its
  text. A \<open>uuid.UUID\<close> is sixteen bytes, read as one number.
\<close>

type_synonym gostring = string
type_synonym errtext = string
type_synonym uuid = nat

subsection \<open>Go maps\<close>

text \<open>
  A Go map is an association list: \<open>m[k]\<close> is the first entry of \<open>k\<close>, with Go's zero value
  where there is none; \<open>m[k] = v\<close> and \<open>delete(m, k)\<close> are the library's update and delete.
  Go leaves the iteration order open; here it is the order of the list, and a theorem about
  every list is a theorem about every order.
\<close>

type_synonym ('k, 'v) gomap = "('k \<times> 'v) list"

definition gomap_get :: "('k, 'v) gomap \<Rightarrow> 'k \<Rightarrow> 'v \<Rightarrow> 'v" where
  "gomap_get m k zero = (case map_of m k of None \<Rightarrow> zero | Some v \<Rightarrow> v)"

definition keys_distinct :: "('k, 'v) gomap \<Rightarrow> bool" where
  "keys_distinct m = distinct (map fst m)"

lemma keys_distinct_Nil [simp]: "keys_distinct []"
  by (simp add: keys_distinct_def)

lemma keys_distinct_update [simp, intro]:
  "keys_distinct m \<Longrightarrow> keys_distinct (AList.update k v m)"
  by (simp add: keys_distinct_def distinct_update)

lemma keys_distinct_delete [simp, intro]:
  "keys_distinct m \<Longrightarrow> keys_distinct (AList.delete k m)"
  by (simp add: keys_distinct_def distinct_delete)

lemma map_of_gomap_update [go_simps]: "map_of (AList.update k v m) = (map_of m)(k \<mapsto> v)"
  by (rule update_conv')

lemma map_of_gomap_delete [go_simps]: "map_of (AList.delete k m) = (map_of m)(k := None)"
  by (rule delete_conv')

lemma map_of_in_set: "map_of m k = Some v \<Longrightarrow> (k, v) \<in> set m"
  by (rule map_of_SomeD)

lemma in_set_map_of: "keys_distinct m \<Longrightarrow> (k, v) \<in> set m \<Longrightarrow> map_of m k = Some v"
  by (simp add: keys_distinct_def)

lemma gomap_get_update [simp]: "gomap_get (AList.update k v m) k z = v"
  by (simp add: gomap_get_def go_simps)

lemma set_update_subset: "set (AList.update k v m) \<subseteq> insert (k, v) (set m)"
  by (induction m) auto

lemma set_delete_subset: "set (AList.delete k m) \<subseteq> set m"
  by (auto simp: AList.delete_eq)

lemma fst_delete: "(k', v) \<in> set (AList.delete k m) \<Longrightarrow> k' \<noteq> k"
  by (auto simp: AList.delete_eq)

subsection \<open>Tables\<close>

text \<open>
  A table of the database is the list of its rows in insertion order. \<open>select_rows\<close> is
  \<open>SELECT ... WHERE\<close>, \<open>update_rows\<close> is \<open>UPDATE ... WHERE\<close>, \<open>delete_rows\<close> is
  \<open>DELETE ... WHERE\<close>, and \<open>rows_affected\<close> what the driver's command tag reports.
\<close>

definition select_rows :: "('r \<Rightarrow> bool) \<Rightarrow> 'r list \<Rightarrow> 'r list" where
  "select_rows p t = filter p t"

definition select_one :: "('r \<Rightarrow> bool) \<Rightarrow> 'r list \<Rightarrow> 'r option" where
  "select_one p t = find p t"

definition update_rows :: "('r \<Rightarrow> bool) \<Rightarrow> ('r \<Rightarrow> 'r) \<Rightarrow> 'r list \<Rightarrow> 'r list" where
  "update_rows p f t = map (\<lambda>r. if p r then f r else r) t"

definition delete_rows :: "('r \<Rightarrow> bool) \<Rightarrow> 'r list \<Rightarrow> 'r list" where
  "delete_rows p t = filter (\<lambda>r. \<not> p r) t"

definition rows_affected :: "('r \<Rightarrow> bool) \<Rightarrow> 'r list \<Rightarrow> nat" where
  "rows_affected p t = length (filter p t)"

definition exists_row :: "('r \<Rightarrow> bool) \<Rightarrow> 'r list \<Rightarrow> bool" where
  "exists_row p t = list_ex p t"

lemma exists_row_iff: "exists_row p t \<longleftrightarrow> (\<exists>r \<in> set t. p r)"
  by (simp add: exists_row_def list_ex_iff)

lemma rows_affected_0_iff: "rows_affected p t = 0 \<longleftrightarrow> \<not> exists_row p t"
  by (auto simp: rows_affected_def exists_row_iff filter_empty_conv)

lemma set_update_rows: "set (update_rows p f t) = (\<lambda>r. if p r then f r else r) ` set t"
  by (simp add: update_rows_def)

lemma set_delete_rows: "set (delete_rows p t) = {r \<in> set t. \<not> p r}"
  by (auto simp: delete_rows_def)

lemma set_select_rows: "set (select_rows p t) = {r \<in> set t. p r}"
  by (auto simp: select_rows_def)

lemma select_one_Some: "select_one p t = Some r \<Longrightarrow> r \<in> set t \<and> p r"
  by (auto simp: select_one_def find_Some_iff)

lemma select_one_None: "select_one p t = None \<longleftrightarrow> \<not> exists_row p t"
  by (auto simp: select_one_def exists_row_iff find_None_iff)

lemma map_update_rows:
  "(\<And>r. p r \<Longrightarrow> g (f r) = g r) \<Longrightarrow> map g (update_rows p f t) = map g t"
  by (simp add: update_rows_def)

lemma distinct_delete_rows: "distinct (map g t) \<Longrightarrow> distinct (map g (delete_rows p t))"
  by (simp add: delete_rows_def distinct_map_filter)

lemma update_rows_None: "\<not> exists_row p t \<Longrightarrow> update_rows p f t = t"
  by (auto simp: update_rows_def exists_row_iff intro: map_idI)

lemma delete_rows_None: "\<not> exists_row p t \<Longrightarrow> delete_rows p t = t"
  by (auto simp: delete_rows_def exists_row_iff intro: filter_True)

lemma delete_rows_append_new:
  "\<not> exists_row p t \<Longrightarrow> p r \<Longrightarrow> delete_rows p (t @ [r]) = t"
  by (auto simp: delete_rows_def exists_row_iff intro: filter_True)

text \<open>Key columns: rows with equal keys are the same row.\<close>

lemma distinct_map_eq:
  "distinct (map g t) \<Longrightarrow> r \<in> set t \<Longrightarrow> r' \<in> set t \<Longrightarrow> g r = g r' \<Longrightarrow> r = r'"
  by (meson distinct_map inj_onD)

lemma select_one_key:
  "distinct (map g t) \<Longrightarrow> r \<in> set t \<Longrightarrow> select_one (\<lambda>x. g x = g r) t = Some r"
  by (induction t) (auto simp: select_one_def)

lemma select_one_append_new: "\<not> exists_row p t \<Longrightarrow> p r \<Longrightarrow> select_one p (t @ [r]) = Some r"
  by (induction t) (auto simp: select_one_def exists_row_iff)

lemma find_unique: "x \<in> set xs \<Longrightarrow> p x \<Longrightarrow> (\<And>y. y \<in> set xs \<Longrightarrow> p y \<Longrightarrow> y = x) \<Longrightarrow> find p xs = Some x"
proof (cases "find p xs")
  case (Some y)
  moreover assume "\<And>y. y \<in> set xs \<Longrightarrow> p y \<Longrightarrow> y = x"
  moreover have "y \<in> set xs \<and> p y" using Some by (auto simp: find_Some_iff)
  ultimately show ?thesis by blast
next
  case None
  moreover assume "x \<in> set xs" and "p x"
  ultimately show ?thesis by (simp add: find_None_iff)
qed

lemma find_SomeD: "find p xs = Some x \<Longrightarrow> x \<in> set xs \<and> p x"
  by (auto simp: find_Some_iff)

end
