(* ===== verification/GoStrings.thy ===== *)
theory GoStrings
  imports Prelude
begin

text \<open>
  The part of Go's \<open>strings\<close> and \<open>strconv\<close> packages that the program calls, on byte lists,
  with the laws the parsers and printers of the components rest on. Where the library looks
  at runes (\<open>TrimSpace\<close>, \<open>ToLower\<close>) the functions below are its behaviour on ASCII text;
  they leave a byte of 128 and more alone.
\<close>

subsection \<open>Bytes\<close>

definition is_space :: "char \<Rightarrow> bool" where
  "is_space c = (c \<in> set [CHR '' '', CHR 0x09, CHR 0x0A, CHR 0x0B, CHR 0x0C, CHR 0x0D])"

definition byte_of :: "char \<Rightarrow> nat" where
  "byte_of c = of_char c"

definition is_digit :: "char \<Rightarrow> bool" where
  "is_digit c = (48 \<le> byte_of c \<and> byte_of c \<le> 57)"

definition is_lower :: "char \<Rightarrow> bool" where
  "is_lower c = (97 \<le> byte_of c \<and> byte_of c \<le> 122)"

definition is_upper :: "char \<Rightarrow> bool" where
  "is_upper c = (65 \<le> byte_of c \<and> byte_of c \<le> 90)"

definition lower_char :: "char \<Rightarrow> char" where
  "lower_char c = (if is_upper c then char_of (byte_of c + 32) else c)"

definition go_ToLower :: "gostring \<Rightarrow> gostring" where
  "go_ToLower s = map lower_char s"

lemma lower_char_not_upper: "\<not> is_upper (lower_char c)"
  by (auto simp: lower_char_def is_upper_def byte_of_def)

lemma lower_char_id [simp]: "\<not> is_upper c \<Longrightarrow> lower_char c = c"
  by (simp add: lower_char_def)

lemma go_ToLower_idem [simp]: "go_ToLower (go_ToLower s) = go_ToLower s"
  by (simp add: go_ToLower_def lower_char_not_upper)

lemma go_ToLower_id: "(\<And>c. c \<in> set s \<Longrightarrow> \<not> is_upper c) \<Longrightarrow> go_ToLower s = s"
  by (simp add: go_ToLower_def map_idI)

lemma is_lower_not_upper: "is_lower c \<Longrightarrow> \<not> is_upper c"
  by (simp add: is_lower_def is_upper_def)

lemma is_digit_not_upper: "is_digit c \<Longrightarrow> \<not> is_upper c"
  by (simp add: is_digit_def is_upper_def)

subsection \<open>Trimming\<close>

definition trim_left :: "(char \<Rightarrow> bool) \<Rightarrow> gostring \<Rightarrow> gostring" where
  "trim_left p s = dropWhile p s"

definition trim_right :: "(char \<Rightarrow> bool) \<Rightarrow> gostring \<Rightarrow> gostring" where
  "trim_right p s = rev (dropWhile p (rev s))"

definition trim_both :: "(char \<Rightarrow> bool) \<Rightarrow> gostring \<Rightarrow> gostring" where
  "trim_both p s = trim_right p (trim_left p s)"

definition go_TrimSpace :: "gostring \<Rightarrow> gostring" where
  "go_TrimSpace s = trim_both is_space s"

definition go_Trim :: "gostring \<Rightarrow> gostring \<Rightarrow> gostring" where
  "go_Trim s cutset = trim_both (\<lambda>c. c \<in> set cutset) s"

definition go_TrimRight :: "gostring \<Rightarrow> gostring \<Rightarrow> gostring" where
  "go_TrimRight s cutset = trim_right (\<lambda>c. c \<in> set cutset) s"

lemma dropWhile_hd: "s = [] \<or> \<not> p (hd s) \<Longrightarrow> dropWhile p s = s"
  by (cases s) auto

lemma trim_left_id [simp]: "s = [] \<or> \<not> p (hd s) \<Longrightarrow> trim_left p s = s"
  by (simp add: trim_left_def dropWhile_hd)

lemma trim_right_id: "s = [] \<or> \<not> p (last s) \<Longrightarrow> trim_right p s = s"
  by (auto simp: trim_right_def dropWhile_hd hd_rev)

lemma trim_both_id: "s = [] \<or> \<not> p (hd s) \<and> \<not> p (last s) \<Longrightarrow> trim_both p s = s"
  by (auto simp: trim_both_def trim_right_id trim_left_def dropWhile_hd)

lemma trim_right_append:
  "(\<And>c. c \<in> set t \<Longrightarrow> p c) \<Longrightarrow> trim_right p (s @ t) = trim_right p s"
  unfolding trim_right_def by (metis dropWhile_append2 rev_append set_rev)

lemma trim_right_last: "trim_right p s = [] \<or> \<not> p (last (trim_right p s))"
proof -
  have "dropWhile p (rev s) = [] \<or> \<not> p (hd (dropWhile p (rev s)))"
    using hd_dropWhile by blast
  then show ?thesis by (auto simp: trim_right_def last_rev)
qed

lemma set_trim_right: "set (trim_right p s) \<subseteq> set s"
  using set_dropWhileD by (fastforce simp: trim_right_def)

lemma set_trim_both: "set (trim_both p s) \<subseteq> set s"
  using set_trim_right set_dropWhileD by (fastforce simp: trim_both_def trim_left_def)

lemma go_TrimSpace_id:
  "s = [] \<or> \<not> is_space (hd s) \<and> \<not> is_space (last s) \<Longrightarrow> go_TrimSpace s = s"
  by (simp add: go_TrimSpace_def trim_both_id)

lemma go_TrimSpace_Nil [simp]: "go_TrimSpace [] = []"
  by (simp add: go_TrimSpace_id)

lemma go_TrimSpace_no_space: "(\<And>c. c \<in> set s \<Longrightarrow> \<not> is_space c) \<Longrightarrow> go_TrimSpace s = s"
  by (cases "s = []") (auto intro!: go_TrimSpace_id)

subsection \<open>Prefixes, suffixes, search\<close>

definition has_prefix :: "gostring \<Rightarrow> gostring \<Rightarrow> bool" where
  "has_prefix s pre = (take (length pre) s = pre)"

definition has_suffix :: "gostring \<Rightarrow> gostring \<Rightarrow> bool" where
  "has_suffix s suf = (length suf \<le> length s \<and> drop (length s - length suf) s = suf)"

definition go_TrimSuffix :: "gostring \<Rightarrow> gostring \<Rightarrow> gostring" where
  "go_TrimSuffix s suf = (if has_suffix s suf then take (length s - length suf) s else s)"

text \<open>\<open>strings.Index\<close> and \<open>bytes.Index\<close>: the position of the first occurrence, \<open>None\<close> for -1.\<close>

fun go_Index :: "gostring \<Rightarrow> gostring \<Rightarrow> nat option" where
  "go_Index [] sub = (if sub = [] then Some 0 else None)"
| "go_Index (c # s) sub =
     (if has_prefix (c # s) sub then Some 0 else map_option Suc (go_Index s sub))"

definition go_Contains :: "gostring \<Rightarrow> gostring \<Rightarrow> bool" where
  "go_Contains s sub = (go_Index s sub \<noteq> None)"

lemma has_prefix_append [simp]: "has_prefix (p @ s) p"
  by (simp add: has_prefix_def)

lemma has_prefix_iff: "has_prefix s p \<longleftrightarrow> (\<exists>t. s = p @ t)"
  unfolding has_prefix_def by (metis append_eq_conv_conj append_take_drop_id)

lemma has_suffix_append [simp]: "has_suffix (s @ t) t"
  by (simp add: has_suffix_def)

lemma has_suffix_iff: "has_suffix s t \<longleftrightarrow> (\<exists>p. s = p @ t)"
  by (metis append_take_drop_id has_suffix_append has_suffix_def)

lemma go_TrimSuffix_append [simp]: "go_TrimSuffix (s @ t) t = s"
  by (simp add: go_TrimSuffix_def)

lemma go_Index_Some:
  "go_Index s sub = Some i \<Longrightarrow> i + length sub \<le> length s \<and> take (length sub) (drop i s) = sub"
proof (induction s arbitrary: i)
  case Nil
  then show ?case by (simp split: if_splits)
next
  case (Cons c s)
  show ?case
  proof (cases "has_prefix (c # s) sub")
    case True
    with Cons.prems show ?thesis
      by (metis add_0 drop0 go_Index.simps(2) has_prefix_def length_take min.cobounded1
          nat_le_linear option.inject take_all)
  next
    case False
    with Cons show ?thesis by auto
  qed
qed

lemma go_Index_split:
  assumes "go_Index s sub = Some i"
  shows "s = take i s @ sub @ drop (i + length sub) s"
proof -
  have "take (length sub) (drop i s) = sub"
    using go_Index_Some[OF assms] by simp
  moreover have "s = take i s @ take (length sub) (drop i s) @ drop (length sub) (drop i s)"
    by (metis append_take_drop_id)
  ultimately show ?thesis by (simp add: add.commute)
qed

lemma go_Index_prefix: "go_Index (sub @ t) sub = Some 0"
proof (cases "sub @ t")
  case (Cons c u)
  then have "has_prefix (c # u) sub" by (metis has_prefix_append)
  with Cons show ?thesis by simp
qed auto

lemma go_Index_occurs: "\<exists>i. go_Index (p @ sub @ t) sub = Some i"
  by (induction p) (auto simp: go_Index_prefix)

lemma go_Contains_iff: "go_Contains s sub \<longleftrightarrow> (\<exists>p t. s = p @ sub @ t)"
proof
  assume "go_Contains s sub"
  then obtain i where "go_Index s sub = Some i" by (auto simp: go_Contains_def)
  then have "s = take i s @ sub @ drop (i + length sub) s" by (rule go_Index_split)
  then show "\<exists>p t. s = p @ sub @ t" by blast
next
  assume "\<exists>p t. s = p @ sub @ t"
  then show "go_Contains s sub" using go_Index_occurs by (fastforce simp: go_Contains_def)
qed

lemma go_Contains_append: "go_Contains (p @ sub @ t) sub"
  by (auto simp: go_Contains_iff)

subsection \<open>Splitting and joining\<close>

text \<open>\<open>strings.Split\<close> and \<open>strings.SplitN\<close> with a one-byte separator, and \<open>strings.Join\<close>.\<close>

fun go_Split :: "char \<Rightarrow> gostring \<Rightarrow> gostring list" where
  "go_Split sep [] = [[]]"
| "go_Split sep (c # s) =
     (if c = sep then [] # go_Split sep s
      else (case go_Split sep s of [] \<Rightarrow> [[c]] | p # ps \<Rightarrow> (c # p) # ps))"

fun go_SplitN :: "char \<Rightarrow> nat \<Rightarrow> gostring \<Rightarrow> gostring list" where
  "go_SplitN sep 0 s = []"
| "go_SplitN sep (Suc 0) s = [s]"
| "go_SplitN sep (Suc (Suc n)) s =
     (case dropWhile (\<lambda>c. c \<noteq> sep) s of
        [] \<Rightarrow> [s]
      | _ # rest \<Rightarrow> takeWhile (\<lambda>c. c \<noteq> sep) s # go_SplitN sep (Suc n) rest)"

fun go_Join :: "gostring \<Rightarrow> gostring list \<Rightarrow> gostring" where
  "go_Join sep [] = []"
| "go_Join sep [p] = p"
| "go_Join sep (p # q # ps) = p @ sep @ go_Join sep (q # ps)"

lemma go_Split_not_Nil [simp]: "go_Split sep s \<noteq> []"
  by (cases s) (auto split: list.splits)

lemma go_Split_no_sep: "sep \<notin> set s \<Longrightarrow> go_Split sep s = [s]"
  by (induction s) auto

lemma go_Split_sep: "sep \<notin> set p \<Longrightarrow> go_Split sep (p @ sep # s) = p # go_Split sep s"
  by (induction p) auto

lemma go_Split_Join:
  "ps \<noteq> [] \<Longrightarrow> (\<And>p. p \<in> set ps \<Longrightarrow> sep \<notin> set p) \<Longrightarrow> go_Split sep (go_Join [sep] ps) = ps"
  by (induction "[sep]" ps rule: go_Join.induct) (auto simp: go_Split_no_sep go_Split_sep)

lemma go_Join_Split: "go_Join [sep] (go_Split sep s) = s"
proof (induction s)
  case (Cons c s)
  then show ?case
    by (cases "go_Split sep s"; cases "tl (go_Split sep s)") auto
qed simp

lemma go_SplitN_2_sep:
  "sep \<notin> set p \<Longrightarrow> go_SplitN sep 2 (p @ sep # s) = [p, s]"
proof -
  assume "sep \<notin> set p"
  then have "dropWhile (\<lambda>c. c \<noteq> sep) (p @ sep # s) = sep # s"
    and "takeWhile (\<lambda>c. c \<noteq> sep) (p @ sep # s) = p"
    by (induction p) auto
  then show ?thesis by (simp add: numeral_2_eq_2)
qed

lemma go_SplitN_2_cases:
  "go_SplitN sep 2 s = [s] \<and> sep \<notin> set s \<or>
   (\<exists>p t. go_SplitN sep 2 s = [p, t] \<and> s = p @ sep # t \<and> sep \<notin> set p)"
proof (cases "dropWhile (\<lambda>c. c \<noteq> sep) s")
  case Nil
  then have "sep \<notin> set s" by auto
  then show ?thesis using Nil by (simp only: numeral_2_eq_2 go_SplitN.simps list.case) simp
next
  case (Cons c t)
  then have "c = sep" by (metis (mono_tags) dropWhile_eq_Cons_conv)
  moreover have "s = takeWhile (\<lambda>c. c \<noteq> sep) s @ c # t"
    using Cons by (metis takeWhile_dropWhile_id)
  moreover have "sep \<notin> set (takeWhile (\<lambda>c. c \<noteq> sep) s)"
    using set_takeWhileD by fastforce
  ultimately show ?thesis using Cons by (auto simp: numeral_2_eq_2)
qed

end
