(* ===== verification/GoNumbers.thy ===== *)
theory GoNumbers
  imports GoStrings
begin

text \<open>
  Go's fixed-width integers and their decimal text: \<open>int\<close> and \<open>int64\<close> are 64 bits wide,
  \<open>int32\<close> conversions wrap around, \<open>strconv.Itoa\<close> and \<open>strconv.Atoi\<close> print and parse.
  The round trip \<open>Atoi (Itoa n) = n\<close> is what the GPU labels and the \<open>nvidia-smi\<close> parser use.
\<close>

subsection \<open>Widths\<close>

definition wrap_int :: "nat \<Rightarrow> int \<Rightarrow> int" where
  "wrap_int w i = (i + 2 ^ (w - 1)) mod 2 ^ w - 2 ^ (w - 1)"

definition fits_int :: "nat \<Rightarrow> int \<Rightarrow> bool" where
  "fits_int w i = (- (2 ^ (w - 1)) \<le> i \<and> i < 2 ^ (w - 1))"

definition to_int32 :: "int \<Rightarrow> int" where
  "to_int32 i = wrap_int 32 i"

definition to_int64 :: "int \<Rightarrow> int" where
  "to_int64 i = wrap_int 64 i"

lemma wrap_int_fits [simp]: "0 < w \<Longrightarrow> fits_int w (wrap_int w i)"
proof -
  assume "0 < w"
  then have "(2::int) ^ w = 2 * 2 ^ (w - 1)" by (cases w) auto
  moreover have "0 \<le> (i + 2 ^ (w - 1)) mod 2 ^ w" and "(i + 2 ^ (w - 1)) mod 2 ^ w < (2::int) ^ w"
    by simp_all
  ultimately show ?thesis by (simp add: fits_int_def wrap_int_def)
qed

lemma wrap_int_id: "0 < w \<Longrightarrow> fits_int w i \<Longrightarrow> wrap_int w i = i"
proof -
  assume "0 < w" and fits: "fits_int w i"
  then have "(2::int) ^ w = 2 * 2 ^ (w - 1)" by (cases w) auto
  with fits have "(i + 2 ^ (w - 1)) mod 2 ^ w = i + 2 ^ (w - 1)"
    by (intro mod_pos_pos_trivial) (auto simp: fits_int_def)
  then show ?thesis by (simp add: wrap_int_def)
qed

lemma to_int32_id [simp]: "fits_int 32 i \<Longrightarrow> to_int32 i = i"
  by (simp add: to_int32_def wrap_int_id)

lemma to_int64_id [simp]: "fits_int 64 i \<Longrightarrow> to_int64 i = i"
  by (simp add: to_int64_def wrap_int_id)

lemma to_int32_fits [simp]: "fits_int 32 (to_int32 i)"
  by (simp add: to_int32_def)

lemma fits_int_32_64: "fits_int 32 i \<Longrightarrow> fits_int 64 i"
  by (simp add: fits_int_def)

subsection \<open>Decimal digits\<close>

definition digit_char :: "nat \<Rightarrow> char" where
  "digit_char d = char_of (48 + d)"

definition digit_val :: "char \<Rightarrow> nat" where
  "digit_val c = byte_of c - 48"

fun nat_dec :: "nat \<Rightarrow> gostring" where
  "nat_dec n = (if n < 10 then [digit_char n] else nat_dec (n div 10) @ [digit_char (n mod 10)])"

declare nat_dec.simps [simp del]

fun parse_dec :: "nat \<Rightarrow> gostring \<Rightarrow> nat option" where
  "parse_dec acc [] = Some acc"
| "parse_dec acc (c # s) =
     (if is_digit c then parse_dec (10 * acc + digit_val c) s else None)"

lemma byte_of_digit_char [simp]: "d < 10 \<Longrightarrow> byte_of (digit_char d) = 48 + d"
  by (simp add: byte_of_def digit_char_def)

lemma is_digit_digit_char [simp]: "d < 10 \<Longrightarrow> is_digit (digit_char d)"
  by (simp add: is_digit_def)

lemma digit_val_digit_char [simp]: "d < 10 \<Longrightarrow> digit_val (digit_char d) = d"
  by (simp add: digit_val_def)

lemma parse_dec_append:
  "parse_dec acc (s @ t) = (case parse_dec acc s of None \<Rightarrow> None | Some v \<Rightarrow> parse_dec v t)"
  by (induction acc s rule: parse_dec.induct) auto

lemma nat_dec_digits: "c \<in> set (nat_dec n) \<Longrightarrow> is_digit c"
proof (induction n rule: nat_dec.induct)
  case (1 n)
  then show ?case by (auto simp: nat_dec.simps[of n] split: if_splits)
qed

lemma nat_dec_not_Nil [simp]: "nat_dec n \<noteq> []"
  by (subst nat_dec.simps) simp

lemma parse_dec_nat_dec [simp]: "parse_dec 0 (nat_dec n) = Some n"
proof (induction n rule: nat_dec.induct)
  case (1 n)
  then show ?case by (auto simp: nat_dec.simps[of n] parse_dec_append)
qed

subsection \<open>strconv.Itoa and strconv.Atoi\<close>

definition go_Itoa :: "int \<Rightarrow> gostring" where
  "go_Itoa i = (if i < 0 then CHR ''-'' # nat_dec (nat (- i)) else nat_dec (nat i))"

text \<open>
  \<open>Atoi\<close>: an optional sign, at least one digit and nothing else, and a value that fits 64 bits.
  \<open>None\<close> is its error.
\<close>

definition atoi_unsigned :: "gostring \<Rightarrow> nat option" where
  "atoi_unsigned s = (if s = [] then None else parse_dec 0 s)"

definition atoi_sign :: "gostring \<Rightarrow> int \<times> gostring" where
  "atoi_sign s = (case s of
       [] \<Rightarrow> (1, [])
     | c # r \<Rightarrow> if c = CHR ''-'' then (-1, r) else if c = CHR ''+'' then (1, r) else (1, s))"

definition go_Atoi :: "gostring \<Rightarrow> int option" where
  "go_Atoi s =
     (let (sign, digits) = atoi_sign s
      in case atoi_unsigned digits of
           None \<Rightarrow> None
         | Some n \<Rightarrow> if fits_int 64 (sign * int n) then Some (sign * int n) else None)"

lemma is_digit_not_sign: "is_digit c \<Longrightarrow> c \<noteq> CHR ''-'' \<and> c \<noteq> CHR ''+''"
  by (auto simp: is_digit_def byte_of_def)

lemma is_digit_not_space: "is_digit c \<Longrightarrow> \<not> is_space c"
  by (auto simp: is_digit_def byte_of_def is_space_def)

lemma is_digit_not_comma: "is_digit c \<Longrightarrow> c \<noteq> CHR '',''"
  by (auto simp: is_digit_def byte_of_def)

lemma atoi_sign_nat_dec [simp]: "atoi_sign (nat_dec n) = (1, nat_dec n)"
  using is_digit_not_sign nat_dec_digits
  by (cases "nat_dec n") (auto simp: atoi_sign_def, (metis list.set_intros(1))+)

lemma atoi_unsigned_nat_dec [simp]: "atoi_unsigned (nat_dec n) = Some n"
  by (simp add: atoi_unsigned_def)

lemma go_Atoi_Itoa: "fits_int 64 i \<Longrightarrow> go_Atoi (go_Itoa i) = Some i"
proof (cases "i < 0")
  case True
  assume "fits_int 64 i"
  with True show ?thesis by (simp add: go_Atoi_def go_Itoa_def atoi_sign_def)
next
  case False
  assume "fits_int 64 i"
  with False show ?thesis by (simp add: go_Atoi_def go_Itoa_def)
qed

lemma go_Atoi_fits: "go_Atoi s = Some i \<Longrightarrow> fits_int 64 i"
  by (auto simp: go_Atoi_def Let_def split: prod.splits option.splits if_splits)

lemma go_Atoi_Nil [simp]: "go_Atoi [] = None"
  by (simp add: go_Atoi_def atoi_sign_def atoi_unsigned_def)

lemma go_Itoa_not_Nil [simp]: "go_Itoa i \<noteq> []"
  by (simp add: go_Itoa_def)

lemma go_Itoa_chars: "c \<in> set (go_Itoa i) \<Longrightarrow> is_digit c \<or> c = CHR ''-''"
  by (auto simp: go_Itoa_def dest: nat_dec_digits split: if_splits)

lemma go_Itoa_no_space: "c \<in> set (go_Itoa i) \<Longrightarrow> \<not> is_space c"
  using go_Itoa_chars[of c i] is_digit_not_space by (auto simp: is_space_def)

lemma go_Itoa_no_comma: "CHR '','' \<notin> set (go_Itoa i)"
  using go_Itoa_chars[of "CHR '',''" i] is_digit_not_comma by auto

lemma go_TrimSpace_Itoa [simp]: "go_TrimSpace (go_Itoa i) = go_Itoa i"
  by (rule go_TrimSpace_no_space) (rule go_Itoa_no_space)

subsection \<open>Evaluation\<close>

lemma digit_char_eval [go_simps]:
  "digit_char 0 = CHR ''0''" "digit_char 1 = CHR ''1''" "digit_char 2 = CHR ''2''"
  "digit_char 3 = CHR ''3''" "digit_char 4 = CHR ''4''" "digit_char 5 = CHR ''5''"
  "digit_char 6 = CHR ''6''" "digit_char 7 = CHR ''7''" "digit_char 8 = CHR ''8''"
  "digit_char 9 = CHR ''9''" "digit_char (Suc 0) = CHR ''1''"
  by code_simp+

subsection \<open>time.Duration.String\<close>

text \<open>
  Nanoseconds as text: below a second in the largest fitting unit, otherwise hours, minutes
  and seconds; a fraction drops its trailing zeros.
\<close>

definition fmt_frac :: "nat \<Rightarrow> nat \<Rightarrow> gostring" where
  "fmt_frac v prec =
     (let f = v mod 10 ^ prec; ds = nat_dec f
      in if f = 0 then ''''
         else ''.'' @ trim_right (\<lambda>c. c = CHR ''0'') (replicate (prec - length ds) CHR ''0'' @ ds))"

definition fmt_seconds :: "nat \<Rightarrow> gostring" where
  "fmt_seconds u =
     (let secs = u div 1000000000; mins = secs div 60; hours = mins div 60;
          tail = nat_dec (secs mod 60) @ fmt_frac u 9 @ ''s''
      in if mins = 0 then tail
         else if hours = 0 then nat_dec (mins mod 60) @ ''m'' @ tail
         else nat_dec hours @ ''h'' @ nat_dec (mins mod 60) @ ''m'' @ tail)"

definition fmt_subsecond :: "nat \<Rightarrow> gostring" where
  "fmt_subsecond u =
     (if u = 0 then ''0s''
      else if u < 1000 then nat_dec u @ ''ns''
      else if u < 1000000 then nat_dec (u div 1000) @ fmt_frac u 3 @ [CHR 0xC2, CHR 0xB5, CHR ''s'']
      else nat_dec (u div 1000000) @ fmt_frac u 6 @ ''ms'')"

definition go_Duration_String :: "int \<Rightarrow> gostring" where
  "go_Duration_String d =
     (let u = nat \<bar>d\<bar>; body = (if u < 1000000000 then fmt_subsecond u else fmt_seconds u)
      in if d < 0 then ''-'' @ body else body)"

lemma Duration_String_30s: "go_Duration_String 30000000000 = ''30s''"
  by (simp add: go_Duration_String_def fmt_seconds_def fmt_frac_def nat_dec.simps go_simps)

end
