(* ===== verification/Names.thy ===== *)
theory Names
  imports GoNumbers
begin

text \<open>
  The three name patterns of the control plane, \<open>slugRe\<close> (users and headscale), \<open>nameRe\<close> of
  envs and \<open>nameRe\<close> of devices, and the names built from them: the tailnet hostnames and the
  ACL tags. All patterns have the form first byte, at most 30 bytes of \<open>[a-z0-9-]\<close>, last byte
  in \<open>[a-z0-9]\<close>, anchored at both ends.
\<close>

definition is_alnum :: "char \<Rightarrow> bool" where
  "is_alnum c = (is_lower c \<or> is_digit c)"

definition name_char :: "char \<Rightarrow> bool" where
  "name_char c = (is_alnum c \<or> c = CHR ''-'')"

definition name_shape :: "(char \<Rightarrow> bool) \<Rightarrow> gostring \<Rightarrow> bool" where
  "name_shape first s =
     (case s of
        c # d # r \<Rightarrow>
          first c \<and> length (butlast (d # r)) \<le> 30 \<and> list_all name_char (butlast (d # r)) \<and>
          is_alnum (last (d # r))
      | _ \<Rightarrow> False)"

definition slugRe :: "gostring \<Rightarrow> bool" where
  "slugRe s = name_shape is_lower s"

definition acl_slugRe :: "gostring \<Rightarrow> bool" where
  "acl_slugRe s = name_shape is_lower s"

definition envs_nameRe :: "gostring \<Rightarrow> bool" where
  "envs_nameRe s = name_shape is_lower s"

definition devices_nameRe :: "gostring \<Rightarrow> bool" where
  "devices_nameRe s = name_shape is_alnum s"

lemma name_shape_chars:
  assumes "name_shape first s" and "\<And>c. first c \<Longrightarrow> name_char c" and "c \<in> set s"
  shows "name_char c"
proof -
  from assms(1) obtain a d r where s: "s = a # d # r" and first: "first a"
    and mid: "list_all name_char (butlast (d # r))" and last: "is_alnum (last (d # r))"
    by (auto simp: name_shape_def split: list.splits)
  have "set (d # r) = insert (last (d # r)) (set (butlast (d # r)))"
    by (metis append_butlast_last_id insert_is_Un list.distinct(1) list.set(1) list.simps(15)
        set_append sup_commute)
  with assms(3) s have "c = a \<or> c = last (d # r) \<or> c \<in> set (butlast (d # r))" by auto
  with first mid last assms(2) show ?thesis
    by (auto simp: list_all_iff name_char_def)
qed

lemma name_shape_length: "name_shape first s \<Longrightarrow> 2 \<le> length s \<and> length s \<le> 32"
  by (auto simp: name_shape_def simp del: butlast.simps last.simps split: list.splits)

lemma slugRe_chars: "slugRe s \<Longrightarrow> c \<in> set s \<Longrightarrow> name_char c"
  unfolding slugRe_def by (erule name_shape_chars) (auto simp: name_char_def is_alnum_def)

lemma envs_nameRe_chars: "envs_nameRe s \<Longrightarrow> c \<in> set s \<Longrightarrow> name_char c"
  unfolding envs_nameRe_def by (erule name_shape_chars) (auto simp: name_char_def is_alnum_def)

lemma devices_nameRe_chars: "devices_nameRe s \<Longrightarrow> c \<in> set s \<Longrightarrow> name_char c"
  unfolding devices_nameRe_def by (erule name_shape_chars) (auto simp: name_char_def)

lemma name_char_not_colon: "name_char c \<Longrightarrow> c \<noteq> CHR '':''"
  by (auto simp: name_char_def is_alnum_def is_lower_def is_digit_def byte_of_def)

lemma name_char_not_upper: "name_char c \<Longrightarrow> \<not> is_upper c"
  by (auto simp: name_char_def is_alnum_def is_lower_def is_digit_def is_upper_def byte_of_def)

lemma slugRe_no_colon: "slugRe s \<Longrightarrow> CHR '':'' \<notin> set s"
  using slugRe_chars name_char_not_colon by blast

lemma acl_slugRe_eq_slugRe: "acl_slugRe = slugRe"
  by (simp add: fun_eq_iff acl_slugRe_def slugRe_def)

subsection \<open>Hostnames and tags\<close>

definition device_tag :: "gostring \<Rightarrow> gostring" where
  "device_tag slug = ''tag:device-'' @ slug"

definition env_tag :: "gostring \<Rightarrow> gostring" where
  "env_tag slug = ''tag:env-'' @ slug"

lemma device_tag_inj [simp]: "device_tag a = device_tag b \<longleftrightarrow> a = b"
  by (simp add: device_tag_def)

lemma env_tag_inj [simp]: "env_tag a = env_tag b \<longleftrightarrow> a = b"
  by (simp add: env_tag_def)

lemma device_tag_not_env_tag [simp]: "device_tag a \<noteq> env_tag b" "env_tag b \<noteq> device_tag a"
  by (simp_all add: device_tag_def env_tag_def)

end
