(* ===== verification/Docker.thy ===== *)
theory Docker
  imports Names
begin

text \<open>
  Package \<open>envdocker\<close>: the container data of \<open>client.go\<close>, the interface \<open>DockerClient\<close> as a
  record of its methods over an engine state \<open>'d\<close>, and the in-memory client of \<open>mock.go\<close>,
  which is the program's own implementation of that interface. The locale \<open>docker_laws\<close>
  states what the dispatcher relies on; it is interpreted on the in-memory client.
\<close>

subsection \<open>Labels (labels.go)\<close>

definition LabelEnvID :: gostring where "LabelEnvID = ''flexctl.env_id''"
definition LabelRole :: gostring where "LabelRole = ''flexctl.role''"
definition LabelHostname :: gostring where "LabelHostname = ''flexctl.hostname''"
definition LabelHeadscaleURL :: gostring where "LabelHeadscaleURL = ''flexctl.headscale_url''"
definition LabelTags :: gostring where "LabelTags = ''flexctl.tags''"
definition LabelImageRef :: gostring where "LabelImageRef = ''flexctl.image_ref''"
definition LabelGPUIndices :: gostring where "LabelGPUIndices = ''flexctl.gpu_indices''"
definition LabelVolumeName :: gostring where "LabelVolumeName = ''flexctl.volume_name''"

lemmas label_defs = LabelEnvID_def LabelRole_def LabelHostname_def LabelHeadscaleURL_def
  LabelTags_def LabelImageRef_def LabelGPUIndices_def LabelVolumeName_def

subsection \<open>Container data (client.go)\<close>

record VolumeMount =
  Source :: gostring
  Target :: gostring

record ContainerSpec =
  spec_Name :: gostring
  spec_Image :: gostring
  spec_Cmd :: "gostring list"
  spec_Env :: "(gostring, gostring) gomap"
  spec_Labels :: "(gostring, gostring) gomap"
  spec_NetworkMode :: gostring
  spec_CapAdd :: "gostring list"
  spec_Devices :: "gostring list"
  spec_GPUIndices :: "int list"
  spec_VolumeMounts :: "VolumeMount list"

record ContainerInfo =
  info_ID :: gostring
  info_Name :: gostring
  info_State :: gostring
  info_Labels :: "(gostring, gostring) gomap"
  info_Env :: "gostring list"

definition label_of :: "ContainerInfo \<Rightarrow> gostring \<Rightarrow> gostring" where
  "label_of c k = gomap_get (info_Labels c) k ''''"

text \<open>
  \<open>envMapToSlice\<close> of \<open>client.go\<close>; the in-memory client writes the same loop out.
\<close>

definition envMapToSlice :: "(gostring, gostring) gomap \<Rightarrow> gostring list" where
  "envMapToSlice m = map (\<lambda>(k, v). k @ ''='' @ v) m"

subsection \<open>The interface DockerClient\<close>

text \<open>
  One field per method. A method takes the engine's state and returns the error text or the
  result, and the new state; times are nanoseconds. \<open>Exec\<close> returns the bytes of its two
  readers and the exit code.
\<close>

record 'd docker_client =
  CreateContainer :: "ContainerSpec \<Rightarrow> 'd \<Rightarrow> (errtext + gostring) \<times> 'd"
  StartContainer :: "gostring \<Rightarrow> 'd \<Rightarrow> (errtext + unit) \<times> 'd"
  StopContainer :: "gostring \<Rightarrow> int \<Rightarrow> 'd \<Rightarrow> (errtext + unit) \<times> 'd"
  RemoveContainer :: "gostring \<Rightarrow> bool \<Rightarrow> 'd \<Rightarrow> (errtext + unit) \<times> 'd"
  InspectContainer :: "gostring \<Rightarrow> 'd \<Rightarrow> (errtext + ContainerInfo) \<times> 'd"
  ListContainers :: "(gostring, gostring) gomap \<Rightarrow> 'd \<Rightarrow> (errtext + ContainerInfo list) \<times> 'd"
  Exec :: "gostring \<Rightarrow> gostring list \<Rightarrow> 'd \<Rightarrow> (errtext + (gostring \<times> gostring \<times> int)) \<times> 'd"
  RemoveVolume :: "gostring \<Rightarrow> 'd \<Rightarrow> (errtext + unit) \<times> 'd"
  PullImage :: "gostring \<Rightarrow> 'd \<Rightarrow> (errtext + unit) \<times> 'd"

subsection \<open>The in-memory client (mock.go)\<close>

record MockDockerClient =
  Containers :: "(gostring, ContainerInfo) gomap"
  Volumes :: "(gostring, bool) gomap"
  Calls :: "gostring list"
  NextErrors :: "(gostring, errtext) gomap"
  ExecOutput :: "(gostring, gostring) gomap"
  ExecExit :: "(gostring, int) gomap"

definition NewMockDockerClient :: MockDockerClient where
  "NewMockDockerClient =
     \<lparr>Containers = [], Volumes = [], Calls = [], NextErrors = [], ExecOutput = [], ExecExit = []\<rparr>"

definition method_key :: "gostring \<Rightarrow> gostring \<Rightarrow> gostring" where
  "method_key name arg = name @ '':'' @ arg"

definition take_call :: "gostring \<Rightarrow> MockDockerClient \<Rightarrow> errtext option \<times> MockDockerClient" where
  "take_call key m =
     (let m = m\<lparr>Calls := Calls m @ [key]\<rparr>
      in case map_of (NextErrors m) key of
           Some e \<Rightarrow> (Some e, m\<lparr>NextErrors := AList.delete key (NextErrors m)\<rparr>)
         | None \<Rightarrow> (None, m))"

definition mock_CreateContainer ::
  "ContainerSpec \<Rightarrow> MockDockerClient \<Rightarrow> (errtext + gostring) \<times> MockDockerClient" where
  "mock_CreateContainer spec m =
     (case take_call (method_key ''CreateContainer'' (spec_Name spec)) m of
        (Some e, m) \<Rightarrow> (Inl e, m)
      | (None, m) \<Rightarrow>
          let cid = spec_Name spec;
              envSlice = envMapToSlice (spec_Env spec)
          in (Inr cid,
              m\<lparr>Containers := AList.update cid
                  \<lparr>info_ID = cid, info_Name = spec_Name spec, info_State = ''created'',
                   info_Labels = spec_Labels spec, info_Env = envSlice\<rparr> (Containers m)\<rparr>))"

definition mock_StartContainer ::
  "gostring \<Rightarrow> MockDockerClient \<Rightarrow> (errtext + unit) \<times> MockDockerClient" where
  "mock_StartContainer cid m =
     (case take_call (method_key ''StartContainer'' cid) m of
        (Some e, m) \<Rightarrow> (Inl e, m)
      | (None, m) \<Rightarrow>
          (case map_of (Containers m) cid of
             None \<Rightarrow> (Inl ''not found'', m)
           | Some c \<Rightarrow>
               (Inr (), m\<lparr>Containers :=
                  AList.update cid (c\<lparr>info_State := ''running''\<rparr>) (Containers m)\<rparr>)))"

definition mock_StopContainer ::
  "gostring \<Rightarrow> int \<Rightarrow> MockDockerClient \<Rightarrow> (errtext + unit) \<times> MockDockerClient" where
  "mock_StopContainer cid timeout m =
     (case take_call (method_key ''StopContainer'' cid) m of
        (Some e, m) \<Rightarrow> (Inl e, m)
      | (None, m) \<Rightarrow>
          (case map_of (Containers m) cid of
             None \<Rightarrow> (Inl ''not found'', m)
           | Some c \<Rightarrow>
               (Inr (), m\<lparr>Containers :=
                  AList.update cid (c\<lparr>info_State := ''exited''\<rparr>) (Containers m)\<rparr>)))"

definition mock_RemoveContainer ::
  "gostring \<Rightarrow> bool \<Rightarrow> MockDockerClient \<Rightarrow> (errtext + unit) \<times> MockDockerClient" where
  "mock_RemoveContainer cid force m =
     (case take_call (method_key ''RemoveContainer'' cid) m of
        (Some e, m) \<Rightarrow> (Inl e, m)
      | (None, m) \<Rightarrow> (Inr (), m\<lparr>Containers := AList.delete cid (Containers m)\<rparr>))"

definition mock_InspectContainer ::
  "gostring \<Rightarrow> MockDockerClient \<Rightarrow> (errtext + ContainerInfo) \<times> MockDockerClient" where
  "mock_InspectContainer cid m =
     (case take_call (method_key ''InspectContainer'' cid) m of
        (Some e, m) \<Rightarrow> (Inl e, m)
      | (None, m) \<Rightarrow>
          (case map_of (Containers m) cid of
             None \<Rightarrow> (Inl ''not found'', m)
           | Some c \<Rightarrow> (Inr c, m)))"

definition matches_filter :: "(gostring, gostring) gomap \<Rightarrow> ContainerInfo \<Rightarrow> bool" where
  "matches_filter flt c = list_all (\<lambda>(k, v). label_of c k = v) flt"

definition mock_ListContainers ::
  "(gostring, gostring) gomap \<Rightarrow> MockDockerClient
     \<Rightarrow> (errtext + ContainerInfo list) \<times> MockDockerClient" where
  "mock_ListContainers flt m =
     (case take_call ''ListContainers'' m of
        (Some e, m) \<Rightarrow> (Inl e, m)
      | (None, m) \<Rightarrow> (Inr (filter (matches_filter flt) (map snd (Containers m))), m))"

definition mock_Exec ::
  "gostring \<Rightarrow> gostring list \<Rightarrow> MockDockerClient
     \<Rightarrow> (errtext + (gostring \<times> gostring \<times> int)) \<times> MockDockerClient" where
  "mock_Exec cid cmd m =
     (case take_call (method_key ''Exec'' cid) m of
        (Some e, m) \<Rightarrow> (Inl e, m)
      | (None, m) \<Rightarrow>
          (Inr (gomap_get (ExecOutput m) cid '''', '''', gomap_get (ExecExit m) cid 0), m))"

definition mock_RemoveVolume ::
  "gostring \<Rightarrow> MockDockerClient \<Rightarrow> (errtext + unit) \<times> MockDockerClient" where
  "mock_RemoveVolume name m =
     (case take_call (method_key ''RemoveVolume'' name) m of
        (Some e, m) \<Rightarrow> (Inl e, m)
      | (None, m) \<Rightarrow> (Inr (), m\<lparr>Volumes := AList.delete name (Volumes m)\<rparr>))"

definition mock_PullImage ::
  "gostring \<Rightarrow> MockDockerClient \<Rightarrow> (errtext + unit) \<times> MockDockerClient" where
  "mock_PullImage ref m =
     (case take_call (method_key ''PullImage'' ref) m of
        (Some e, m) \<Rightarrow> (Inl e, m)
      | (None, m) \<Rightarrow> (Inr (), m))"

definition SetExecOutputForRole :: "gostring \<Rightarrow> gostring \<Rightarrow> MockDockerClient \<Rightarrow> MockDockerClient" where
  "SetExecOutputForRole role stdout m =
     m\<lparr>ExecOutput :=
        fold (\<lambda>(cid, c) out. if label_of c LabelRole = role then AList.update cid stdout out else out)
          (Containers m) (ExecOutput m)\<rparr>"

definition mock_client :: "MockDockerClient docker_client" where
  "mock_client =
     \<lparr>CreateContainer = mock_CreateContainer, StartContainer = mock_StartContainer,
      StopContainer = mock_StopContainer, RemoveContainer = mock_RemoveContainer,
      InspectContainer = mock_InspectContainer, ListContainers = mock_ListContainers,
      Exec = mock_Exec, RemoveVolume = mock_RemoveVolume, PullImage = mock_PullImage\<rparr>"

lemmas mock_op_defs = mock_CreateContainer_def mock_StartContainer_def mock_StopContainer_def
  mock_RemoveContainer_def mock_InspectContainer_def mock_ListContainers_def mock_Exec_def
  mock_RemoveVolume_def mock_PullImage_def take_call_def

subsection \<open>What a caller of DockerClient relies on\<close>

text \<open>
  \<open>live\<close> is the set of container ids the engine holds and \<open>reliable\<close> an engine that carries
  out forced removals. Nothing is said about how an operation fails: every one but a forced
  removal on a reliable engine may.
\<close>

locale docker_laws =
  fixes dc :: "'d docker_client"
    and live :: "'d \<Rightarrow> gostring set"
    and reliable :: "'d \<Rightarrow> bool"
  assumes create_ok: "CreateContainer dc spec d = (Inr cid, d') \<Longrightarrow> live d' = insert cid (live d)"
    and create_err: "CreateContainer dc spec d = (Inl e, d') \<Longrightarrow> live d' = live d"
    and create_reliable: "reliable d \<Longrightarrow> reliable (snd (CreateContainer dc spec d))"
    and start_live: "live (snd (StartContainer dc cid d)) = live d"
    and start_reliable: "reliable d \<Longrightarrow> reliable (snd (StartContainer dc cid d))"
    and stop_live: "live (snd (StopContainer dc cid t d)) = live d"
    and stop_reliable: "reliable d \<Longrightarrow> reliable (snd (StopContainer dc cid t d))"
    and exec_live: "live (snd (Exec dc cid cmd d)) = live d"
    and exec_reliable: "reliable d \<Longrightarrow> reliable (snd (Exec dc cid cmd d))"
    and inspect_live: "live (snd (InspectContainer dc cid d)) = live d"
    and inspect_reliable: "reliable d \<Longrightarrow> reliable (snd (InspectContainer dc cid d))"
    and volume_live: "live (snd (RemoveVolume dc name d)) = live d"
    and remove_subset: "live (snd (RemoveContainer dc cid force d)) \<subseteq> live d"
    and remove_reliable: "reliable d \<Longrightarrow> reliable (snd (RemoveContainer dc cid force d))"
    and remove_done: "reliable d \<Longrightarrow> live (snd (RemoveContainer dc cid True d)) = live d - {cid}"

text \<open>With the containers that run: a start makes its container run, and the calls in between
  leave the others running.\<close>

locale docker_run_laws = docker_laws dc live reliable
  for dc :: "'d docker_client" and live :: "'d \<Rightarrow> gostring set" and reliable :: "'d \<Rightarrow> bool" +
  fixes running :: "'d \<Rightarrow> gostring set"
  assumes running_live: "running d \<subseteq> live d"
    and start_running: "StartContainer dc cid d = (Inr (), d') \<Longrightarrow> running d' = insert cid (running d)"
    and create_running: "CreateContainer dc spec d = (Inr cid, d') \<Longrightarrow> running d - {cid} \<subseteq> running d'"
    and exec_running: "running (snd (Exec dc cid cmd d)) = running d"
    and stop_running: "StopContainer dc cid t d = (Inr (), d') \<Longrightarrow> running d' = running d - {cid}"

definition mock_live :: "MockDockerClient \<Rightarrow> gostring set" where
  "mock_live m = fst ` set (Containers m)"

definition mock_reliable :: "MockDockerClient \<Rightarrow> bool" where
  "mock_reliable m = list_all (\<lambda>(k, e). \<not> has_prefix k ''RemoveContainer:'') (NextErrors m)"

definition mock_running :: "MockDockerClient \<Rightarrow> gostring set" where
  "mock_running m = {cid. \<exists>c. map_of (Containers m) cid = Some c \<and> info_State c = ''running''}"

lemma fst_update: "fst ` set (AList.update k v m) = insert k (fst ` set m)"
  by (simp add: dom_update)

lemma fst_delete_eq: "fst ` set (AList.delete k m) = fst ` set m - {k}"
  by (auto simp: AList.delete_eq)

lemma map_of_Some_fst: "map_of m k = Some v \<Longrightarrow> insert k (fst ` set m) = fst ` set m"
  by (force dest: map_of_SomeD)

lemma has_prefix_lit: "has_prefix (method_key ''RemoveContainer'' cid) ''RemoveContainer:''"
  by (auto simp: has_prefix_iff method_key_def)

text \<open>\<open>take\<close> as one equation: deleting an absent key changes nothing.\<close>

lemma take_call_eq:
  "take_call k m = (map_of (NextErrors m) k,
     m\<lparr>Calls := Calls m @ [k], NextErrors := AList.delete k (NextErrors m)\<rparr>)"
proof (cases "map_of (NextErrors m) k")
  case None
  then have "AList.delete k (NextErrors m) = NextErrors m"
    by (simp add: map_of_eq_None_iff)
  with None show ?thesis by (simp add: take_call_def)
next
  case (Some e)
  then show ?thesis by (simp add: take_call_def)
qed

lemma mock_reliable_delete:
  "mock_reliable m \<Longrightarrow> list_all (\<lambda>(k, e). \<not> has_prefix k ''RemoveContainer:'')
     (AList.delete k (NextErrors m))"
  unfolding mock_reliable_def list_all_iff using set_delete_subset by fast

lemma mock_reliable_no_error:
  "mock_reliable m \<Longrightarrow> map_of (NextErrors m) (method_key ''RemoveContainer'' cid) = None"
  unfolding mock_reliable_def list_all_iff
  by (rule ccontr) (use has_prefix_lit map_of_SomeD in fastforce)

text \<open>Every method keeps reliability, since each call only ever consumes a planned error.\<close>

lemma mock_ops_reliable:
  assumes "mock_reliable m"
  shows "mock_reliable (snd (mock_CreateContainer spec m))"
    and "mock_reliable (snd (mock_StartContainer cid m))"
    and "mock_reliable (snd (mock_StopContainer cid t m))"
    and "mock_reliable (snd (mock_RemoveContainer cid f m))"
    and "mock_reliable (snd (mock_InspectContainer cid m))"
    and "mock_reliable (snd (mock_Exec cid cmd m))"
  using mock_reliable_delete[OF assms]
  by (simp_all add: mock_CreateContainer_def mock_StartContainer_def mock_StopContainer_def
      mock_RemoveContainer_def mock_InspectContainer_def mock_Exec_def take_call_eq Let_def
      mock_reliable_def split: option.split)

lemma mock_ops_live:
  shows "mock_live (snd (mock_StartContainer cid m)) = mock_live m"
    and "mock_live (snd (mock_StopContainer cid t m)) = mock_live m"
    and "mock_live (snd (mock_InspectContainer cid m)) = mock_live m"
    and "mock_live (snd (mock_Exec cid cmd m)) = mock_live m"
    and "mock_live (snd (mock_RemoveVolume name m)) = mock_live m"
  by (simp_all add: mock_StartContainer_def mock_StopContainer_def mock_InspectContainer_def
      mock_Exec_def mock_RemoveVolume_def mock_live_def fst_update map_of_Some_fst take_call_eq
      split: option.split)

lemma mock_running_put:
  "mock_running (m\<lparr>Containers := AList.update cid c cs\<rparr>) =
     (if info_State c = ''running'' then insert cid (mock_running (m\<lparr>Containers := cs\<rparr>))
      else mock_running (m\<lparr>Containers := cs\<rparr>) - {cid})"
  by (auto simp: mock_running_def go_simps)

interpretation mock: docker_run_laws mock_client mock_live mock_reliable mock_running
proof (unfold_locales, goal_cases)
  case (1 spec d cid d')
  then have "cid = spec_Name spec"
    and "fst ` set (Containers d') = fst ` set (AList.update (spec_Name spec)
      \<lparr>info_ID = spec_Name spec, info_Name = spec_Name spec, info_State = ''created'',
       info_Labels = spec_Labels spec, info_Env = envMapToSlice (spec_Env spec)\<rparr> (Containers d))"
    by (auto simp: mock_client_def mock_CreateContainer_def take_call_eq Let_def split: option.splits)
  then show ?case by (simp only: mock_live_def fst_update)
next
  case (2 spec d e d')
  then show ?case
    by (auto simp: mock_client_def mock_CreateContainer_def take_call_eq Let_def mock_live_def
        split: option.splits)
next
  case (13 cid force d)
  show ?case
    by (auto simp: mock_client_def mock_RemoveContainer_def take_call_eq mock_live_def
        AList.delete_eq split: option.splits)
next
  case (15 d cid)
  then show ?case
    by (simp add: mock_client_def mock_RemoveContainer_def take_call_eq mock_live_def
        fst_delete_eq mock_reliable_no_error)
next
  case (16 d)
  show ?case by (force simp: mock_running_def mock_live_def dest: map_of_SomeD)
next
  case (17 cid d d')
  then show ?case
    by (auto simp: mock_client_def mock_StartContainer_def take_call_eq mock_running_def go_simps
        split: option.splits if_splits)
next
  case (18 spec d cid d')
  then show ?case
    by (auto simp: mock_client_def mock_CreateContainer_def take_call_eq Let_def mock_running_def
        go_simps split: option.splits)
next
  case (19 cid cmd d)
  show ?case
    by (simp add: mock_client_def mock_Exec_def take_call_eq mock_running_def split: option.split)
next
  case (20 cid t d d')
  then show ?case
    by (auto simp: mock_client_def mock_StopContainer_def take_call_eq mock_running_def go_simps
        split: option.splits if_splits)
qed (simp_all add: mock_client_def mock_ops_reliable mock_ops_live)

end
