(* ===== verification/Allocator.thy ===== *)
theory Allocator
  imports Docker
begin

text \<open>
  The agent's GPU allocator, \<open>envlifecycle/allocator.go\<close>: the device indices of the node, who
  holds which, first-fit allocation, release, and the rebuild from container labels. Every
  method holds the allocator's mutex for its whole body, so a method is one step. The locale
  \<open>exclusive_pool\<close> is the contract the dispatcher needs; the allocator is its interpretation.
\<close>

subsection \<open>State and operations\<close>

record GPUAllocator =
  total_gpus :: "int list"
  allocated :: "(uuid, int list) gomap"

definition NewGPUAllocator :: "int list \<Rightarrow> GPUAllocator" where
  "NewGPUAllocator totalIndices = \<lparr>total_gpus = sort totalIndices, allocated = []\<rparr>"

text \<open>
  What \<open>Allocate\<close> does: the chosen indices, an error, or a panic, which is what slicing
  \<open>free[:count]\<close> with a negative count is.
\<close>

datatype alloc_result = AllocOk "int list" | AllocErr errtext | AllocPanic

definition used_list :: "GPUAllocator \<Rightarrow> int list" where
  "used_list a = concat (map snd (allocated a))"

definition free_list :: "GPUAllocator \<Rightarrow> int list" where
  "free_list a = filter (\<lambda>i. i \<notin> set (used_list a)) (total_gpus a)"

definition insufficient_text :: "int \<Rightarrow> int \<Rightarrow> errtext" where
  "insufficient_text count available =
     ''insufficient GPUs: requested '' @ go_Itoa count @ '', available '' @ go_Itoa available"

definition Allocate :: "uuid \<Rightarrow> int \<Rightarrow> GPUAllocator \<Rightarrow> alloc_result \<times> GPUAllocator" where
  "Allocate envID count a =
     (if count = 0 then (AllocOk [], a\<lparr>allocated := AList.update envID [] (allocated a)\<rparr>)
      else
        let free = free_list a
        in if int (length free) < count
           then (AllocErr (insufficient_text count (int (length free))), a)
           else if count < 0 then (AllocPanic, a)
           else let pick = take (nat count) free
                in (AllocOk pick, a\<lparr>allocated := AList.update envID pick (allocated a)\<rparr>))"

definition Release :: "uuid \<Rightarrow> GPUAllocator \<Rightarrow> GPUAllocator" where
  "Release envID a = a\<lparr>allocated := AList.delete envID (allocated a)\<rparr>"

definition Restored :: "GPUAllocator \<Rightarrow> (uuid, int list) gomap" where
  "Restored a = map (\<lambda>(k, v). (k, v)) (allocated a)"

definition parseIndicesCSV :: "gostring \<Rightarrow> int list" where
  "parseIndicesCSV s0 =
     (let s = go_TrimSpace s0
      in if s = '''' then []
         else List.map_filter (\<lambda>p. go_Atoi (go_TrimSpace p)) (go_Split CHR '','' s))"

definition IndicesCSV :: "int list \<Rightarrow> gostring" where
  "IndicesCSV idx = go_Join '','' (map go_Itoa idx)"

text \<open>
  \<open>RestoreFromDocker\<close>, with the UUID package's parser as the parameter \<open>parse\<close>: every listed
  dev container with a well-formed env id overwrites that environment's entry.
\<close>

definition restore_container ::
  "(gostring \<Rightarrow> errtext + uuid) \<Rightarrow> ContainerInfo \<Rightarrow> (uuid, int list) gomap \<Rightarrow> (uuid, int list) gomap" where
  "restore_container parse info m =
     (let envIDStr = label_of info LabelEnvID
      in if envIDStr = '''' then m
         else case parse envIDStr of
                Inl _ \<Rightarrow> m
              | Inr envID \<Rightarrow> AList.update envID (parseIndicesCSV (label_of info LabelGPUIndices)) m)"

definition RestoreFromDocker ::
  "'d docker_client \<Rightarrow> (gostring \<Rightarrow> errtext + uuid) \<Rightarrow> 'd \<Rightarrow> GPUAllocator
     \<Rightarrow> (errtext + unit) \<times> 'd \<times> GPUAllocator" where
  "RestoreFromDocker dc parse d a =
     (case ListContainers dc [(LabelRole, ''dev'')] d of
        (Inl e, d) \<Rightarrow> (Inl (''list: '' @ e), d, a)
      | (Inr infos, d) \<Rightarrow>
          (Inr (), d, a\<lparr>allocated := fold (restore_container parse) infos (allocated a)\<rparr>))"

subsection \<open>The invariant and its preservation\<close>

text \<open>
  The devices are listed once and in order, an environment has one entry, no device is held
  twice (within an entry or by two entries), and only devices of the node are held.
\<close>

definition alloc_wf :: "GPUAllocator \<Rightarrow> bool" where
  "alloc_wf a \<longleftrightarrow>
     sorted (total_gpus a) \<and> distinct (total_gpus a) \<and> keys_distinct (allocated a) \<and>
     distinct (used_list a) \<and> set (used_list a) \<subseteq> set (total_gpus a)"

definition held :: "GPUAllocator \<Rightarrow> uuid \<Rightarrow> int set" where
  "held a u = set (gomap_get (allocated a) u [])"

lemma NewGPUAllocator_wf: "distinct idx \<Longrightarrow> alloc_wf (NewGPUAllocator idx)"
  by (simp add: alloc_wf_def NewGPUAllocator_def used_list_def)

lemma concat_update_subset:
  "set (concat (map snd (AList.update k v m))) \<subseteq> set v \<union> set (concat (map snd m))"
  by (induction m) auto

lemma concat_delete_subset:
  "set (concat (map snd (AList.delete k m))) \<subseteq> set (concat (map snd m))"
  by (auto simp: AList.delete_eq)

lemma distinct_concat_update:
  "distinct (concat (map snd m)) \<Longrightarrow> distinct v \<Longrightarrow> set v \<inter> set (concat (map snd m)) = {} \<Longrightarrow>
   distinct (concat (map snd (AList.update k v m)))"
proof (induction m)
  case (Cons p m)
  then show ?case
    using concat_update_subset[of k v m] by (auto simp del: set_concat)
qed simp

lemma distinct_concat_delete:
  "distinct (concat (map snd m)) \<Longrightarrow> distinct (concat (map snd (AList.delete k m)))"
proof (induction m)
  case (Cons p m)
  then show ?case
    using concat_delete_subset[of k m] by (auto simp del: set_concat)
qed simp

lemma free_list_distinct: "alloc_wf a \<Longrightarrow> distinct (free_list a)"
  by (simp add: alloc_wf_def free_list_def)

lemma free_list_sorted: "alloc_wf a \<Longrightarrow> sorted (free_list a)"
  using sorted_filter[where f = "\<lambda>x. x", of "total_gpus a"] by (simp add: alloc_wf_def free_list_def)

lemma set_free_list: "set (free_list a) = set (total_gpus a) - set (used_list a)"
  by (auto simp: free_list_def)

lemma wf_put:
  assumes wf: "alloc_wf a" and v: "distinct v" "set v \<subseteq> set (free_list a)"
  shows "alloc_wf (a\<lparr>allocated := AList.update k v (allocated a)\<rparr>)"
proof -
  have "set v \<inter> set (used_list a) = {}" and "set v \<subseteq> set (total_gpus a)"
    using v(2) by (auto simp: set_free_list)
  then show ?thesis
    using wf v(1) concat_update_subset[of k v "allocated a"]
    by (auto simp: alloc_wf_def used_list_def simp del: set_concat intro!: distinct_concat_update)
qed

lemma Allocate_wf: "alloc_wf a \<Longrightarrow> alloc_wf (snd (Allocate u n a))"
proof -
  assume wf: "alloc_wf a"
  then have "distinct (take k (free_list a))" and "set (take k (free_list a)) \<subseteq> set (free_list a)" for k
    by (simp_all add: free_list_distinct set_take_subset)
  with wf show ?thesis by (simp add: Allocate_def Let_def wf_put)
qed

lemma Release_wf: "alloc_wf a \<Longrightarrow> alloc_wf (Release u a)"
  using concat_delete_subset[of u "allocated a"]
  by (auto simp: alloc_wf_def Release_def used_list_def simp del: set_concat
      intro!: distinct_concat_delete)

subsection \<open>Who holds what\<close>

lemma held_Allocate_ok:
  "Allocate u n a = (AllocOk xs, a') \<Longrightarrow> held a' = (held a)(u := set xs)"
  by (auto simp: Allocate_def Let_def held_def gomap_get_def go_simps fun_eq_iff split: if_splits)

lemma Allocate_not_ok: "Allocate u n a = (r, a') \<Longrightarrow> (\<And>xs. r \<noteq> AllocOk xs) \<Longrightarrow> a' = a"
  by (auto simp: Allocate_def Let_def split: if_splits)

lemma held_Release: "held (Release u a) = (held a)(u := {})"
  by (auto simp: Release_def held_def gomap_get_def go_simps fun_eq_iff)

lemma total_Allocate [simp]: "total_gpus (snd (Allocate u n a)) = total_gpus a"
  by (simp add: Allocate_def Let_def)

lemma total_Release [simp]: "total_gpus (Release u a) = total_gpus a"
  by (simp add: Release_def)

lemma held_iff:
  assumes kd: "keys_distinct (allocated a)"
  shows "i \<in> held a u \<longleftrightarrow> (\<exists>xs. (u, xs) \<in> set (allocated a) \<and> i \<in> set xs)"
proof
  assume "i \<in> held a u"
  then obtain xs where "map_of (allocated a) u = Some xs" and "i \<in> set xs"
    by (cases "map_of (allocated a) u") (auto simp: held_def gomap_get_def)
  then show "\<exists>xs. (u, xs) \<in> set (allocated a) \<and> i \<in> set xs"
    by (blast dest: map_of_SomeD)
next
  assume "\<exists>xs. (u, xs) \<in> set (allocated a) \<and> i \<in> set xs"
  then obtain xs where "(u, xs) \<in> set (allocated a)" and i: "i \<in> set xs" by blast
  then have "map_of (allocated a) u = Some xs" using kd by (simp add: in_set_map_of)
  with i show "i \<in> held a u" by (simp add: held_def gomap_get_def)
qed

lemma used_held: "keys_distinct (allocated a) \<Longrightarrow> set (used_list a) = (\<Union>u. held a u)"
proof -
  assume kd: "keys_distinct (allocated a)"
  have "i \<in> set (used_list a) \<longleftrightarrow> (\<exists>u xs. (u, xs) \<in> set (allocated a) \<and> i \<in> set xs)" for i
    by (simp add: used_list_def) force
  also have "\<dots> i \<longleftrightarrow> (\<exists>u. i \<in> held a u)" for i
    by (simp add: held_iff[OF kd])
  finally show ?thesis by blast
qed

lemma distinct_concat_disjoint:
  assumes "distinct (concat (map snd m))" and "(u, xs) \<in> set m" and "(v, ys) \<in> set m" and "u \<noteq> v"
  shows "set xs \<inter> set ys = {}"
  using assms
proof (induction m)
  case (Cons p m)
  then have dis: "set (snd p) \<inter> set (concat (map snd m)) = {}"
    and IH: "(u, xs) \<in> set m \<Longrightarrow> (v, ys) \<in> set m \<Longrightarrow> set xs \<inter> set ys = {}"
    by simp_all
  have sub: "(w, zs) \<in> set m \<Longrightarrow> set zs \<subseteq> set (concat (map snd m))" for w zs
    by force
  from Cons.prems(2-4) consider "p = (u, xs)" "(v, ys) \<in> set m" | "p = (v, ys)" "(u, xs) \<in> set m"
    | "(u, xs) \<in> set m" "(v, ys) \<in> set m"
    by auto
  then show ?case
  proof cases
    case 1
    then show ?thesis using dis sub[of v ys] by auto
  next
    case 2
    then show ?thesis using dis sub[of u xs] by auto
  next
    case 3
    then show ?thesis by (rule IH)
  qed
qed simp

lemma wf_exclusive:
  assumes "alloc_wf a" and "u \<noteq> v"
  shows "held a u \<inter> held a v = {}"
proof -
  have kd: "keys_distinct (allocated a)" and "distinct (concat (map snd (allocated a)))"
    using assms(1) by (simp_all add: alloc_wf_def used_list_def)
  then have "(u, xs) \<in> set (allocated a) \<Longrightarrow> (v, ys) \<in> set (allocated a) \<Longrightarrow> set xs \<inter> set ys = {}"
    for xs ys using distinct_concat_disjoint assms(2) by metis
  then show ?thesis by (fastforce simp: held_iff[OF kd])
qed

lemma Allocate_ok_shape:
  assumes "alloc_wf a" and "Allocate u n a = (AllocOk xs, a')"
  shows "int (length xs) = n \<and> sorted xs \<and> distinct xs \<and> set xs \<subseteq> set (free_list a)"
proof -
  have "sorted (free_list a)" and "distinct (free_list a)"
    using assms(1) by (simp_all add: free_list_sorted free_list_distinct)
  then show ?thesis
    using assms(2)
    by (auto simp: Allocate_def Let_def sorted_wrt_take set_take_subset split: if_splits
        dest: in_set_takeD)
qed

lemma Allocate_cases:
  obtains (ok) xs where "fst (Allocate u n a) = AllocOk xs"
  | (none) "snd (Allocate u n a) = a" "\<And>xs. fst (Allocate u n a) \<noteq> AllocOk xs"
  by (cases "fst (Allocate u n a)") (auto simp: Allocate_def Let_def split: if_splits)

lemma Allocate_int_cases:
  "fst (Allocate u (int n) a) =
     (if n \<le> length (free_list a) then AllocOk (take n (free_list a))
      else AllocErr (insufficient_text (int n) (int (length (free_list a)))))"
  by (auto simp: Allocate_def Let_def)

subsection \<open>The contract of an exclusive pool\<close>

text \<open>
  A pool hands out resources to owners: what an owner acquires nobody owns, it replaces what
  the owner had, an acquisition fails only when too few resources are unowned, and a release
  frees everything the owner had.
\<close>

datatype 'k pool_op = Acquire 'k nat | Drop 'k

fun run_pool :: "('k \<Rightarrow> nat \<Rightarrow> 's \<Rightarrow> 'r list option \<times> 's) \<Rightarrow> ('k \<Rightarrow> 's \<Rightarrow> 's) \<Rightarrow> 'k pool_op list \<Rightarrow> 's \<Rightarrow> 's" where
  "run_pool acquire release [] s = s"
| "run_pool acquire release (Acquire k n # ops) s = run_pool acquire release ops (snd (acquire k n s))"
| "run_pool acquire release (Drop k # ops) s = run_pool acquire release ops (release k s)"

locale exclusive_pool =
  fixes acquire :: "'k \<Rightarrow> nat \<Rightarrow> 's \<Rightarrow> 'r list option \<times> 's"
    and release :: "'k \<Rightarrow> 's \<Rightarrow> 's"
    and owned :: "'s \<Rightarrow> 'k \<Rightarrow> 'r set"
    and capacity :: "'s \<Rightarrow> 'r set"
    and inv :: "'s \<Rightarrow> bool"
  assumes finite_capacity: "finite (capacity s)"
    and owned_capacity: "inv s \<Longrightarrow> owned s k \<subseteq> capacity s"
    and owned_disjoint: "inv s \<Longrightarrow> j \<noteq> k \<Longrightarrow> owned s j \<inter> owned s k = {}"
    and acquire_inv: "inv s \<Longrightarrow> inv (snd (acquire k n s))"
    and acquire_capacity: "capacity (snd (acquire k n s)) = capacity s"
    and acquire_some: "inv s \<Longrightarrow> acquire k n s = (Some rs, s') \<Longrightarrow>
      owned s' = (owned s)(k := set rs) \<and> length rs = n \<and> distinct rs \<and>
      set rs \<subseteq> capacity s - (\<Union>j. owned s j)"
    and acquire_none: "inv s \<Longrightarrow> acquire k n s = (None, s') \<Longrightarrow>
      s' = s \<and> card (capacity s - (\<Union>j. owned s j)) < n"
    and release_inv: "inv s \<Longrightarrow> inv (release k s)"
    and release_capacity: "capacity (release k s) = capacity s"
    and release_owned: "inv s \<Longrightarrow> owned (release k s) = (owned s)(k := {})"
begin

lemma run_inv: "inv s \<Longrightarrow> inv (run_pool acquire release ops s)"
proof (induction ops arbitrary: s)
  case (Cons op ops)
  then show ?case by (cases op) (simp_all add: acquire_inv release_inv)
qed simp

lemma run_capacity: "capacity (run_pool acquire release ops s) = capacity s"
proof (induction ops arbitrary: s)
  case (Cons op ops)
  then show ?case by (cases op) (simp_all add: acquire_capacity release_capacity)
qed simp

lemma run_exclusive:
  "inv s \<Longrightarrow> j \<noteq> k \<Longrightarrow>
   owned (run_pool acquire release ops s) j \<inter> owned (run_pool acquire release ops s) k = {}"
  by (rule owned_disjoint) (simp_all add: run_inv)

lemma run_within: "inv s \<Longrightarrow> owned (run_pool acquire release ops s) k \<subseteq> capacity s"
  using owned_capacity[OF run_inv] run_capacity by metis

lemma acquire_iff:
  assumes "inv s"
  shows "fst (acquire k n s) \<noteq> None \<longleftrightarrow> n \<le> card (capacity s - (\<Union>j. owned s j))"
proof (cases "acquire k n s")
  case (Pair r s')
  show ?thesis
  proof (cases r)
    case None
    with assms Pair show ?thesis using acquire_none by fastforce
  next
    case (Some rs)
    then have rs: "length rs = n" "distinct rs" "set rs \<subseteq> capacity s - (\<Union>j. owned s j)"
      using assms Pair acquire_some by auto
    then have "card (set rs) \<le> card (capacity s - (\<Union>j. owned s j))"
      by (intro card_mono) (auto simp: finite_capacity)
    with rs Some Pair show ?thesis by (simp add: distinct_card)
  qed
qed

lemma free_after_release:
  assumes "inv s"
  shows "owned s k \<subseteq> capacity (release k s) - (\<Union>j. owned (release k s) j)"
proof -
  have "owned s k \<inter> (\<Union>j \<in> - {k}. owned s j) = {}"
    using owned_disjoint[OF assms] by blast
  then show ?thesis
    using owned_capacity[OF assms] by (auto simp: release_capacity release_owned[OF assms] split: if_splits)
qed

text \<open>Whoever releases \<open>n\<close> resources can have \<open>n\<close> resources again, and so can anybody else.\<close>

lemma acquire_after_release:
  assumes "inv s" and "n \<le> card (owned s k)"
  shows "fst (acquire j n (release k s)) \<noteq> None"
proof -
  have "card (owned s k) \<le> card (capacity (release k s) - (\<Union>j. owned (release k s) j))"
    by (intro card_mono free_after_release[OF assms(1)]) (simp add: finite_capacity)
  with assms show ?thesis by (subst acquire_iff) (simp_all add: release_inv)
qed

end

definition gpu_acquire :: "uuid \<Rightarrow> nat \<Rightarrow> GPUAllocator \<Rightarrow> int list option \<times> GPUAllocator" where
  "gpu_acquire u n a =
     (case Allocate u (int n) a of
        (AllocOk xs, a) \<Rightarrow> (Some xs, a)
      | (_, a) \<Rightarrow> (None, a))"

definition gpus_of :: "GPUAllocator \<Rightarrow> int set" where
  "gpus_of a = set (total_gpus a)"

lemma free_set: "alloc_wf a \<Longrightarrow> set (free_list a) = gpus_of a - (\<Union>u. held a u)"
  by (simp add: set_free_list gpus_of_def alloc_wf_def used_held)

lemma gpu_acquire_Some:
  "gpu_acquire u n a = (Some xs, a') \<longleftrightarrow> Allocate u (int n) a = (AllocOk xs, a')"
  by (auto simp: gpu_acquire_def split: prod.splits alloc_result.splits)

lemma gpu_acquire_None:
  "gpu_acquire u n a = (None, a') \<Longrightarrow> a' = a \<and> length (free_list a) < n"
  by (auto simp: gpu_acquire_def Allocate_def Let_def split: prod.splits alloc_result.splits if_splits)

lemma gpu_acquire_snd: "snd (gpu_acquire u n a) = snd (Allocate u (int n) a)"
  by (simp add: gpu_acquire_def split: prod.split alloc_result.split)

interpretation gpu_pool: exclusive_pool gpu_acquire Release held gpus_of alloc_wf
proof (unfold_locales, goal_cases)
  case (2 s k)
  then show ?case using used_held[of s] by (auto simp: alloc_wf_def gpus_of_def)
next
  case (4 s k n)
  then show ?case by (simp add: gpu_acquire_snd Allocate_wf)
next
  case (5 k n s)
  show ?case by (simp add: gpu_acquire_snd gpus_of_def)
next
  case (6 s k n rs s')
  then show ?case
    using Allocate_ok_shape[of s k "int n" rs s'] held_Allocate_ok[of k "int n" s rs s'] free_set[of s]
    by (simp add: gpu_acquire_Some)
next
  case (7 s k n s')
  then have "length (free_list s) < n" and "s' = s" using gpu_acquire_None by blast+
  moreover have "card (set (free_list s)) = length (free_list s)"
    using 7 free_list_distinct distinct_card by blast
  ultimately show ?case using free_set[of s] 7 by simp
qed (simp_all add: wf_exclusive Release_wf held_Release gpus_of_def)

subsection \<open>Labels and the rebuild\<close>

lemma map_filter_Itoa:
  "list_all (fits_int 64) xs \<Longrightarrow>
   List.map_filter (\<lambda>p. go_Atoi (go_TrimSpace p)) (map go_Itoa xs) = xs"
  by (induction xs) (simp_all add: List.map_filter_simps go_Atoi_Itoa)

lemma IndicesCSV_chars: "c \<in> set (IndicesCSV xs) \<Longrightarrow> \<not> is_space c"
proof -
  have sub: "set (go_Join '','' ps) \<subseteq> insert CHR '','' (\<Union> (set ` set ps))" for ps
    by (induction "'',''" ps rule: go_Join.induct) auto
  assume "c \<in> set (IndicesCSV xs)"
  then have "c = CHR '','' \<or> (\<exists>i \<in> set xs. c \<in> set (go_Itoa i))"
    using sub[of "map go_Itoa xs"] by (auto simp: IndicesCSV_def)
  then show ?thesis using go_Itoa_no_space by (auto simp: is_space_def)
qed

lemma IndicesCSV_Nil_iff: "IndicesCSV xs = [] \<longleftrightarrow> xs = []"
proof (cases xs)
  case (Cons x ys)
  then show ?thesis by (cases ys) (auto simp: IndicesCSV_def)
qed (simp add: IndicesCSV_def)

lemma parse_IndicesCSV: "list_all (fits_int 64) xs \<Longrightarrow> parseIndicesCSV (IndicesCSV xs) = xs"
proof (cases "xs = []")
  case True
  then show ?thesis by (simp add: IndicesCSV_def parseIndicesCSV_def)
next
  case False
  assume fits: "list_all (fits_int 64) xs"
  have "go_TrimSpace (IndicesCSV xs) = IndicesCSV xs"
    by (rule go_TrimSpace_no_space) (rule IndicesCSV_chars)
  moreover have "go_Split CHR '','' (IndicesCSV xs) = map go_Itoa xs"
    using False go_Itoa_no_comma by (auto simp: IndicesCSV_def intro!: go_Split_Join)
  ultimately show ?thesis
    using False fits by (simp add: parseIndicesCSV_def IndicesCSV_Nil_iff map_filter_Itoa)
qed

text \<open>A dev container carries the labels that \<open>HandleCreate\<close> gives the holder of \<open>xs\<close>.\<close>

definition labelled_for ::
  "(gostring \<Rightarrow> errtext + uuid) \<Rightarrow> ContainerInfo \<Rightarrow> uuid \<times> int list \<Rightarrow> bool" where
  "labelled_for parse info entry =
     (label_of info LabelEnvID \<noteq> '''' \<and> parse (label_of info LabelEnvID) = Inr (fst entry) \<and>
      label_of info LabelGPUIndices = IndicesCSV (snd entry) \<and> list_all (fits_int 64) (snd entry))"

lemma update_fresh: "k \<notin> fst ` set m \<Longrightarrow> AList.update k v m = m @ [(k, v)]"
  by (induction m) auto

lemma restore_fold:
  assumes "list_all2 (labelled_for parse) infos es" and "distinct (map fst (acc @ es))"
  shows "fold (restore_container parse) infos acc = acc @ es"
  using assms
proof (induction infos es arbitrary: acc rule: list_all2_induct)
  case (Cons info infos e es)
  obtain u xs where e: "e = (u, xs)" by force
  have "restore_container parse info acc = AList.update u xs acc"
    using Cons.hyps(1) by (simp add: e restore_container_def labelled_for_def parse_IndicesCSV)
  moreover have "u \<notin> fst ` set acc" using Cons.prems e by auto
  ultimately have "restore_container parse info acc = acc @ [e]"
    by (simp add: e update_fresh)
  with Cons.IH[of "acc @ [e]"] Cons.prems show ?case by simp
qed simp

subsection \<open>Properties\<close>

text \<open>C25: whatever sequence of allocations and releases runs on a fresh allocator, no two
  environments hold the same GPU, and only GPUs of the node are held.\<close>

theorem gpus_never_shared:
  assumes "distinct idx" and "u \<noteq> v"
  shows "held (run_pool gpu_acquire Release ops (NewGPUAllocator idx)) u \<inter>
           held (run_pool gpu_acquire Release ops (NewGPUAllocator idx)) v = {} \<and>
         held (run_pool gpu_acquire Release ops (NewGPUAllocator idx)) u \<subseteq> set idx"
proof -
  have wf: "alloc_wf (NewGPUAllocator idx)" using assms(1) by (rule NewGPUAllocator_wf)
  have "gpus_of (NewGPUAllocator idx) = set idx" by (simp add: gpus_of_def NewGPUAllocator_def)
  then show ?thesis
    using gpu_pool.run_exclusive[OF wf assms(2)] gpu_pool.run_within[OF wf] by metis
qed

lemma gpus_never_shared_witness:
  "distinct [0, 1, 2 :: int] \<and> (7 :: uuid) \<noteq> 8 \<and>
   held (run_pool gpu_acquire Release [Acquire 7 2, Drop 7, Acquire 8 1, Acquire 7 2]
           (NewGPUAllocator [0, 1, 2])) 7 \<inter>
   held (run_pool gpu_acquire Release [Acquire 7 2, Drop 7, Acquire 8 1, Acquire 7 2]
           (NewGPUAllocator [0, 1, 2])) 8 = {}"
  using gpus_never_shared[of "[0, 1, 2]" 7 8 "[Acquire 7 2, Drop 7, Acquire 8 1, Acquire 7 2]"]
  by simp

text \<open>On a well-formed allocator \<open>Allocate\<close> succeeds exactly when the count is not negative and
  enough devices are free; it then hands out the lowest free devices in order, replacing the
  caller's earlier devices and nobody else's. It reports an error only when too few are free,
  panics only on a negative count, and leaves the allocator alone in both cases.\<close>

theorem Allocate_spec:
  assumes wf: "alloc_wf a"
  shows "case Allocate u n a of
           (AllocOk xs, a') \<Rightarrow>
             int (length xs) = n \<and> n \<le> int (length (free_list a)) \<and> sorted xs \<and> distinct xs \<and>
             xs = take (nat n) (free_list a) \<and> held a' = (held a)(u := set xs) \<and> alloc_wf a'
         | (AllocErr e, a') \<Rightarrow> int (length (free_list a)) < n \<and> a' = a
         | (AllocPanic, a') \<Rightarrow> n < 0 \<and> a' = a"
proof (cases "Allocate u n a")
  case (Pair r a')
  show ?thesis
  proof (cases r)
    case (AllocOk xs)
    have "alloc_wf a'" using Allocate_wf[OF wf, of u n] Pair by simp
    moreover have "0 \<le> n" and "n \<le> int (length (free_list a))"
      and "xs = take (nat n) (free_list a)"
      using Pair AllocOk by (auto simp: Allocate_def Let_def split: if_splits)
    ultimately show ?thesis
      using Pair AllocOk Allocate_ok_shape[OF wf] held_Allocate_ok by simp
  qed (use Pair in \<open>auto simp: Allocate_def Let_def split: if_splits\<close>)
qed

lemma Allocate_spec_witness:
  "alloc_wf (NewGPUAllocator [2, 0, 1]) \<and>
   Allocate 7 2 (NewGPUAllocator [2, 0, 1]) =
     (AllocOk [0, 1], \<lparr>total_gpus = [0, 1, 2], allocated = [(7, [0, 1])]\<rparr>) \<and>
   held \<lparr>total_gpus = [0, 1, 2], allocated = [(7, [0, 1])]\<rparr> =
     (held (NewGPUAllocator [2, 0, 1]))(7 := {0, 1})"
proof -
  have wf: "alloc_wf (NewGPUAllocator [2, 0, 1])" by (rule NewGPUAllocator_wf) simp
  moreover have "Allocate 7 2 (NewGPUAllocator [2, 0, 1]) =
     (AllocOk [0, 1], \<lparr>total_gpus = [0, 1, 2], allocated = [(7, [0, 1])]\<rparr>)"
    by (simp add: Allocate_def Let_def NewGPUAllocator_def free_list_def used_list_def)
  ultimately show ?thesis using Allocate_spec[OF wf, where u = 7 and n = 2] by simp
qed

text \<open>Whoever releases an environment's devices makes them available: an allocation of at most
  as many devices as the released environment held succeeds right after, for any environment.\<close>

theorem released_gpus_available:
  assumes "alloc_wf a" and "n \<le> card (held a u)"
  shows "\<exists>xs. fst (Allocate v (int n) (Release u a)) = AllocOk xs"
  using gpu_pool.acquire_after_release[OF assms, of v]
  by (auto simp: gpu_acquire_def split: prod.splits alloc_result.splits)

lemma released_gpus_available_witness:
  "alloc_wf \<lparr>total_gpus = [0, 1], allocated = [(7, [0, 1])]\<rparr> \<and>
   2 \<le> card (held \<lparr>total_gpus = [0, 1], allocated = [(7, [0, 1])]\<rparr> 7) \<and>
   (\<exists>xs. fst (Allocate 8 2 (Release 7 \<lparr>total_gpus = [0, 1], allocated = [(7, [0, 1])]\<rparr>)) = AllocOk xs)"
proof -
  have h: "alloc_wf \<lparr>total_gpus = [0, 1], allocated = [(7, [0, 1])]\<rparr>"
    "2 \<le> card (held \<lparr>total_gpus = [0, 1], allocated = [(7, [0, 1])]\<rparr> 7)"
    by (simp_all add: alloc_wf_def used_list_def keys_distinct_def held_def gomap_get_def)
  then show ?thesis using released_gpus_available[OF h, of 8] by simp
qed

text \<open>The label a dev container gets parses back to exactly the device list it was made from.\<close>

theorem IndicesCSV_roundtrip:
  assumes "list_all (fits_int 64) xs"
  shows "parseIndicesCSV (IndicesCSV xs) = xs"
  by (rule parse_IndicesCSV[OF assms])

lemma IndicesCSV_roundtrip_witness:
  "list_all (fits_int 64) [0, 7, 10] \<and> parseIndicesCSV (IndicesCSV [0, 7, 10]) = [0, 7, 10]"
proof -
  have h: "list_all (fits_int 64) [0, 7, 10]" by (simp add: fits_int_def)
  show ?thesis using h IndicesCSV_roundtrip[OF h] by blast
qed

text \<open>When every holder's dev container carries the holder's id and device list, rebuilding an
  empty allocator from the containers gives back the allocator that was lost.\<close>

theorem RestoreFromDocker_rebuilds:
  assumes "ListContainers dc [(LabelRole, ''dev'')] d = (Inr infos, d')"
    and "list_all2 (labelled_for parse) infos (allocated a)"
    and "keys_distinct (allocated a)"
  shows "RestoreFromDocker dc parse d (a\<lparr>allocated := []\<rparr>) = (Inr (), d', a)"
  using assms restore_fold[of parse infos "allocated a" "[]"]
  by (simp add: RestoreFromDocker_def keys_distinct_def)

definition demo_parse :: "gostring \<Rightarrow> errtext + uuid" where
  "demo_parse s = (case atoi_unsigned s of None \<Rightarrow> Inl ''invalid UUID'' | Some n \<Rightarrow> Inr n)"

definition demo_dev :: ContainerInfo where
  "demo_dev = \<lparr>info_ID = ''flex-env-7'', info_Name = ''flex-env-7'', info_State = ''running'',
     info_Labels = [(LabelEnvID, ''7''), (LabelRole, ''dev''), (LabelGPUIndices, ''0,1'')],
     info_Env = []\<rparr>"

lemma RestoreFromDocker_rebuilds_witness:
  "RestoreFromDocker mock_client demo_parse
     (NewMockDockerClient\<lparr>Containers := [(''flex-env-7'', demo_dev)]\<rparr>)
     (NewGPUAllocator [0, 1]) =
   (Inr (), NewMockDockerClient\<lparr>Containers := [(''flex-env-7'', demo_dev)], Calls := [''ListContainers'']\<rparr>,
    \<lparr>total_gpus = [0, 1], allocated = [(7, [0, 1])]\<rparr>)"
proof -
  let ?m = "NewMockDockerClient\<lparr>Containers := [(''flex-env-7'', demo_dev)]\<rparr>"
  let ?a = "\<lparr>total_gpus = [0, 1], allocated = [(7, [0, 1 :: int])]\<rparr>"
  have "ListContainers mock_client [(LabelRole, ''dev'')] ?m =
      (Inr [demo_dev], ?m\<lparr>Calls := [''ListContainers'']\<rparr>)"
    by (simp add: mock_client_def mock_ListContainers_def take_call_def NewMockDockerClient_def
        demo_dev_def matches_filter_def label_of_def gomap_get_def label_defs)
  moreover have "list_all2 (labelled_for demo_parse) [demo_dev] (allocated ?a)"
    by (simp add: labelled_for_def demo_dev_def label_of_def gomap_get_def label_defs demo_parse_def
        IndicesCSV_def go_Itoa_def nat_dec.simps go_simps atoi_unsigned_def is_digit_def
        byte_of_def digit_val_def fits_int_def)
  moreover have "keys_distinct (allocated ?a)" by (simp add: keys_distinct_def)
  ultimately have "RestoreFromDocker mock_client demo_parse ?m (?a\<lparr>allocated := []\<rparr>) =
      (Inr (), ?m\<lparr>Calls := [''ListContainers'']\<rparr>, ?a)"
    by (rule RestoreFromDocker_rebuilds)
  then show ?thesis by (simp add: NewGPUAllocator_def NewMockDockerClient_def)
qed

end
