(* ===== verification/Proto.thy ===== *)
theory Proto
  imports GoNumbers
begin

text \<open>
  The messages of \<open>proto/agent.proto\<close> that an agent and the control plane exchange. A oneof is
  a datatype with a constructor for the unset case; getters of unset fields do not occur.
\<close>

record pb_GPU =
  gpu_index :: int
  gpu_model :: gostring
  gpu_vram_mb :: int

record CreateEnv =
  ce_env_id :: gostring
  ce_image_ref :: gostring
  ce_sidecar_image_ref :: gostring
  ce_hostname :: gostring
  ce_headscale_url :: gostring
  ce_preauth_key :: gostring
  ce_tags :: "gostring list"
  ce_authorized_keys :: gostring
  ce_gpu_request :: int
  ce_default_cmd :: "gostring list"

record StartEnv =
  se_env_id :: gostring
  se_preauth_key :: gostring
  se_authorized_keys :: gostring

datatype AgentMessage =
    Register gostring "pb_GPU list"
  | Heartbeat int
  | EnvReady gostring gostring gostring "int list"
  | EnvStopped gostring
  | EnvDeleted gostring
  | EnvError gostring gostring gostring
  | EnvSnapshot "gostring list"
  | AgentNone

datatype ControlMessage =
    RegisterAck gostring
  | HeartbeatAck
  | MsgCreateEnv CreateEnv
  | MsgStopEnv gostring
  | MsgStartEnv StartEnv
  | MsgDeleteEnv gostring
  | ControlNone

end
