(* ===== verification/Dispatcher.thy ===== *)
theory Dispatcher
  imports Allocator Proto
begin

text \<open>
  The agent's command handlers, \<open>envlifecycle/dispatcher.go\<close>: create, stop, start and delete an
  environment (a network sidecar container and a dev container) and the snapshot sent on
  reconnect. The handlers are parametric in the container engine (any \<open>DockerClient\<close>), in the
  UUID parser and in the environment's timing; their state is the engine, the allocator, the
  messages sent so far and the clock in nanoseconds.
\<close>

subsection \<open>State\<close>

record 'd agent_world =
  docker :: 'd
  alloc :: GPUAllocator
  sent :: "AgentMessage list"
  clock :: int

text \<open>
  What a handler runs under: the health timeout of the dispatcher, the context's error at a
  time, how long an \<open>Exec\<close> started at a time takes, and \<open>uuid.Parse\<close>.
\<close>

record dispatch_env =
  healthTimeout :: int
  ctxErr :: "int \<Rightarrow> errtext option"
  execTime :: "int \<Rightarrow> nat"
  uuidParse :: "gostring \<Rightarrow> errtext + uuid"

datatype outcome = Returned | Panicked

text \<open>One call of a method of the engine, on the handler's state.\<close>

definition on_docker :: "('d \<Rightarrow> 'r \<times> 'd) \<Rightarrow> 'd agent_world \<Rightarrow> 'r \<times> 'd agent_world" where
  "on_docker f w = (case f (docker w) of (r, d) \<Rightarrow> (r, w\<lparr>docker := d\<rparr>))"

definition release_gpus :: "uuid \<Rightarrow> 'd agent_world \<Rightarrow> 'd agent_world" where
  "release_gpus u w = w\<lparr>alloc := Release u (alloc w)\<rparr>"

definition sendError :: "gostring \<Rightarrow> gostring \<Rightarrow> gostring \<Rightarrow> 'd agent_world \<Rightarrow> 'd agent_world" where
  "sendError envID stage detail w = w\<lparr>sent := sent w @ [EnvError envID stage detail]\<rparr>"

definition sendReady ::
  "gostring \<Rightarrow> gostring \<Rightarrow> gostring \<Rightarrow> int list \<Rightarrow> 'd agent_world \<Rightarrow> 'd agent_world" where
  "sendReady envID sidecarID devID gpuIdx w =
     w\<lparr>sent := sent w @ [EnvReady envID sidecarID devID (map to_int32 gpuIdx)]\<rparr>"

definition try_docker :: "('d \<Rightarrow> 'r \<times> 'd) \<Rightarrow> 'd agent_world \<Rightarrow> 'd agent_world" where
  "try_docker f w = snd (on_docker f w)"

definition seconds :: "int \<Rightarrow> int" where
  "seconds n = n * 1000000000"

subsection \<open>Waiting for the sidecar\<close>

definition healthy :: "errtext + (gostring \<times> gostring \<times> int) \<Rightarrow> bool" where
  "healthy r = (case r of Inl _ \<Rightarrow> False | Inr (stdout, _, _) \<Rightarrow> go_Contains stdout ''100.'')"

function wait_loop ::
  "'d docker_client \<Rightarrow> dispatch_env \<Rightarrow> int \<Rightarrow> gostring \<Rightarrow> 'd agent_world
     \<Rightarrow> (errtext + unit) \<times> 'd agent_world" where
  "wait_loop dc E deadline sidecarID w =
     (if clock w < deadline then
        (case ctxErr E (clock w) of
           Some e \<Rightarrow> (Inl e, w)
         | None \<Rightarrow>
             let (r, w1) = on_docker (Exec dc sidecarID [''tailscale'', ''status'']) w;
                 w2 = w1\<lparr>clock := clock w + int (execTime E (clock w))\<rparr>
             in if healthy r then (Inr (), w2)
                else wait_loop dc E deadline sidecarID (w2\<lparr>clock := clock w2 + 50000000\<rparr>))
      else (Inl (''sidecar did not report tailnet IP in '' @ go_Duration_String (healthTimeout E)), w))"
  by pat_completeness auto
termination
  by (relation "measure (\<lambda>(dc, E, deadline, sidecarID, w). nat (deadline - clock w))") auto

declare wait_loop.simps [simp del]

definition waitSidecarHealth ::
  "'d docker_client \<Rightarrow> dispatch_env \<Rightarrow> gostring \<Rightarrow> 'd agent_world
     \<Rightarrow> (errtext + unit) \<times> 'd agent_world" where
  "waitSidecarHealth dc E sidecarID w = wait_loop dc E (clock w + healthTimeout E) sidecarID w"

subsection \<open>HandleCreate\<close>

definition net_name :: "gostring \<Rightarrow> gostring" where
  "net_name env = ''flex-net-'' @ env"

definition env_name :: "gostring \<Rightarrow> gostring" where
  "env_name env = ''flex-env-'' @ env"

definition sidecar_spec :: "CreateEnv \<Rightarrow> ContainerSpec" where
  "sidecar_spec cmd =
     \<lparr>spec_Name = net_name (ce_env_id cmd), spec_Image = ce_sidecar_image_ref cmd, spec_Cmd = [],
      spec_Env =
        [(''FLEXCTL_HOSTNAME'', ce_hostname cmd),
         (''FLEXCTL_AUTHKEY'', ce_preauth_key cmd),
         (''FLEXCTL_HEADSCALE_URL'', ce_headscale_url cmd),
         (''FLEXCTL_TAGS'', go_Join '','' (ce_tags cmd))],
      spec_Labels =
        [(LabelEnvID, ce_env_id cmd),
         (LabelRole, ''sidecar''),
         (LabelHostname, ce_hostname cmd),
         (LabelHeadscaleURL, ce_headscale_url cmd),
         (LabelTags, go_Join '','' (ce_tags cmd)),
         (LabelImageRef, ce_sidecar_image_ref cmd)],
      spec_NetworkMode = '''', spec_CapAdd = [''NET_ADMIN''], spec_Devices = [''/dev/net/tun''],
      spec_GPUIndices = [], spec_VolumeMounts = []\<rparr>"

definition dev_spec :: "CreateEnv \<Rightarrow> int list \<Rightarrow> ContainerSpec" where
  "dev_spec cmd indices =
     \<lparr>spec_Name = env_name (ce_env_id cmd), spec_Image = ce_image_ref cmd,
      spec_Cmd = ce_default_cmd cmd,
      spec_Env = [(''FLEXCTL_AUTHORIZED_KEYS'', ce_authorized_keys cmd)],
      spec_Labels =
        [(LabelEnvID, ce_env_id cmd),
         (LabelRole, ''dev''),
         (LabelImageRef, ce_image_ref cmd),
         (LabelGPUIndices, IndicesCSV indices),
         (LabelVolumeName, ''flex-env-'' @ ce_env_id cmd)],
      spec_NetworkMode = ''container:'' @ net_name (ce_env_id cmd), spec_CapAdd = [], spec_Devices = [],
      spec_GPUIndices = indices,
      spec_VolumeMounts = [\<lparr>Source = ''flex-env-'' @ ce_env_id cmd, Target = ''/home/dev''\<rparr>]\<rparr>"

text \<open>Stop and remove the sidecar, ignoring both errors.\<close>

definition drop_sidecar :: "'d docker_client \<Rightarrow> gostring \<Rightarrow> 'd agent_world \<Rightarrow> 'd agent_world" where
  "drop_sidecar dc sidecarID w =
     try_docker (RemoveContainer dc sidecarID True)
       (try_docker (StopContainer dc sidecarID (seconds 5)) w)"

text \<open>
  The two halves of \<open>HandleCreate\<close>, up to a healthy sidecar and up to a running dev container.
  A failure has removed what was created and carries the stage and the error text.
\<close>

definition create_sidecar ::
  "'d docker_client \<Rightarrow> dispatch_env \<Rightarrow> CreateEnv \<Rightarrow> 'd agent_world
     \<Rightarrow> (gostring \<times> errtext + gostring) \<times> 'd agent_world" where
  "create_sidecar dc E cmd w =
     (case on_docker (CreateContainer dc (sidecar_spec cmd)) w of
        (Inl e, w) \<Rightarrow> (Inl (''sidecar_start'', e), w)
      | (Inr sidecarID, w) \<Rightarrow>
          (case on_docker (StartContainer dc sidecarID) w of
             (Inl e, w) \<Rightarrow>
               (Inl (''sidecar_start'', e), try_docker (RemoveContainer dc sidecarID True) w)
           | (Inr _, w) \<Rightarrow>
               (case waitSidecarHealth dc E sidecarID w of
                  (Inl e, w) \<Rightarrow> (Inl (''sidecar_health'', e), drop_sidecar dc sidecarID w)
                | (Inr _, w) \<Rightarrow> (Inr sidecarID, w))))"

definition create_dev ::
  "'d docker_client \<Rightarrow> CreateEnv \<Rightarrow> int list \<Rightarrow> gostring \<Rightarrow> 'd agent_world
     \<Rightarrow> (gostring \<times> errtext + gostring) \<times> 'd agent_world" where
  "create_dev dc cmd indices sidecarID w =
     (case on_docker (CreateContainer dc (dev_spec cmd indices)) w of
        (Inl e, w) \<Rightarrow> (Inl (''dev_start'', e), drop_sidecar dc sidecarID w)
      | (Inr devID, w) \<Rightarrow>
          (case on_docker (StartContainer dc devID) w of
             (Inl e, w) \<Rightarrow>
               (Inl (''dev_start'', e),
                drop_sidecar dc sidecarID (try_docker (RemoveContainer dc devID True) w))
           | (Inr _, w) \<Rightarrow> (Inr devID, w)))"

definition HandleCreate ::
  "'d docker_client \<Rightarrow> dispatch_env \<Rightarrow> CreateEnv \<Rightarrow> 'd agent_world \<Rightarrow> outcome \<times> 'd agent_world" where
  "HandleCreate dc E cmd w =
     (case uuidParse E (ce_env_id cmd) of
        Inl e \<Rightarrow> (Returned, sendError (ce_env_id cmd) ''unknown'' (''invalid env_id: '' @ e) w)
      | Inr envID \<Rightarrow>
          (case Allocate envID (ce_gpu_request cmd) (alloc w) of
             (AllocPanic, a) \<Rightarrow> (Panicked, w\<lparr>alloc := a\<rparr>)
           | (AllocErr e, a) \<Rightarrow> (Returned, sendError (ce_env_id cmd) ''unknown'' e (w\<lparr>alloc := a\<rparr>))
           | (AllocOk indices, a) \<Rightarrow>
               (case create_sidecar dc E cmd (w\<lparr>alloc := a\<rparr>) of
                  (Inl (stage, e), w) \<Rightarrow>
                    (Returned, sendError (ce_env_id cmd) stage e (release_gpus envID w))
                | (Inr sidecarID, w) \<Rightarrow>
                    (case create_dev dc cmd indices sidecarID w of
                       (Inl (stage, e), w) \<Rightarrow>
                         (Returned, sendError (ce_env_id cmd) stage e (release_gpus envID w))
                     | (Inr devID, w) \<Rightarrow>
                         (Returned, sendReady (ce_env_id cmd) sidecarID devID indices w)))))"

subsection \<open>HandleStop and HandleDelete\<close>

definition HandleStop ::
  "'d docker_client \<Rightarrow> dispatch_env \<Rightarrow> gostring \<Rightarrow> 'd agent_world \<Rightarrow> outcome \<times> 'd agent_world" where
  "HandleStop dc E cmd w =
     (case uuidParse E cmd of
        Inl _ \<Rightarrow> (Returned, sendError cmd ''unknown'' ''invalid env_id'' w)
      | Inr envID \<Rightarrow>
          let w = try_docker (StopContainer dc (env_name cmd) (seconds 10)) w;
              w = try_docker (StopContainer dc (net_name cmd) (seconds 10)) w;
              w = release_gpus envID w
          in (Returned, w\<lparr>sent := sent w @ [EnvStopped cmd]\<rparr>))"

definition HandleDelete ::
  "'d docker_client \<Rightarrow> dispatch_env \<Rightarrow> gostring \<Rightarrow> 'd agent_world \<Rightarrow> outcome \<times> 'd agent_world" where
  "HandleDelete dc E cmd w =
     (case uuidParse E cmd of
        Inl _ \<Rightarrow> (Returned, sendError cmd ''unknown'' ''invalid env_id'' w)
      | Inr envID \<Rightarrow>
          let w = try_docker (StopContainer dc (env_name cmd) (seconds 5)) w;
              w = try_docker (StopContainer dc (net_name cmd) (seconds 5)) w;
              w = try_docker (RemoveContainer dc (env_name cmd) True) w;
              w = try_docker (RemoveContainer dc (net_name cmd) True) w;
              w = try_docker (RemoveVolume dc (''flex-env-'' @ cmd)) w;
              w = release_gpus envID w
          in (Returned, w\<lparr>sent := sent w @ [EnvDeleted cmd]\<rparr>))"

subsection \<open>HandleStart\<close>

definition restart_sidecar_spec :: "StartEnv \<Rightarrow> ContainerInfo \<Rightarrow> ContainerSpec" where
  "restart_sidecar_spec cmd sidecarInfo =
     \<lparr>spec_Name = net_name (se_env_id cmd), spec_Image = label_of sidecarInfo LabelImageRef,
      spec_Cmd = [],
      spec_Env =
        [(''FLEXCTL_HOSTNAME'', label_of sidecarInfo LabelHostname),
         (''FLEXCTL_AUTHKEY'', se_preauth_key cmd),
         (''FLEXCTL_HEADSCALE_URL'', label_of sidecarInfo LabelHeadscaleURL),
         (''FLEXCTL_TAGS'', label_of sidecarInfo LabelTags)],
      spec_Labels = info_Labels sidecarInfo,
      spec_NetworkMode = '''', spec_CapAdd = [''NET_ADMIN''], spec_Devices = [''/dev/net/tun''],
      spec_GPUIndices = [], spec_VolumeMounts = []\<rparr>"

definition restart_dev_spec :: "StartEnv \<Rightarrow> ContainerInfo \<Rightarrow> int list \<Rightarrow> ContainerSpec" where
  "restart_dev_spec cmd devInfo gpuIndices =
     \<lparr>spec_Name = env_name (se_env_id cmd), spec_Image = label_of devInfo LabelImageRef,
      spec_Cmd = [],
      spec_Env = [(''FLEXCTL_AUTHORIZED_KEYS'', se_authorized_keys cmd)],
      spec_Labels = info_Labels devInfo,
      spec_NetworkMode = ''container:'' @ net_name (se_env_id cmd), spec_CapAdd = [], spec_Devices = [],
      spec_GPUIndices = gpuIndices,
      spec_VolumeMounts = [\<lparr>Source = label_of devInfo LabelVolumeName, Target = ''/home/dev''\<rparr>]\<rparr>"

definition abortSidecar ::
  "'d docker_client \<Rightarrow> uuid \<Rightarrow> gostring \<Rightarrow> 'd agent_world \<Rightarrow> 'd agent_world" where
  "abortSidecar dc envID sidecarID w = release_gpus envID (drop_sidecar dc sidecarID w)"

text \<open>From the removal of the old dev container on, with the new sidecar up.\<close>

definition restart_dev ::
  "'d docker_client \<Rightarrow> StartEnv \<Rightarrow> uuid \<Rightarrow> ContainerInfo \<Rightarrow> int list \<Rightarrow> gostring \<Rightarrow> 'd agent_world
     \<Rightarrow> 'd agent_world" where
  "restart_dev dc cmd envID devInfo gpuIndices sidecarID w =
     (let fail = sendError (se_env_id cmd) ''start''
      in case on_docker (RemoveContainer dc (env_name (se_env_id cmd)) True) w of
           (Inl e, w) \<Rightarrow> fail (''rm dev: '' @ e) (abortSidecar dc envID sidecarID w)
         | (Inr _, w) \<Rightarrow>
             (case on_docker (CreateContainer dc (restart_dev_spec cmd devInfo gpuIndices)) w of
                (Inl e, w) \<Rightarrow> fail (''create dev: '' @ e) (abortSidecar dc envID sidecarID w)
              | (Inr devID, w) \<Rightarrow>
                  (case on_docker (StartContainer dc devID) w of
                     (Inl e, w) \<Rightarrow>
                       fail (''start dev: '' @ e)
                         (abortSidecar dc envID sidecarID
                           (try_docker (RemoveContainer dc devID True) w))
                   | (Inr _, w) \<Rightarrow> sendReady (se_env_id cmd) sidecarID devID gpuIndices w)))"

text \<open>From the removal of the old sidecar on, with the devices allocated.\<close>

definition restart_sidecar ::
  "'d docker_client \<Rightarrow> dispatch_env \<Rightarrow> StartEnv \<Rightarrow> uuid \<Rightarrow> ContainerInfo \<Rightarrow> ContainerInfo \<Rightarrow> int list
     \<Rightarrow> 'd agent_world \<Rightarrow> 'd agent_world" where
  "restart_sidecar dc E cmd envID devInfo sidecarInfo gpuIndices w =
     (let fail = sendError (se_env_id cmd) ''start''
      in case on_docker (RemoveContainer dc (net_name (se_env_id cmd)) True) w of
           (Inl e, w) \<Rightarrow> release_gpus envID (fail (''rm sidecar: '' @ e) w)
         | (Inr _, w) \<Rightarrow>
             (case on_docker (CreateContainer dc (restart_sidecar_spec cmd sidecarInfo)) w of
                (Inl e, w) \<Rightarrow> release_gpus envID (fail (''create sidecar: '' @ e) w)
              | (Inr sidecarID, w) \<Rightarrow>
                  (case on_docker (StartContainer dc sidecarID) w of
                     (Inl e, w) \<Rightarrow>
                       fail (''start sidecar: '' @ e)
                         (release_gpus envID (try_docker (RemoveContainer dc sidecarID True) w))
                   | (Inr _, w) \<Rightarrow>
                       (case waitSidecarHealth dc E sidecarID w of
                          (Inl e, w) \<Rightarrow>
                            fail (''sidecar health: '' @ e) (release_gpus envID (drop_sidecar dc sidecarID w))
                        | (Inr _, w) \<Rightarrow> restart_dev dc cmd envID devInfo gpuIndices sidecarID w))))"

definition HandleStart ::
  "'d docker_client \<Rightarrow> dispatch_env \<Rightarrow> StartEnv \<Rightarrow> 'd agent_world \<Rightarrow> outcome \<times> 'd agent_world" where
  "HandleStart dc E cmd w =
     (let fail = sendError (se_env_id cmd) ''start''
      in case uuidParse E (se_env_id cmd) of
           Inl _ \<Rightarrow> (Returned, sendError (se_env_id cmd) ''unknown'' ''invalid env_id'' w)
         | Inr envID \<Rightarrow>
             (case on_docker (InspectContainer dc (env_name (se_env_id cmd))) w of
                (Inl e, w) \<Rightarrow> (Returned, fail (''dev container not found: '' @ e) w)
              | (Inr devInfo, w) \<Rightarrow>
                  let labelled = parseIndicesCSV (label_of devInfo LabelGPUIndices)
                  in case on_docker (InspectContainer dc (net_name (se_env_id cmd))) w of
                       (Inl e, w) \<Rightarrow> (Returned, fail (''sidecar container not found: '' @ e) w)
                     | (Inr sidecarInfo, w) \<Rightarrow>
                         if length labelled > 0 then
                           (case Allocate envID (int (length labelled)) (alloc w) of
                              (AllocPanic, a) \<Rightarrow> (Panicked, w\<lparr>alloc := a\<rparr>)
                            | (AllocErr e, a) \<Rightarrow> (Returned, fail e (w\<lparr>alloc := a\<rparr>))
                            | (AllocOk picked, a) \<Rightarrow>
                                (Returned, restart_sidecar dc E cmd envID devInfo sidecarInfo picked
                                   (w\<lparr>alloc := a\<rparr>)))
                         else (Returned, restart_sidecar dc E cmd envID devInfo sidecarInfo labelled w)))"

subsection \<open>The snapshot sent on reconnect\<close>

definition BuildEnvStateSnapshot ::
  "'d docker_client \<Rightarrow> 'd agent_world \<Rightarrow> (errtext + gostring list) \<times> 'd agent_world" where
  "BuildEnvStateSnapshot dc w =
     (case on_docker (ListContainers dc [(LabelRole, ''dev'')]) w of
        (Inl e, w) \<Rightarrow> (Inl e, w)
      | (Inr infos, w) \<Rightarrow>
          (Inr (filter (\<lambda>i. i \<noteq> '''')
             (map (\<lambda>c. label_of c LabelEnvID) (filter (\<lambda>c. info_State c = ''running'') infos))), w))"

text \<open>
  The receive loop of the agent starts one handler per command; other messages are ignored.
\<close>

definition handle_command ::
  "'d docker_client \<Rightarrow> dispatch_env \<Rightarrow> ControlMessage \<Rightarrow> 'd agent_world \<Rightarrow> outcome \<times> 'd agent_world" where
  "handle_command dc E msg w =
     (case msg of
        MsgCreateEnv cmd \<Rightarrow> HandleCreate dc E cmd w
      | MsgStopEnv env \<Rightarrow> HandleStop dc E env w
      | MsgStartEnv cmd \<Rightarrow> HandleStart dc E cmd w
      | MsgDeleteEnv env \<Rightarrow> HandleDelete dc E env w
      | _ \<Rightarrow> (Returned, w))"

end
