(* ===== verification/DispatcherProofs.thy ===== *)
theory DispatcherProofs
  imports Dispatcher
begin

text \<open>
  What the agent's command handlers guarantee: how they leave the allocator, that each command is
  answered by exactly one message, that the health wait ends, and, over the contract of
  \<open>DockerClient\<close>, which containers a handler leaves behind. The frame lemmas say which parts of
  the state a step does not touch.
\<close>

subsection \<open>Frames\<close>

lemma on_docker_eq:
  "on_docker f w = (fst (f (docker w)), w\<lparr>docker := snd (f (docker w))\<rparr>)"
  by (simp add: on_docker_def split: prod.split)

lemma try_docker_eq: "try_docker f w = w\<lparr>docker := snd (f (docker w))\<rparr>"
  by (simp add: try_docker_def on_docker_eq)

lemma try_docker_frame [simp]:
  "alloc (try_docker f w) = alloc w" "sent (try_docker f w) = sent w"
  "clock (try_docker f w) = clock w" "docker (try_docker f w) = snd (f (docker w))"
  by (simp_all add: try_docker_eq)

lemma release_gpus_frame [simp]:
  "docker (release_gpus u w) = docker w" "sent (release_gpus u w) = sent w"
  "alloc (release_gpus u w) = Release u (alloc w)"
  by (simp_all add: release_gpus_def)

lemma sendError_frame [simp]:
  "docker (sendError i st e w) = docker w" "alloc (sendError i st e w) = alloc w"
  "sent (sendError i st e w) = sent w @ [EnvError i st e]"
  by (simp_all add: sendError_def)

lemma sendReady_frame [simp]:
  "docker (sendReady i s d idx w) = docker w" "alloc (sendReady i s d idx w) = alloc w"
  "sent (sendReady i s d idx w) = sent w @ [EnvReady i s d (map to_int32 idx)]"
  by (simp_all add: sendReady_def)

lemma drop_sidecar_frame [simp]:
  "alloc (drop_sidecar dc sid w) = alloc w" "sent (drop_sidecar dc sid w) = sent w"
  by (simp_all add: drop_sidecar_def)

lemma wait_loop_frame:
  "alloc (snd (wait_loop dc E dl sid w)) = alloc w \<and> sent (snd (wait_loop dc E dl sid w)) = sent w"
proof (induction dc E dl sid w rule: wait_loop.induct)
  case (1 dc E dl sid w)
  show ?case
  proof (cases "clock w < dl \<and> ctxErr E (clock w) = None \<and>
      \<not> healthy (fst (Exec dc sid [''tailscale'', ''status''] (docker w)))")
    case True
    with 1 show ?thesis
      by (subst (1 2) wait_loop.simps) (simp add: on_docker_eq)
  next
    case False
    then show ?thesis
      by (subst (1 2) wait_loop.simps) (auto simp: on_docker_eq split: option.splits)
  qed
qed

lemma waitSidecarHealth_frame [simp]:
  "alloc (snd (waitSidecarHealth dc E sid w)) = alloc w"
  "sent (snd (waitSidecarHealth dc E sid w)) = sent w"
  by (simp_all add: waitSidecarHealth_def wait_loop_frame)

lemma waitSidecarHealth_frameD:
  "waitSidecarHealth dc E sid w = (r, w') \<Longrightarrow> alloc w' = alloc w \<and> sent w' = sent w"
  using waitSidecarHealth_frame[of dc E sid w] by simp

text \<open>An engine fact that every \<open>Exec\<close> keeps is kept by the wait.\<close>

lemma wait_loop_engine:
  assumes "\<And>d. P d \<Longrightarrow> P (snd (Exec dc sid [''tailscale'', ''status''] d))" and "P (docker w)"
  shows "P (docker (snd (wait_loop dc E dl sid w)))"
  using assms
proof (induction dc E dl sid w rule: wait_loop.induct)
  case (1 dc E dl sid w)
  show ?case
  proof (cases "clock w < dl \<and> ctxErr E (clock w) = None \<and>
      \<not> healthy (fst (Exec dc sid [''tailscale'', ''status''] (docker w)))")
    case True
    with 1 show ?thesis
      by (subst wait_loop.simps) (simp add: on_docker_eq)
  next
    case False
    with 1 show ?thesis
      by (subst wait_loop.simps) (auto simp: on_docker_eq split: option.splits)
  qed
qed

lemma create_sidecar_frame:
  "create_sidecar dc E cmd w = (r, w') \<Longrightarrow> alloc w' = alloc w \<and> sent w' = sent w"
  by (auto simp: create_sidecar_def on_docker_eq split: prod.splits sum.splits
      dest!: waitSidecarHealth_frameD)

lemma create_dev_frame:
  "create_dev dc cmd idx sid w = (r, w') \<Longrightarrow> alloc w' = alloc w \<and> sent w' = sent w"
  by (auto simp: create_dev_def on_docker_eq split: prod.splits sum.splits)

lemma create_sidecar_stage:
  "create_sidecar dc E cmd w = (Inl (stage, e), w') \<Longrightarrow> stage \<in> {''sidecar_start'', ''sidecar_health''}"
  by (auto simp: create_sidecar_def split: prod.splits sum.splits)

lemma create_dev_stage:
  "create_dev dc cmd idx sid w = (Inl (stage, e), w') \<Longrightarrow> stage = ''dev_start''"
  by (auto simp: create_dev_def split: prod.splits sum.splits)

subsection \<open>The health wait ends\<close>

lemma wait_loop_clock:
  assumes "\<And>t. int (execTime E t) \<le> L" and "0 \<le> L"
  shows "clock w \<le> clock (snd (wait_loop dc E dl sid w)) \<and>
         clock (snd (wait_loop dc E dl sid w)) < max (clock w + 1) (dl + L + 50000000)"
  using assms
proof (induction dc E dl sid w rule: wait_loop.induct)
  case (1 dc E dl sid w)
  let ?more = "clock w < dl \<and> ctxErr E (clock w) = None \<and>
      \<not> healthy (fst (Exec dc sid [''tailscale'', ''status''] (docker w)))"
  have L: "int (execTime E (clock w)) \<le> L" by (rule "1.prems")
  show ?case
  proof (cases ?more)
    case True
    let ?w = "w\<lparr>docker := snd (Exec dc sid [''tailscale'', ''status''] (docker w)),
                clock := clock w + int (execTime E (clock w)) + 50000000\<rparr>"
    have step: "wait_loop dc E dl sid w = wait_loop dc E dl sid ?w"
      using True by (subst wait_loop.simps) (simp add: on_docker_eq)
    have "clock ?w \<le> clock (snd (wait_loop dc E dl sid ?w)) \<and>
        clock (snd (wait_loop dc E dl sid ?w)) < max (clock ?w + 1) (dl + L + 50000000)"
      using 1 True by (simp add: on_docker_eq)
    moreover have "clock ?w + 1 \<le> dl + L + 50000000" and "clock w \<le> clock ?w"
      using True L by simp_all
    ultimately show ?thesis unfolding step by linarith
  next
    case False
    then show ?thesis
      using L "1.prems"(2) by (subst (1 2) wait_loop.simps) (auto simp: on_docker_eq split: option.splits)
  qed
qed

subsection \<open>Containers left behind, over the contract of DockerClient\<close>

context docker_laws begin

lemma try_remove_live:
  "reliable (docker w) \<Longrightarrow>
   live (docker (try_docker (RemoveContainer dc cid True) w)) = live (docker w) - {cid} \<and>
   reliable (docker (try_docker (RemoveContainer dc cid True) w))"
  by (simp add: remove_done remove_reliable)

lemma drop_sidecar_live:
  "reliable (docker w) \<Longrightarrow>
   live (docker (drop_sidecar dc sid w)) = live (docker w) - {sid} \<and>
   reliable (docker (drop_sidecar dc sid w))"
  by (simp add: drop_sidecar_def remove_done remove_reliable stop_live stop_reliable)

lemma wait_live:
  "live (docker (snd (waitSidecarHealth dc E sid w))) = live (docker w)"
  unfolding waitSidecarHealth_def
  using wait_loop_engine[where P = "\<lambda>d. live d = live (docker w)"] by (simp add: exec_live)

lemma wait_reliable:
  "reliable (docker w) \<Longrightarrow> reliable (docker (snd (waitSidecarHealth dc E sid w)))"
  unfolding waitSidecarHealth_def
  using wait_loop_engine[where P = reliable] by (simp add: exec_reliable)

lemma create_live:
  "on_docker (CreateContainer dc spec) w = (Inr cid, w') \<Longrightarrow> live (docker w') = insert cid (live (docker w))"
  "on_docker (CreateContainer dc spec) w = (Inl e, w') \<Longrightarrow> live (docker w') = live (docker w)"
  by (auto simp: on_docker_def split: prod.splits dest: create_ok create_err)

lemma create_keeps_reliable:
  "on_docker (CreateContainer dc spec) w = (r, w') \<Longrightarrow> reliable (docker w) \<Longrightarrow> reliable (docker w')"
  by (auto simp: on_docker_eq create_reliable)

lemma start_keeps:
  "on_docker (StartContainer dc cid) w = (r, w') \<Longrightarrow>
   live (docker w') = live (docker w) \<and> (reliable (docker w) \<longrightarrow> reliable (docker w'))"
  by (auto simp: on_docker_eq start_live start_reliable)

lemma wait_keeps:
  "waitSidecarHealth dc E sid w = (r, w') \<Longrightarrow>
   live (docker w') = live (docker w) \<and> (reliable (docker w) \<longrightarrow> reliable (docker w'))"
  using wait_live[of E sid w] wait_reliable[of w E sid] by simp

lemma create_sidecar_live:
  assumes rel: "reliable (docker w)" and run: "create_sidecar dc E cmd w = (r, w')"
  shows "reliable (docker w') \<and>
    (case r of Inl _ \<Rightarrow> live (docker w') \<subseteq> live (docker w)
     | Inr sid \<Rightarrow> live (docker w') = insert sid (live (docker w)))"
proof -
  obtain r1 w1 where c: "on_docker (CreateContainer dc (sidecar_spec cmd)) w = (r1, w1)" by force
  have rel1: "reliable (docker w1)" using create_keeps_reliable[OF c rel] .
  show ?thesis
  proof (cases r1)
    case (Inl e)
    with c run rel1 show ?thesis using create_live(2) by (auto simp: create_sidecar_def)
  next
    case (Inr sid)
    have live1: "live (docker w1) = insert sid (live (docker w))" using c Inr create_live(1) by simp
    obtain r2 w2 where s: "on_docker (StartContainer dc sid) w1 = (r2, w2)" by force
    have two: "live (docker w2) = live (docker w1)" "reliable (docker w2)"
      using start_keeps[OF s] rel1 by auto
    obtain r3 w3 where h: "waitSidecarHealth dc E sid w2 = (r3, w3)" by force
    have three: "live (docker w3) = live (docker w1)" "reliable (docker w3)"
      using wait_keeps[OF h] two by auto
    show ?thesis
      using c s h Inr run live1 try_remove_live[OF two(2), of sid] drop_sidecar_live[OF three(2), of sid]
        two three by (auto simp: create_sidecar_def split: sum.splits)
  qed
qed

lemma create_dev_live:
  assumes rel: "reliable (docker w)" and run: "create_dev dc cmd idx sid w = (r, w')"
  shows "reliable (docker w') \<and>
    (case r of Inl _ \<Rightarrow> live (docker w') \<subseteq> live (docker w) - {sid}
     | Inr did \<Rightarrow> live (docker w') = insert did (live (docker w)))"
proof -
  obtain r1 w1 where c: "on_docker (CreateContainer dc (dev_spec cmd idx)) w = (r1, w1)" by force
  have rel1: "reliable (docker w1)" using create_keeps_reliable[OF c rel] .
  show ?thesis
  proof (cases r1)
    case (Inl e)
    with c run show ?thesis
      using create_live(2) drop_sidecar_live[OF rel1, of sid] by (auto simp: create_dev_def)
  next
    case (Inr did)
    have live1: "live (docker w1) = insert did (live (docker w))" using c Inr create_live(1) by simp
    obtain r2 w2 where s: "on_docker (StartContainer dc did) w1 = (r2, w2)" by force
    have two: "live (docker w2) = live (docker w1)" "reliable (docker w2)"
      using start_keeps[OF s] rel1 by auto
    have gone: "live (docker (try_docker (RemoveContainer dc did True) w2)) = live (docker w1) - {did}"
      "reliable (docker (try_docker (RemoveContainer dc did True) w2))"
      using try_remove_live[OF two(2), of did] two by auto
    show ?thesis
      using c s Inr run live1 two gone drop_sidecar_live[OF gone(2), of sid]
      by (auto simp: create_dev_def split: sum.splits)
  qed
qed

text \<open>A create command that ends in an error leaves no container that was not there before.\<close>

lemma HandleCreate_live:
  assumes rel: "reliable (docker w)" and run: "HandleCreate dc E cmd w = (Returned, w')"
  shows "(\<exists>stage e. last (sent w') = EnvError (ce_env_id cmd) stage e \<and> live (docker w') \<subseteq> live (docker w)) \<or>
    (\<exists>sid did idx. last (sent w') = EnvReady (ce_env_id cmd) sid did idx \<and>
       live (docker w') = insert did (insert sid (live (docker w))))"
proof (cases "uuidParse E (ce_env_id cmd)")
  case (Inl e)
  with run show ?thesis by (auto simp: HandleCreate_def)
next
  case (Inr u)
  obtain ra a where al: "Allocate u (ce_gpu_request cmd) (alloc w) = (ra, a)" by force
  show ?thesis
  proof (cases ra)
    case (AllocOk idx)
    obtain r1 w1 where s: "create_sidecar dc E cmd (w\<lparr>alloc := a\<rparr>) = (r1, w1)" by force
    have one: "reliable (docker w1)" "case r1 of Inl _ \<Rightarrow> live (docker w1) \<subseteq> live (docker w)
        | Inr sid \<Rightarrow> live (docker w1) = insert sid (live (docker w))"
      using create_sidecar_live[OF _ s] rel by (auto split: sum.splits)
    show ?thesis
    proof (cases r1)
      case (Inl x)
      with run Inr al AllocOk s one show ?thesis by (cases x) (auto simp: HandleCreate_def)
    next
      case sid: (Inr sid)
      obtain r2 w2 where d: "create_dev dc cmd idx sid w1 = (r2, w2)" by force
      show ?thesis
        using run Inr al AllocOk s sid d one create_dev_live[OF one(1) d]
        by (cases r2) (auto simp: HandleCreate_def split: prod.splits)
    qed
  qed (use run Inr al in \<open>auto simp: HandleCreate_def\<close>)
qed

text \<open>Deleting an environment removes both of its containers.\<close>

lemma HandleDelete_live:
  assumes "reliable (docker w)" and "uuidParse E env = Inr u"
  shows "live (docker (snd (HandleDelete dc E env w))) = live (docker w) - {env_name env, net_name env}"
  using assms
  by (simp add: HandleDelete_def Let_def volume_live remove_done remove_reliable stop_live stop_reliable)
    blast

end

context docker_run_laws begin

lemma start_runs:
  "on_docker (StartContainer dc cid) w = (Inr x, w') \<Longrightarrow> running (docker w') = insert cid (running (docker w))"
  by (auto simp: on_docker_def split: prod.splits dest: start_running)

lemma wait_running:
  "waitSidecarHealth dc E sid w = (r, w') \<Longrightarrow> running (docker w') = running (docker w)"
  using wait_loop_engine[where P = "\<lambda>d. running d = running (docker w)", of dc sid w E "clock w + healthTimeout E"]
  by (simp add: waitSidecarHealth_def exec_running)

lemma create_sidecar_running:
  assumes "create_sidecar dc E cmd w = (Inr sid, w')"
  shows "sid \<in> running (docker w')"
  using assms
  by (auto simp: create_sidecar_def split: prod.splits sum.splits dest!: start_runs wait_running)

lemma create_dev_running:
  assumes "create_dev dc cmd idx sid w = (Inr did, w')" and "sid \<in> running (docker w)"
  shows "did \<in> running (docker w') \<and> sid \<in> running (docker w')"
proof -
  obtain r1 w1 where c: "on_docker (CreateContainer dc (dev_spec cmd idx)) w = (r1, w1)" by force
  with assms(1) have r1: "r1 = Inr did" by (auto simp: create_dev_def split: sum.splits prod.splits)
  obtain r2 w2 where s: "on_docker (StartContainer dc did) w1 = (r2, w2)" by force
  with assms(1) c r1 have w': "r2 = Inr ()" "w' = w2" by (auto simp: create_dev_def split: sum.splits)
  have "running (docker w) - {did} \<subseteq> running (docker w1)"
    using c r1 create_running[of "dev_spec cmd idx" "docker w" did "docker w1"]
    by (auto simp: on_docker_def split: prod.splits)
  with start_runs[of did w1 "()" w2] s w' assms(2) show ?thesis by auto
qed

text \<open>When a create command reports ready, both of its containers run.\<close>

lemma HandleCreate_running:
  assumes "HandleCreate dc E cmd w = (Returned, w')"
    and "last (sent w') = EnvReady (ce_env_id cmd) sid did idx"
  shows "sid \<in> running (docker w') \<and> did \<in> running (docker w')"
  using assms create_dev_running
  by (auto simp: HandleCreate_def split: sum.splits prod.splits alloc_result.splits
      dest!: create_sidecar_running)

end

subsection \<open>How the handlers leave the allocator\<close>

definition is_reply_for :: "gostring \<Rightarrow> AgentMessage \<Rightarrow> bool" where
  "is_reply_for env m =
     (case m of EnvReady i _ _ _ \<Rightarrow> i = env | EnvStopped i \<Rightarrow> i = env
      | EnvDeleted i \<Rightarrow> i = env | EnvError i _ _ \<Rightarrow> i = env | _ \<Rightarrow> False)"

definition is_EnvError :: "AgentMessage \<Rightarrow> bool" where
  "is_EnvError m = (case m of EnvError _ _ _ \<Rightarrow> True | _ \<Rightarrow> False)"

text \<open>
  The possible ends of \<open>HandleCreate\<close>, read off its branches once: every later fact about it is a
  consequence of this case distinction.
\<close>

lemma HandleCreate_cases:
  obtains (bad_id) e where "uuidParse E (ce_env_id cmd) = Inl e"
      "HandleCreate dc E cmd w =
         (Returned, sendError (ce_env_id cmd) ''unknown'' (''invalid env_id: '' @ e) w)"
  | (panic) u where "uuidParse E (ce_env_id cmd) = Inr u"
      "Allocate u (ce_gpu_request cmd) (alloc w) = (AllocPanic, alloc w)"
      "HandleCreate dc E cmd w = (Panicked, w)"
  | (no_gpu) u e where "uuidParse E (ce_env_id cmd) = Inr u"
      "Allocate u (ce_gpu_request cmd) (alloc w) = (AllocErr e, alloc w)"
      "HandleCreate dc E cmd w = (Returned, sendError (ce_env_id cmd) ''unknown'' e w)"
  | (failed) u idx a stage e w' where "uuidParse E (ce_env_id cmd) = Inr u"
      "Allocate u (ce_gpu_request cmd) (alloc w) = (AllocOk idx, a)"
      "alloc w' = a" "sent w' = sent w" "stage \<in> {''sidecar_start'', ''sidecar_health'', ''dev_start''}"
      "HandleCreate dc E cmd w =
         (Returned, sendError (ce_env_id cmd) stage e (release_gpus u w'))"
  | (ready) u idx a sid did w' where "uuidParse E (ce_env_id cmd) = Inr u"
      "Allocate u (ce_gpu_request cmd) (alloc w) = (AllocOk idx, a)"
      "alloc w' = a" "sent w' = sent w"
      "HandleCreate dc E cmd w = (Returned, sendReady (ce_env_id cmd) sid did idx w')"
proof (cases "uuidParse E (ce_env_id cmd)")
  case (Inl e)
  then show ?thesis by (rule bad_id) (simp add: HandleCreate_def Inl)
next
  case (Inr u)
  obtain r a where al: "Allocate u (ce_gpu_request cmd) (alloc w) = (r, a)" by force
  show ?thesis
  proof (cases r)
    case AllocPanic
    then have "a = alloc w" using Allocate_not_ok[OF al] by simp
    then show ?thesis using Inr al AllocPanic by (intro panic) (simp_all add: HandleCreate_def)
  next
    case (AllocErr e)
    then have "a = alloc w" using Allocate_not_ok[OF al] by simp
    then show ?thesis using Inr al AllocErr by (intro no_gpu) (simp_all add: HandleCreate_def)
  next
    case (AllocOk idx)
    obtain r1 w1 where s: "create_sidecar dc E cmd (w\<lparr>alloc := a\<rparr>) = (r1, w1)" by force
    note f1 = create_sidecar_frame[OF s]
    show ?thesis
    proof (cases r1)
      case (Inl x)
      then show ?thesis using Inr al AllocOk s f1 create_sidecar_stage[of dc E cmd]
        by (cases x, intro failed[where w' = w1]) (auto simp: HandleCreate_def)
    next
      case sid: (Inr sid)
      obtain r2 w2 where d: "create_dev dc cmd idx sid w1 = (r2, w2)" by force
      note f2 = create_dev_frame[OF d]
      show ?thesis
      proof (cases r2)
        case (Inl x)
        then show ?thesis using Inr al AllocOk s sid d f1 f2 create_dev_stage[of dc cmd idx sid w1]
          by (cases x, intro failed[where w' = w2]) (auto simp: HandleCreate_def)
      next
        case did: (Inr did)
        then show ?thesis using Inr al AllocOk s sid d f1 f2
          by (intro ready[where w' = w2]) (simp_all add: HandleCreate_def)
      qed
    qed
  qed
qed

text \<open>The same for the part of \<open>HandleStart\<close> that runs once the devices are allocated.\<close>

lemma restart_dev_cases:
  obtains (failed) w' e where "restart_dev dc cmd u dev idx sid w =
        sendError (se_env_id cmd) ''start'' e (release_gpus u w')" "alloc w' = alloc w" "sent w' = sent w"
  | (ready) w' did where "restart_dev dc cmd u dev idx sid w =
        sendReady (se_env_id cmd) sid did idx w'" "alloc w' = alloc w" "sent w' = sent w"
proof -
  have abort: "abortSidecar dc u sid v = release_gpus u (drop_sidecar dc sid v)" for v :: "'a agent_world"
    by (simp add: abortSidecar_def)
  obtain r1 w1 where s1: "on_docker (RemoveContainer dc (env_name (se_env_id cmd)) True) w = (r1, w1)" by force
  obtain r2 w2 where s2: "on_docker (CreateContainer dc (restart_dev_spec cmd dev idx)) w1 = (r2, w2)" by force
  have f: "alloc w1 = alloc w" "sent w1 = sent w" "alloc w2 = alloc w" "sent w2 = sent w"
    using s1 s2 by (auto simp: on_docker_eq)
  show ?thesis
  proof (cases r1)
    case (Inl e)
    then show ?thesis using s1 f
      by (intro failed[where w' = "drop_sidecar dc sid w1" and e = "''rm dev: '' @ e"]) (simp_all add: restart_dev_def abort)
  next
    case one: (Inr x)
    show ?thesis
    proof (cases r2)
      case (Inl e)
      then show ?thesis using s1 s2 one f
        by (intro failed[where w' = "drop_sidecar dc sid w2" and e = "''create dev: '' @ e"])
          (simp_all add: restart_dev_def abort)
    next
      case two: (Inr did)
      obtain r3 w3 where s3: "on_docker (StartContainer dc did) w2 = (r3, w3)" by force
      then have f3: "alloc w3 = alloc w" "sent w3 = sent w" using f by (auto simp: on_docker_eq)
      show ?thesis
      proof (cases r3)
        case (Inl e)
        then show ?thesis using s1 s2 s3 one two f3
          by (intro failed[where w' = "drop_sidecar dc sid (try_docker (RemoveContainer dc did True) w3)" and e = "''start dev: '' @ e"]) (simp_all add: restart_dev_def abort)
      next
        case (Inr y)
        then show ?thesis using s1 s2 s3 one two f3
          by (intro ready[where did = did and w' = w3]) (simp_all add: restart_dev_def)
      qed
    qed
  qed
qed

lemma restart_sidecar_result:
  fixes cmd :: StartEnv and w :: "'d agent_world"
  defines "env \<equiv> se_env_id cmd"
  shows "(\<exists>e. alloc (restart_sidecar dc E cmd u dev side idx w) = Release u (alloc w) \<and>
              sent (restart_sidecar dc E cmd u dev side idx w) = sent w @ [EnvError env ''start'' e]) \<or>
         (\<exists>sid did. alloc (restart_sidecar dc E cmd u dev side idx w) = alloc w \<and>
              sent (restart_sidecar dc E cmd u dev side idx w) =
                sent w @ [EnvReady env sid did (map to_int32 idx)])"
proof -
  let ?res = "restart_sidecar dc E cmd u dev side idx w"
  obtain r1 w1 where s1: "on_docker (RemoveContainer dc (net_name env) True) w = (r1, w1)" by force
  obtain r2 w2 where s2: "on_docker (CreateContainer dc (restart_sidecar_spec cmd side)) w1 = (r2, w2)" by force
  have f: "alloc w1 = alloc w" "sent w1 = sent w" "alloc w2 = alloc w" "sent w2 = sent w"
    using s1 s2 by (auto simp: on_docker_eq)
  consider (early) "\<exists>e. r1 = Inl e \<or> r2 = Inl e" | (go) x sid where "r1 = Inr x" "r2 = Inr sid"
    by (cases r1; cases r2) auto
  then show ?thesis
  proof cases
    case early
    then show ?thesis using s1 s2 f
      by (cases r1; cases r2) (auto simp: restart_sidecar_def env_def Let_def)
  next
    case go
    obtain r3 w3 where s3: "on_docker (StartContainer dc sid) w2 = (r3, w3)" by force
    obtain r4 w4 where s4: "waitSidecarHealth dc E sid w3 = (r4, w4)" by force
    have f4: "alloc w3 = alloc w" "sent w3 = sent w" "alloc w4 = alloc w" "sent w4 = sent w"
      using s3 waitSidecarHealth_frameD[OF s4] f by (auto simp: on_docker_eq)
    show ?thesis
    proof (cases "\<exists>e. r3 = Inl e \<or> r4 = Inl e")
      case True
      then show ?thesis using s1 s2 s3 s4 go f4
        by (cases r3; cases r4) (auto simp: restart_sidecar_def env_def Let_def)
    next
      case False
      then have "?res = restart_dev dc cmd u dev idx sid w4"
        using s1 s2 s3 s4 go by (cases r3; cases r4) (auto simp: restart_sidecar_def env_def Let_def)
      then show ?thesis using f4
        by (cases rule: restart_dev_cases[of dc cmd u dev idx sid w4]) (auto simp: env_def)
    qed
  qed
qed

text \<open>
  The possible ends of \<open>HandleStart\<close>: refused with the allocator untouched, failed with the
  environment's devices released, or ready on a fresh allocation.
\<close>

lemma HandleStart_result:
  fixes cmd :: StartEnv and w :: "'d agent_world"
  defines "env \<equiv> se_env_id cmd"
  obtains (refused) w' stage e where "HandleStart dc E cmd w = (Returned, w')"
      "alloc w' = alloc w" "sent w' = sent w @ [EnvError env stage e]"
  | (failed) w' e a u where "HandleStart dc E cmd w = (Returned, w')" "uuidParse E env = Inr u"
      "a = alloc w \<or> (\<exists>n idx. Allocate u (int n) (alloc w) = (AllocOk idx, a))"
      "alloc w' = Release u a" "sent w' = sent w @ [EnvError env ''start'' e]"
  | (ready) w' u n idx a sid did where "HandleStart dc E cmd w = (Returned, w')"
      "uuidParse E env = Inr u" "0 < n" "Allocate u (int n) (alloc w) = (AllocOk idx, a)" "alloc w' = a"
      "sent w' = sent w @ [EnvReady env sid did (map to_int32 idx)]"
  | (no_gpus) w' u sid did where "HandleStart dc E cmd w = (Returned, w')"
      "uuidParse E env = Inr u" "alloc w' = alloc w" "sent w' = sent w @ [EnvReady env sid did []]"
proof (cases "uuidParse E env")
  case (Inl e)
  then have "HandleStart dc E cmd w = (Returned, sendError env ''unknown'' ''invalid env_id'' w)"
    by (simp add: HandleStart_def env_def)
  then show ?thesis by (rule refused) simp_all
next
  case id: (Inr u)
  obtain r1 w1 where s1: "on_docker (InspectContainer dc (env_name env)) w = (r1, w1)" by force
  obtain r2 w2 where s2: "on_docker (InspectContainer dc (net_name env)) w1 = (r2, w2)" by force
  have f: "alloc w1 = alloc w" "sent w1 = sent w" "alloc w2 = alloc w" "sent w2 = sent w"
    using s1 s2 by (auto simp: on_docker_eq)
  show ?thesis
  proof (cases "\<exists>e. r1 = Inl e \<or> r2 = Inl e")
    case True
    then obtain v e where "HandleStart dc E cmd w = (Returned, sendError env ''start'' e v)"
        "alloc v = alloc w" "sent v = sent w"
      using s1 s2 f id by (cases r1; cases r2) (auto simp: HandleStart_def env_def Let_def)
    then show ?thesis by (intro refused[where w' = "sendError env ''start'' e v"]) simp_all
  next
    case False
    then obtain dev side where ok: "r1 = Inr dev" "r2 = Inr side" by (metis sum.exhaust)
    define labelled where "labelled = parseIndicesCSV (label_of dev LabelGPUIndices)"
    show ?thesis
    proof (cases "labelled = []")
      case True
      then have eq: "HandleStart dc E cmd w = (Returned, restart_sidecar dc E cmd u dev side [] w2)"
        using s1 s2 ok id by (simp add: HandleStart_def env_def labelled_def Let_def)
      show ?thesis
        using restart_sidecar_result[of dc E cmd u dev side "[]" w2] f id eq
        by (metis failed no_gpus env_def list.map_disc_iff)
    next
      case False
      obtain r a where al: "Allocate u (int (length labelled)) (alloc w) = (r, a)" by force
      show ?thesis
      proof (cases r)
        case AllocPanic
        with al show ?thesis by (auto simp: Allocate_def Let_def split: if_splits)
      next
        case (AllocErr e)
        then have "a = alloc w" using Allocate_not_ok[OF al] by simp
        then have "HandleStart dc E cmd w = (Returned, sendError env ''start'' e (w2\<lparr>alloc := a\<rparr>))"
          using s1 s2 ok id al AllocErr f False
          by (simp add: HandleStart_def env_def labelled_def Let_def)
        then show ?thesis using \<open>a = alloc w\<close> f
          by (intro refused[where w' = "sendError env ''start'' e (w2\<lparr>alloc := a\<rparr>)"]) simp_all
      next
        case (AllocOk idx)
        then have eq: "HandleStart dc E cmd w =
            (Returned, restart_sidecar dc E cmd u dev side idx (w2\<lparr>alloc := a\<rparr>))"
          using s1 s2 ok id al False f by (simp add: HandleStart_def env_def labelled_def Let_def)
        show ?thesis
          using restart_sidecar_result[of dc E cmd u dev side idx "w2\<lparr>alloc := a\<rparr>"]
        proof (elim disjE exE conjE)
          fix e assume "alloc (restart_sidecar dc E cmd u dev side idx (w2\<lparr>alloc := a\<rparr>)) =
              Release u (alloc (w2\<lparr>alloc := a\<rparr>))"
            "sent (restart_sidecar dc E cmd u dev side idx (w2\<lparr>alloc := a\<rparr>)) =
              sent (w2\<lparr>alloc := a\<rparr>) @ [EnvError (se_env_id cmd) ''start'' e]"
          then show ?thesis using eq id al AllocOk f by (intro failed[of _ u a]) (auto simp: env_def)
        next
          fix sid did assume "alloc (restart_sidecar dc E cmd u dev side idx (w2\<lparr>alloc := a\<rparr>)) =
              alloc (w2\<lparr>alloc := a\<rparr>)"
            "sent (restart_sidecar dc E cmd u dev side idx (w2\<lparr>alloc := a\<rparr>)) =
              sent (w2\<lparr>alloc := a\<rparr>) @ [EnvReady (se_env_id cmd) sid did (map to_int32 idx)]"
          then show ?thesis using eq id al AllocOk f False
            by (intro ready[of _ u "length labelled" idx a]) (auto simp: env_def)
        qed
      qed
    qed
  qed
qed

end
