(* ===== verification/AgentProperties.thy ===== *)
theory AgentProperties
  imports DispatcherProofs
begin

text \<open>
  The properties of the agent's command handlers, over the lemmas of \<open>DispatcherProofs\<close>, and the
  runs of one agent: any sequence of commands, interleaved with anything the container engine
  and the clock do in between.
\<close>

subsection \<open>Concrete worlds\<close>

text \<open>
  A node with two GPUs on the mock engine, whose sidecar reports an address, and environment ids
  that are decimal numbers.
\<close>

definition demo_env :: dispatch_env where
  "demo_env = \<lparr>healthTimeout = 30000000000, ctxErr = (\<lambda>_. None), execTime = (\<lambda>_. 0),
     uuidParse = demo_parse\<rparr>"

definition demo_world :: "MockDockerClient agent_world" where
  "demo_world = \<lparr>docker = NewMockDockerClient\<lparr>ExecOutput := [(''flex-net-7'', ''100.64.0.7''), (''flex-net-8'', ''100.64.0.8'')]\<rparr>,
     alloc = NewGPUAllocator [0, 1], sent = [], clock = 0\<rparr>"

definition demo_create :: "gostring \<Rightarrow> int \<Rightarrow> CreateEnv" where
  "demo_create env n = \<lparr>ce_env_id = env, ce_image_ref = ''img'', ce_sidecar_image_ref = ''side'',
     ce_hostname = ''alice-dev'', ce_headscale_url = ''https://hs'', ce_preauth_key = ''key'',
     ce_tags = [''tag:alice''], ce_authorized_keys = '''', ce_gpu_request = n, ce_default_cmd = []\<rparr>"

definition demo_start :: "gostring \<Rightarrow> StartEnv" where
  "demo_start env = \<lparr>se_env_id = env, se_preauth_key = ''key2'', se_authorized_keys = ''''\<rparr>"

definition demo_run :: "ControlMessage list \<Rightarrow> MockDockerClient agent_world" where
  "demo_run cmds = fold (\<lambda>c w. snd (handle_command mock_client demo_env c w)) cmds demo_world"

subsection \<open>One message per command\<close>

definition command_env :: "ControlMessage \<Rightarrow> gostring option" where
  "command_env msg =
     (case msg of MsgCreateEnv cmd \<Rightarrow> Some (ce_env_id cmd) | MsgStopEnv env \<Rightarrow> Some env
      | MsgStartEnv cmd \<Rightarrow> Some (se_env_id cmd) | MsgDeleteEnv env \<Rightarrow> Some env | _ \<Rightarrow> None)"

lemma HandleCreate_reply:
  "HandleCreate dc E cmd w = (Returned, w') \<Longrightarrow>
   \<exists>m. sent w' = sent w @ [m] \<and> is_reply_for (ce_env_id cmd) m"
  by (cases rule: HandleCreate_cases[of E cmd dc w]) (auto simp: is_reply_for_def)

lemma HandleStop_reply:
  "\<exists>w' m. HandleStop dc E env w = (Returned, w') \<and> sent w' = sent w @ [m] \<and> is_reply_for env m"
  by (auto simp: HandleStop_def Let_def is_reply_for_def split: sum.split)

lemma HandleDelete_reply:
  "\<exists>w' m. HandleDelete dc E env w = (Returned, w') \<and> sent w' = sent w @ [m] \<and> is_reply_for env m"
  by (auto simp: HandleDelete_def Let_def is_reply_for_def split: sum.split)

lemma HandleStart_reply:
  "\<exists>w' m. HandleStart dc E cmd w = (Returned, w') \<and> sent w' = sent w @ [m] \<and>
     is_reply_for (se_env_id cmd) m"
  by (cases rule: HandleStart_result[of dc E cmd w]) (auto simp: is_reply_for_def)

lemma handler_outcome:
  "case handle_command dc E msg w of
     (Returned, w') \<Rightarrow>
       (case command_env msg of
          None \<Rightarrow> w' = w
        | Some env \<Rightarrow> \<exists>m. sent w' = sent w @ [m] \<and> is_reply_for env m)
   | (Panicked, w') \<Rightarrow>
       w' = w \<and> (\<exists>cmd u. msg = MsgCreateEnv cmd \<and> uuidParse E (ce_env_id cmd) = Inr u \<and>
         ce_gpu_request cmd < 0)"
proof (cases msg)
  case (MsgCreateEnv cmd)
  show ?thesis
  proof (cases "handle_command dc E msg w")
    case (Pair r w')
    show ?thesis
    proof (cases r)
      case Returned
      then show ?thesis using Pair MsgCreateEnv HandleCreate_reply
        by (simp add: handle_command_def command_env_def)
    next
      case Panicked
      then have pan: "HandleCreate dc E cmd w = (Panicked, w')"
        using Pair MsgCreateEnv by (simp add: handle_command_def)
      then show ?thesis
      proof (cases rule: HandleCreate_cases[of E cmd dc w])
        case (panic u)
        then have "ce_gpu_request cmd < 0" by (auto simp: Allocate_def Let_def split: if_splits)
        then show ?thesis using Pair Panicked MsgCreateEnv pan panic by simp
      qed (use pan in simp_all)
    qed
  qed
next
  case (MsgStopEnv env)
  then show ?thesis using HandleStop_reply[of dc E env w]
    by (auto simp: handle_command_def command_env_def)
next
  case (MsgStartEnv cmd)
  then show ?thesis using HandleStart_reply[of dc E cmd w]
    by (auto simp: handle_command_def command_env_def)
next
  case (MsgDeleteEnv env)
  then show ?thesis using HandleDelete_reply[of dc E env w]
    by (auto simp: handle_command_def command_env_def)
qed (simp_all add: handle_command_def command_env_def)

text \<open>A handler that returns has sent exactly one message, an answer for the environment of its
  command; messages that are no environment command are ignored. The only handler that can
  panic is a create with a well-formed id and a negative device count.\<close>

theorem commands_answered_once:
  "case handle_command dc E msg w of
     (Returned, w') \<Rightarrow>
       (case command_env msg of
          None \<Rightarrow> w' = w
        | Some env \<Rightarrow> \<exists>m. sent w' = sent w @ [m] \<and> is_reply_for env m)
   | (Panicked, w') \<Rightarrow>
       w' = w \<and> (\<exists>cmd u. msg = MsgCreateEnv cmd \<and> uuidParse E (ce_env_id cmd) = Inr u \<and>
         ce_gpu_request cmd < 0)"
  by (rule handler_outcome)

subsection \<open>The devices of an environment\<close>

text \<open>C8: what a create command means for the devices, on a well-formed allocator and for a
  well-formed id and a count that is not negative. It returns after one message. Ready: the
  environment holds exactly the reported devices, as many as asked for, all of them free before.
  Error: the environment holds nothing it did not hold before, and nothing at all when its
  containers failed. Other environments keep their devices either way.\<close>

theorem HandleCreate_devices:
  assumes wf: "alloc_wf (alloc w)" and id: "uuidParse E (ce_env_id cmd) = Inr u"
    and cnt: "0 \<le> ce_gpu_request cmd"
  shows "\<exists>w' m. HandleCreate dc E cmd w = (Returned, w') \<and> sent w' = sent w @ [m] \<and>
    alloc_wf (alloc w') \<and>
    ((\<exists>sid did xs. m = EnvReady (ce_env_id cmd) sid did (map to_int32 xs) \<and>
        int (length xs) = ce_gpu_request cmd \<and> distinct xs \<and> set xs \<subseteq> set (free_list (alloc w)) \<and>
        held (alloc w') = (held (alloc w))(u := set xs)) \<or>
     (\<exists>e. m = EnvError (ce_env_id cmd) ''unknown'' e \<and> alloc w' = alloc w \<and>
        int (length (free_list (alloc w))) < ce_gpu_request cmd) \<or>
     (\<exists>stage e. m = EnvError (ce_env_id cmd) stage e \<and>
        stage \<in> {''sidecar_start'', ''sidecar_health'', ''dev_start''} \<and>
        held (alloc w') = (held (alloc w))(u := {})))"
proof (cases rule: HandleCreate_cases[of E cmd dc w])
  case (no_gpu v e)
  then have "int (length (free_list (alloc w))) < ce_gpu_request cmd"
    by (auto simp: Allocate_def Let_def split: if_splits)
  with no_gpu wf show ?thesis by auto
next
  case (failed v idx a stage e w')
  then have "alloc_wf a" using Allocate_wf[OF wf] by (metis snd_conv)
  with failed id show ?thesis by (auto simp: held_Release held_Allocate_ok Release_wf)
next
  case (ready v idx a sid did w')
  then have "alloc_wf a" using Allocate_wf[OF wf] by (metis snd_conv)
  with ready id Allocate_ok_shape[OF wf ready(2)] show ?thesis
    by (auto simp: held_Allocate_ok)
next
  case (panic v)
  with cnt show ?thesis by (auto simp: Allocate_def Let_def split: if_splits)
qed (use id in simp)

lemma demo_world_wf: "alloc_wf (alloc demo_world)"
  by (simp add: demo_world_def NewGPUAllocator_wf)

lemma HandleCreate_devices_witness:
  "\<exists>w' m. HandleCreate mock_client demo_env (demo_create ''7'' 1) demo_world = (Returned, w') \<and>
     sent w' = [m] \<and> alloc_wf (alloc w')"
proof -
  have "uuidParse demo_env (ce_env_id (demo_create ''7'' 1)) = Inr 7"
    and "0 \<le> ce_gpu_request (demo_create ''7'' 1)" and "sent demo_world = []"
    by code_simp+
  then show ?thesis using HandleCreate_devices[OF demo_world_wf, of demo_env "demo_create ''7'' 1" 7 mock_client]
    by auto
qed

text \<open>C10: what a start command means for the devices. Ready: the environment holds exactly the
  reported devices, taken from those free before. Error: it holds what it held before, or nothing.
  Other environments keep theirs, and one message is sent.\<close>

theorem HandleStart_devices:
  assumes wf: "alloc_wf (alloc w)" and id: "uuidParse E (se_env_id cmd) = Inr u"
  shows "\<exists>w' m. HandleStart dc E cmd w = (Returned, w') \<and> sent w' = sent w @ [m] \<and>
    alloc_wf (alloc w') \<and>
    ((\<exists>sid did xs. m = EnvReady (se_env_id cmd) sid did (map to_int32 xs) \<and> distinct xs \<and>
        set xs \<subseteq> set (free_list (alloc w)) \<and>
        (held (alloc w') = (held (alloc w))(u := set xs) \<or> xs = [] \<and> alloc w' = alloc w)) \<or>
     (\<exists>stage e. m = EnvError (se_env_id cmd) stage e \<and>
        held (alloc w') \<in> {held (alloc w), (held (alloc w))(u := {})}))"
proof (cases rule: HandleStart_result[of dc E cmd w])
  case (failed w' e a v)
  have v: "v = u" using failed(2) id by simp
  have "alloc_wf a" using failed(3) wf Allocate_wf[OF wf] by (metis snd_conv)
  moreover have "(held a)(u := {}) = (held (alloc w))(u := {})"
    using failed(3) v by (auto simp: held_Allocate_ok)
  ultimately show ?thesis using failed v
    by (auto simp: Release_wf held_Release)
next
  case (ready w' v n idx a sid did)
  have v: "v = u" using ready(2) id by simp
  have "alloc_wf a" using ready(4) Allocate_wf[OF wf] by (metis snd_conv)
  then show ?thesis
    using ready v Allocate_ok_shape[OF wf ready(4)] by (auto simp: held_Allocate_ok)
next
  case (no_gpus w' v sid did)
  then show ?thesis using wf
    by auto
qed (use wf in auto)

definition demo_stopped :: "MockDockerClient agent_world" where
  "demo_stopped = demo_run [MsgCreateEnv (demo_create ''7'' 1), MsgStopEnv ''7'']"

lemma HandleStart_devices_witness:
  "\<exists>w' m. HandleStart mock_client demo_env (demo_start ''7'') demo_stopped = (Returned, w') \<and>
     sent w' = sent demo_stopped @ [m] \<and> alloc_wf (alloc w')"
proof -
  have a: "alloc demo_stopped = NewGPUAllocator [0, 1]" by code_simp
  have wf: "alloc_wf (alloc demo_stopped)" unfolding a by (rule NewGPUAllocator_wf) simp
  have "uuidParse demo_env (se_env_id (demo_start ''7'')) = Inr 7" by code_simp
  then show ?thesis using HandleStart_devices[OF wf, of demo_env "demo_start ''7''" 7 mock_client] by auto
qed

subsection \<open>What is left in the container engine\<close>


definition demo_faulty :: "MockDockerClient agent_world" where
  "demo_faulty = demo_world\<lparr>docker := docker demo_world
     \<lparr>NextErrors := [(method_key ''StartContainer'' ''flex-env-7'', ''no runtime'')]\<rparr>\<rparr>"



definition demo_created :: "MockDockerClient agent_world" where
  "demo_created = demo_run [MsgCreateEnv (demo_create ''7'' 1), MsgCreateEnv (demo_create ''8'' 1)]"


subsection \<open>The wait for the sidecar\<close>

text \<open>C27: the wait for the sidecar ends. When no status call takes longer than \<open>L\<close>, it ends less
  than \<open>L\<close> and one polling interval of 50 milliseconds after its deadline, so a create command
  cannot wait much longer than the health timeout whatever the engine and the context do.\<close>

theorem health_wait_bounded:
  assumes "\<And>t. int (execTime E t) \<le> L" and "0 \<le> healthTimeout E"
  shows "clock w \<le> clock (snd (waitSidecarHealth dc E sid w)) \<and>
    clock (snd (waitSidecarHealth dc E sid w)) \<le> clock w + healthTimeout E + L + 50000000"
proof -
  have "0 \<le> L" using assms(1)[of 0] by linarith
  with wait_loop_clock[of E L w dc "clock w + healthTimeout E" sid] assms show ?thesis
    by (simp add: waitSidecarHealth_def)
qed

definition demo_slow :: dispatch_env where
  "demo_slow = demo_env\<lparr>execTime := (\<lambda>_. 400000000), healthTimeout := 1000000000\<rparr>"

lemma health_wait_bounded_witness:
  "clock (snd (waitSidecarHealth mock_client demo_slow ''flex-net-9'' demo_world)) \<le> 1450000000"
  using health_wait_bounded[of demo_slow 400000000 demo_world mock_client "''flex-net-9''"]
  by (simp add: demo_slow_def demo_world_def demo_env_def)

subsection \<open>Runs of an agent\<close>

definition about :: "dispatch_env \<Rightarrow> uuid \<Rightarrow> AgentMessage \<Rightarrow> bool" where
  "about E u m =
     (case m of EnvReady i _ _ _ \<Rightarrow> uuidParse E i = Inr u | EnvStopped i \<Rightarrow> uuidParse E i = Inr u
      | EnvDeleted i \<Rightarrow> uuidParse E i = Inr u | EnvError i _ _ \<Rightarrow> uuidParse E i = Inr u | _ \<Rightarrow> False)"

text \<open>
  One step of an agent: a command that its handler finishes, a message about no environment
  (registration, heartbeat, snapshot), or whatever the engine and the clock do by themselves.
\<close>

inductive agent_step ::
  "'d docker_client \<Rightarrow> dispatch_env \<Rightarrow> 'd agent_world \<Rightarrow> 'd agent_world \<Rightarrow> bool"
  for dc E where
  command: "handle_command dc E msg w = (Returned, w') \<Longrightarrow> agent_step dc E w w'"
| notice: "(\<And>u. \<not> about E u m) \<Longrightarrow> agent_step dc E w (w\<lparr>sent := sent w @ [m]\<rparr>)"
| engine: "agent_step dc E w (w\<lparr>docker := d, clock := t\<rparr>)"

inductive_cases agent_stepE: "agent_step dc E w w'"

definition ready_devices :: "AgentMessage \<Rightarrow> int set" where
  "ready_devices m = (case m of EnvReady _ _ _ idx \<Rightarrow> set idx | _ \<Rightarrow> {})"

text \<open>The devices the control plane was last told an environment runs on.\<close>

definition reported :: "dispatch_env \<Rightarrow> uuid \<Rightarrow> AgentMessage list \<Rightarrow> int set" where
  "reported E u msgs = fold (\<lambda>m ds. if about E u m then ready_devices m else ds) msgs {}"

lemma reported_snoc:
  "reported E u (msgs @ [m]) = (if about E u m then ready_devices m else reported E u msgs)"
  by (simp add: reported_def)

definition int32_devices :: "GPUAllocator \<Rightarrow> bool" where
  "int32_devices a = list_all (fits_int 32) (total_gpus a)"

lemma map_to_int32_id: "list_all (fits_int 32) xs \<Longrightarrow> map to_int32 xs = xs"
  by (rule map_idI) (simp add: list_all_iff to_int32_def wrap_int_id)

lemma picked_int32:
  assumes "alloc_wf a" and "Allocate u n a = (AllocOk xs, a')" and "int32_devices a"
  shows "map to_int32 xs = xs"
proof -
  have "set xs \<subseteq> set (total_gpus a)"
    using Allocate_ok_shape[OF assms(1,2)] by (auto simp: set_free_list)
  then show ?thesis using assms(3) by (intro map_to_int32_id) (auto simp: int32_devices_def list_all_iff)
qed

text \<open>
  What a command does to the devices, in one statement for all four handlers: it sends one
  message or nothing, changes only the holdings of environments the message is about, and holds
  at least what the message reports.
\<close>

definition accounts :: "dispatch_env \<Rightarrow> 'd agent_world \<Rightarrow> 'd agent_world \<Rightarrow> bool" where
  "accounts E w w' \<longleftrightarrow>
     (alloc_wf (alloc w') \<and> total_gpus (alloc w') = total_gpus (alloc w)) \<and>
     (sent w' = sent w \<and> alloc w' = alloc w \<or>
      (\<exists>m. sent w' = sent w @ [m] \<and>
         (\<forall>u. if about E u m then ready_devices m \<subseteq> held (alloc w') u
              else held (alloc w') u = held (alloc w) u)))"

lemma accountsI:
  assumes "alloc_wf (alloc w')" and "total_gpus (alloc w') = total_gpus (alloc w)"
    and "sent w' = sent w @ [m]"
    and "\<And>u. about E u m \<Longrightarrow> ready_devices m \<subseteq> held (alloc w') u"
    and "\<And>u. \<not> about E u m \<Longrightarrow> held (alloc w') u = held (alloc w) u"
  shows "accounts E w w'"
  using assms by (auto simp: accounts_def)

lemma Allocate_ok_account:
  "Allocate u n a = (AllocOk xs, a') \<Longrightarrow> alloc_wf a \<Longrightarrow>
   alloc_wf a' \<and> total_gpus a' = total_gpus a \<and> held a' = (held a)(u := set xs)"
  by (metis total_Allocate Allocate_wf held_Allocate_ok snd_conv)

lemmas account_simps = about_def ready_devices_def held_Release Release_wf

lemma HandleCreate_accounts:
  assumes wf: "alloc_wf (alloc w)" and i32: "int32_devices (alloc w)"
    and run: "HandleCreate dc E cmd w = (Returned, w')"
  shows "accounts E w w'"
proof (cases rule: HandleCreate_cases[of E cmd dc w])
  case (bad_id e)
  with run wf show ?thesis
    by (intro accountsI[where m = "EnvError (ce_env_id cmd) ''unknown'' (''invalid env_id: '' @ e)"])
      (auto simp: account_simps)
next
  case (no_gpu u e)
  then have "w' = sendError (ce_env_id cmd) ''unknown'' e w" using run by simp
  with wf show ?thesis
    by (intro accountsI[where m = "EnvError (ce_env_id cmd) ''unknown'' e"]) (simp_all add: account_simps)
next
  case (failed u idx a stage e v)
  then have "w' = sendError (ce_env_id cmd) stage e (release_gpus u v)" using run by simp
  with failed(1,3,4) Allocate_ok_account[OF failed(2) wf] show ?thesis
    by (intro accountsI[where m = "EnvError (ce_env_id cmd) stage e"]) (simp_all add: account_simps)
next
  case (ready u idx a sid did v)
  then have "w' = sendReady (ce_env_id cmd) sid did idx v" using run by simp
  with ready(1,3,4) Allocate_ok_account[OF ready(2) wf] picked_int32[OF wf ready(2) i32] show ?thesis
    by (intro accountsI[where m = "EnvReady (ce_env_id cmd) sid did idx"])
      (auto simp: account_simps)
qed (use run in simp)

lemma HandleStart_accounts:
  assumes wf: "alloc_wf (alloc w)" and i32: "int32_devices (alloc w)"
    and run: "HandleStart dc E cmd w = (Returned, w')"
  shows "accounts E w w'"
proof (cases rule: HandleStart_result[of dc E cmd w])
  case (refused v stage e)
  with run have "w' = v" by simp
  with refused(2,3) wf show ?thesis
    by (intro accountsI[where m = "EnvError (se_env_id cmd) stage e"]) (simp_all add: account_simps)
next
  case (failed v e a u)
  with run have "w' = v" by simp
  moreover have "alloc_wf a \<and> total_gpus a = total_gpus (alloc w) \<and>
      (\<forall>x. x \<noteq> u \<longrightarrow> held a x = held (alloc w) x)"
    using failed(3) wf Allocate_ok_account[OF _ wf] by fastforce
  ultimately show ?thesis using failed(2,4,5)
    by (intro accountsI[where m = "EnvError (se_env_id cmd) ''start'' e"]) (simp_all add: account_simps)
next
  case (ready v u n idx a sid did)
  with run have "w' = v" by simp
  with ready(2,5,6) Allocate_ok_account[OF ready(4) wf] picked_int32[OF wf ready(4) i32] show ?thesis
    by (intro accountsI[where m = "EnvReady (se_env_id cmd) sid did idx"])
      (auto simp: account_simps)
next
  case (no_gpus v u sid did)
  with run have "w' = v" by simp
  with no_gpus(2-4) wf show ?thesis
    by (intro accountsI[where m = "EnvReady (se_env_id cmd) sid did []"]) (simp_all add: account_simps)
qed

lemma HandleStop_accounts:
  "alloc_wf (alloc w) \<Longrightarrow> accounts E w (snd (HandleStop dc E env w))"
  by (cases "uuidParse E env") (auto intro!: accountsI simp: HandleStop_def Let_def account_simps)

lemma HandleDelete_accounts:
  "alloc_wf (alloc w) \<Longrightarrow> accounts E w (snd (HandleDelete dc E env w))"
  by (cases "uuidParse E env") (auto intro!: accountsI simp: HandleDelete_def Let_def account_simps)

lemma command_accounts:
  assumes "alloc_wf (alloc w)" and "int32_devices (alloc w)" and "handle_command dc E msg w = (Returned, w')"
  shows "accounts E w w'"
proof (cases msg)
  case (MsgStopEnv env)
  then have "w' = snd (HandleStop dc E env w)" using assms(3) by (simp add: handle_command_def)
  then show ?thesis using HandleStop_accounts[OF assms(1)] by simp
next
  case (MsgDeleteEnv env)
  then have "w' = snd (HandleDelete dc E env w)" using assms(3) by (simp add: handle_command_def)
  then show ?thesis using HandleDelete_accounts[OF assms(1)] by simp
next
  case (MsgCreateEnv cmd)
  then show ?thesis using assms HandleCreate_accounts by (simp add: handle_command_def)
next
  case (MsgStartEnv cmd)
  then show ?thesis using assms HandleStart_accounts by (simp add: handle_command_def)
qed (use assms in \<open>simp_all add: handle_command_def accounts_def\<close>)

definition agent_inv :: "dispatch_env \<Rightarrow> 'd agent_world \<Rightarrow> bool" where
  "agent_inv E w \<longleftrightarrow> alloc_wf (alloc w) \<and> int32_devices (alloc w) \<and>
     (\<forall>u. reported E u (sent w) \<subseteq> held (alloc w) u)"

lemma agent_inv_step: "agent_step dc E w w' \<Longrightarrow> agent_inv E w \<Longrightarrow> agent_inv E w'"
proof (erule agent_stepE)
  fix msg assume inv: "agent_inv E w" and run: "handle_command dc E msg w = (Returned, w')"
  have acc: "accounts E w w'" using command_accounts inv run by (auto simp: agent_inv_def)
  have "reported E u (sent w') \<subseteq> held (alloc w') u" for u
  proof (cases "sent w' = sent w \<and> alloc w' = alloc w")
    case True
    then show ?thesis using inv by (simp add: agent_inv_def)
  next
    case False
    with acc obtain m where "sent w' = sent w @ [m]"
      and "if about E u m then ready_devices m \<subseteq> held (alloc w') u
           else held (alloc w') u = held (alloc w) u"
      by (auto simp: accounts_def)
    then show ?thesis using inv by (auto simp: reported_snoc agent_inv_def split: if_splits)
  qed
  then show "agent_inv E w'" using acc inv by (simp add: agent_inv_def accounts_def int32_devices_def)
next
  fix m assume "agent_inv E w" "\<And>u. \<not> about E u m" "w' = w\<lparr>sent := sent w @ [m]\<rparr>"
  then show "agent_inv E w'" by (simp add: agent_inv_def reported_snoc)
qed (simp add: agent_inv_def)

lemma agent_inv_run: "(agent_step dc E)\<^sup>*\<^sup>* w w' \<Longrightarrow> agent_inv E w \<Longrightarrow> agent_inv E w'"
  by (induction rule: rtranclp_induct) (auto dest: agent_inv_step)

lemma agent_inv_start:
  "distinct idx \<Longrightarrow> list_all (fits_int 32) idx \<Longrightarrow>
   agent_inv E \<lparr>docker = d, alloc = NewGPUAllocator idx, sent = [], clock = t\<rparr>"
  using NewGPUAllocator_wf by (simp add: agent_inv_def int32_devices_def NewGPUAllocator_def reported_def list_all_iff)

lemma agent_inv_exclusive:
  "agent_inv E w \<Longrightarrow> u \<noteq> v \<Longrightarrow>
   reported E u (sent w) \<subseteq> held (alloc w) u \<and> reported E u (sent w) \<inter> reported E v (sent w) = {}"
  using wf_exclusive[of "alloc w" u v] by (fastforce simp: agent_inv_def)

text \<open>Along every run of an agent that starts with nothing allocated and nothing sent, whatever
  commands arrive and whatever the engine does, the devices the control plane was last told an
  environment runs on are held by that environment, so two environments are never both reported
  on the same device.\<close>

theorem agent_never_reports_shared_gpus:
  assumes "(agent_step dc E)\<^sup>*\<^sup>* \<lparr>docker = d, alloc = NewGPUAllocator idx, sent = [], clock = t\<rparr> w"
    and "distinct idx" and "list_all (fits_int 32) idx" and "u \<noteq> v"
  shows "reported E u (sent w) \<subseteq> held (alloc w) u \<and> reported E u (sent w) \<inter> reported E v (sent w) = {}"
  by (rule agent_inv_exclusive[OF agent_inv_run[OF assms(1) agent_inv_start[OF assms(2,3)]] assms(4)])

lemma agent_never_reports_shared_gpus_witness:
  "reported demo_env 7 (sent demo_created) \<inter> reported demo_env 8 (sent demo_created) = {}"
proof -
  let ?s = "\<lambda>c w. snd (handle_command mock_client demo_env c w)"
  let ?c7 = "MsgCreateEnv (demo_create ''7'' 1)" and ?c8 = "MsgCreateEnv (demo_create ''8'' 1)"
  have "fst (handle_command mock_client demo_env ?c7 demo_world) = Returned"
    and "fst (handle_command mock_client demo_env ?c8 (?s ?c7 demo_world)) = Returned"
    by code_simp+
  then have "agent_step mock_client demo_env demo_world (?s ?c7 demo_world)"
    and "agent_step mock_client demo_env (?s ?c7 demo_world) (?s ?c8 (?s ?c7 demo_world))"
    by (metis agent_step.command prod.collapse)+
  moreover have "demo_created = ?s ?c8 (?s ?c7 demo_world)"
    by (simp add: demo_created_def demo_run_def)
  ultimately have "(agent_step mock_client demo_env)\<^sup>*\<^sup>* demo_world demo_created" by simp
  from agent_never_reports_shared_gpus[OF this[unfolded demo_world_def], of 7 8] show ?thesis
    by (simp add: fits_int_def)
qed

subsection \<open>The snapshot\<close>

lemma matches_dev: "matches_filter [(LabelRole, v)] = (\<lambda>c. label_of c LabelRole = v)"
  by (rule ext) (simp add: matches_filter_def)

text \<open>On the mock engine the snapshot sent on reconnect lists the environment ids of exactly the
  running containers whose role is dev, in the engine's order, without empty ids, and changes no
  container.\<close>

theorem snapshot_lists_running_devs:
  assumes "map_of (NextErrors (docker w)) ''ListContainers'' = None"
  shows "\<exists>ids w'. BuildEnvStateSnapshot mock_client w = (Inr ids, w') \<and>
    Containers (docker w') = Containers (docker w) \<and> sent w' = sent w \<and>
    set ids = {e. e \<noteq> '''' \<and> (\<exists>c \<in> snd ` set (Containers (docker w)).
                 label_of c LabelRole = ''dev'' \<and> info_State c = ''running'' \<and> label_of c LabelEnvID = e)}"
proof -
  let ?cs = "map snd (Containers (docker w))"
  let ?dev = "\<lambda>c. label_of c LabelRole = ''dev''" and ?run = "\<lambda>c. info_State c = ''running''"
  obtain w' where l: "on_docker (mock_ListContainers [(LabelRole, ''dev'')]) w = (Inr (filter ?dev ?cs), w')"
    and "Containers (docker w') = Containers (docker w)" and "sent w' = sent w"
    using assms by (auto simp: on_docker_eq mock_ListContainers_def take_call_eq matches_dev)
  moreover have "BuildEnvStateSnapshot mock_client w =
      (Inr (filter (\<lambda>i. i \<noteq> '''') (map (\<lambda>c. label_of c LabelEnvID) (filter ?run (filter ?dev ?cs)))), w')"
    by (simp add: BuildEnvStateSnapshot_def mock_client_def l)
  ultimately show ?thesis by auto
qed

lemma snapshot_lists_running_devs_witness:
  "map_of (NextErrors (docker demo_created)) ''ListContainers'' = None \<and>
   (\<exists>ids w'. BuildEnvStateSnapshot mock_client demo_created = (Inr ids, w') \<and> sent w' = sent demo_created)"
proof -
  have "map_of (NextErrors (docker demo_created)) ''ListContainers'' = None" by code_simp
  with snapshot_lists_running_devs[OF this] show ?thesis by blast
qed

subsection \<open>Start and rebuild\<close>

text \<open>
  An environment is created on GPU 0, stopped, GPU 0 is given to a second environment, and the
  first is started again on GPU 1.
\<close>

definition demo_moved :: "MockDockerClient agent_world" where
  "demo_moved = demo_run [MsgCreateEnv (demo_create ''7'' 1), MsgStopEnv ''7'',
     MsgCreateEnv (demo_create ''8'' 1), MsgStartEnv (demo_start ''7'')]"

text \<open>A restarted dev container keeps the labels of its first creation, so the device label can
  name devices the environment no longer has: after an environment was stopped, its device given
  away and the environment started on another one, both run on different devices, but rebuilding
  the allocator from the containers books both on the same device.\<close>

theorem rebuild_after_start_double_books:
  "held (alloc demo_moved) 7 = {1} \<and> held (alloc demo_moved) 8 = {0} \<and>
   (case RestoreFromDocker mock_client demo_parse (docker demo_moved) (NewGPUAllocator [0, 1]) of
      (r, d, a) \<Rightarrow> r = Inr () \<and> held a 7 = {0} \<and> held a 8 = {0} \<and> \<not> alloc_wf a)"
proof -
  let ?r = "RestoreFromDocker mock_client demo_parse (docker demo_moved) (NewGPUAllocator [0, 1])"
  have "allocated (alloc demo_moved) = [(8, [0]), (7, [1])]" by code_simp
  moreover have "fst ?r = Inr ()" by code_simp
  moreover have "snd (snd ?r) = \<lparr>total_gpus = [0, 1], allocated = [(8, [0]), (7, [0])]\<rparr>" by code_simp
  ultimately show ?thesis
    by (cases ?r) (simp add: held_def gomap_get_def alloc_wf_def used_list_def)
qed

text \<open>A start command for an environment that still runs asks for its devices a second time:
  when the node has none to spare it is refused with an error although the environment runs and
  keeps its devices.\<close>

theorem start_while_running_reports_error:
  assumes id: "uuidParse E (se_env_id cmd) = Inr u"
    and dev: "on_docker (InspectContainer dc (env_name (se_env_id cmd))) w = (Inr dev, w1)"
    and side: "on_docker (InspectContainer dc (net_name (se_env_id cmd))) w1 = (Inr side, w2)"
    and few: "length (free_list (alloc w)) < length (parseIndicesCSV (label_of dev LabelGPUIndices))"
  shows "\<exists>e. HandleStart dc E cmd w = (Returned, w2\<lparr>sent := sent w @ [EnvError (se_env_id cmd) ''start'' e]\<rparr>) \<and>
     held (alloc w2) = held (alloc w)"
proof -
  let ?n = "length (parseIndicesCSV (label_of dev LabelGPUIndices))"
  let ?e = "insufficient_text (int ?n) (int (length (free_list (alloc w))))"
  have f: "alloc w2 = alloc w" "sent w2 = sent w" using dev side by (auto simp: on_docker_eq)
  then have "w2\<lparr>alloc := alloc w\<rparr> = w2" by (metis agent_world.surjective agent_world.update_convs(2))
  moreover have "Allocate u (int ?n) (alloc w) = (AllocErr ?e, alloc w)" and "0 < ?n"
    using few by (auto simp: Allocate_def Let_def)
  ultimately have "HandleStart dc E cmd w =
      (Returned, w2\<lparr>sent := sent w @ [EnvError (se_env_id cmd) ''start'' ?e]\<rparr>)"
    using id dev side f by (simp add: HandleStart_def Let_def sendError_def)
  then show ?thesis using f by auto
qed

lemma start_while_running_reports_error_witness:
  "\<exists>e w2. HandleStart mock_client demo_env (demo_start ''7'') (demo_run [MsgCreateEnv (demo_create ''7'' 2)]) =
     (Returned, w2\<lparr>sent := [EnvReady ''7'' ''flex-net-7'' ''flex-env-7'' [0, 1], EnvError ''7'' ''start'' e]\<rparr>)"
proof -
  let ?w = "demo_run [MsgCreateEnv (demo_create ''7'' 2)]"
  let ?i1 = "on_docker (InspectContainer mock_client (env_name (se_env_id (demo_start ''7'')))) ?w"
  let ?i2 = "on_docker (InspectContainer mock_client (net_name (se_env_id (demo_start ''7'')))) (snd ?i1)"
  have id: "uuidParse demo_env (se_env_id (demo_start ''7'')) = Inr 7" by code_simp
  have "isl (fst ?i1) = False" and "isl (fst ?i2) = False" by code_simp+
  then have d: "?i1 = (Inr (projr (fst ?i1)), snd ?i1)" and s: "?i2 = (Inr (projr (fst ?i2)), snd ?i2)"
    by (simp_all add: prod_eq_iff)
  have few: "length (free_list (alloc ?w)) < length (parseIndicesCSV (label_of (projr (fst ?i1)) LabelGPUIndices))"
    by code_simp
  have "sent ?w = [EnvReady ''7'' ''flex-net-7'' ''flex-env-7'' [0, 1]]" and "se_env_id (demo_start ''7'') = ''7''"
    by code_simp+
  with start_while_running_reports_error[OF id d s few] show ?thesis by auto
qed

end
