(* ===== verification/GoErrors.thy ===== *)
theory GoErrors
  imports Prelude GoNumbers
begin

text \<open>
  Go error values whose identity the control plane inspects: the sentinels of a package
  (\<open>errors.New\<close> at package level, told apart by their texts, which differ), wrapping with
  \<open>fmt.Errorf\<close> and \<open>%w\<close>, and the driver's errors. \<open>errors.Is\<close> walks the chain of wrapped errors
  and \<open>errors.As\<close> looks for the driver's \<open>PgError\<close> on it.
\<close>

datatype go_error =
    Sentinel gostring
  | NewError gostring
  | Wrap gostring go_error
  | WrapSuffix go_error gostring
  | NoRows
  | PgError gostring gostring

fun error_text :: "go_error \<Rightarrow> errtext" where
  "error_text (Sentinel s) = s"
| "error_text (NewError s) = s"
| "error_text (Wrap p e) = p @ error_text e"
| "error_text (WrapSuffix e t) = error_text e @ t"
| "error_text NoRows = ''no rows in result set''"
| "error_text (PgError code constraint) = ''ERROR: '' @ constraint @ '' (SQLSTATE '' @ code @ '')''"

fun errors_Is :: "go_error \<Rightarrow> go_error \<Rightarrow> bool" where
  "errors_Is (Wrap p e) t = (Wrap p e = t \<or> errors_Is e t)"
| "errors_Is (WrapSuffix e x) t = (WrapSuffix e x = t \<or> errors_Is e t)"
| "errors_Is e t = (e = t)"

fun errors_As_pg :: "go_error \<Rightarrow> (gostring \<times> gostring) option" where
  "errors_As_pg (PgError code constraint) = Some (code, constraint)"
| "errors_As_pg (Wrap p e) = errors_As_pg e"
| "errors_As_pg (WrapSuffix e t) = errors_As_pg e"
| "errors_As_pg _ = None"

lemma errors_Is_refl [simp]: "errors_Is e e"
  by (cases e) simp_all

lemma errors_Is_Sentinel_iff [simp]: "errors_Is (Sentinel s) t \<longleftrightarrow> t = Sentinel s"
  by auto

definition is_unique_violation :: "go_error \<Rightarrow> bool" where
  "is_unique_violation e =
     (case errors_As_pg e of Some (code, _) \<Rightarrow> code = ''23505'' | None \<Rightarrow> False)"

lemma is_unique_violation_simps [simp]:
  "is_unique_violation (PgError code con) \<longleftrightarrow> code = ''23505''"
  "\<not> is_unique_violation NoRows" "\<not> is_unique_violation (Sentinel s)" "\<not> is_unique_violation (NewError s)"
  by (simp_all add: is_unique_violation_def)

subsection \<open>Calls that can fail\<close>

text \<open>
  A method of a service takes the state and returns a value or an error with the state after.
  \<open>on_error\<close> wraps or replaces the error of a call, \<open>and_then\<close> continues with its value.
\<close>

type_synonym ('s, 'a) call = "'s \<Rightarrow> (go_error + 'a) \<times> 's"

definition and_then :: "('s, 'a) call \<Rightarrow> ('a \<Rightarrow> ('s, 'b) call) \<Rightarrow> ('s, 'b) call" where
  "and_then m k s = (case m s of (Inl e, s) \<Rightarrow> (Inl e, s) | (Inr a, s) \<Rightarrow> k a s)"

definition on_error :: "(go_error \<Rightarrow> go_error) \<Rightarrow> ('s, 'a) call \<Rightarrow> ('s, 'a) call" where
  "on_error h m s = (case m s of (Inl e, s) \<Rightarrow> (Inl (h e), s) | (Inr a, s) \<Rightarrow> (Inr a, s))"

definition give :: "'a \<Rightarrow> ('s, 'a) call" where
  "give a s = (Inr a, s)"

definition give_error :: "go_error \<Rightarrow> ('s, 'a) call" where
  "give_error e s = (Inl e, s)"

definition with_state :: "('s \<Rightarrow> ('s, 'a) call) \<Rightarrow> ('s, 'a) call" where
  "with_state f s = f s s"

lemma and_then_Inl [simp]: "m s = (Inl e, s') \<Longrightarrow> and_then m k s = (Inl e, s')"
  and and_then_Inr [simp]: "m s = (Inr a, s') \<Longrightarrow> and_then m k s = k a s'"
  by (simp_all add: and_then_def)

lemma on_error_Inl [simp]: "m s = (Inl e, s') \<Longrightarrow> on_error h m s = (Inl (h e), s')"
  and on_error_Inr [simp]: "m s = (Inr a, s') \<Longrightarrow> on_error h m s = (Inr a, s')"
  by (simp_all add: on_error_def)

lemma snd_on_error [simp]: "snd (on_error h m s) = snd (m s)"
  by (simp add: on_error_def split: prod.split sum.split)

lemma on_error_Inr_iff: "on_error h m s = (Inr a, s') \<longleftrightarrow> m s = (Inr a, s')"
  by (auto simp: on_error_def split: prod.splits sum.splits)

lemma on_error_Inl_iff: "on_error h m s = (Inl e, s') \<longleftrightarrow> (\<exists>e'. m s = (Inl e', s') \<and> e = h e')"
  by (auto simp: on_error_def split: prod.splits sum.splits)

lemma and_then_Inr_iff:
  "and_then m k s = (Inr b, s') \<longleftrightarrow> (\<exists>a s1. m s = (Inr a, s1) \<and> k a s1 = (Inr b, s'))"
  by (auto simp: and_then_def split: prod.splits sum.splits)

lemma and_then_Inl_iff:
  "and_then m k s = (Inl e, s') \<longleftrightarrow>
     m s = (Inl e, s') \<or> (\<exists>a s1. m s = (Inr a, s1) \<and> k a s1 = (Inl e, s'))"
  by (auto simp: and_then_def split: prod.splits sum.splits)

lemma give_simps [simp]: "give a s = (r, s') \<longleftrightarrow> r = Inr a \<and> s' = s"
  "give_error e s = (r, s') \<longleftrightarrow> r = Inl e \<and> s' = s"
  by (auto simp: give_def give_error_def)

lemmas call_iffs = on_error_Inr_iff on_error_Inl_iff and_then_Inr_iff and_then_Inl_iff

end
