(* ===== verification/Db.thy ===== *)
theory Db
  imports GoErrors
begin

text \<open>
  The PostgreSQL schema of \<open>migrations/\<close>: one row type per table, the database as the record of
  its tables, the constraints each insert checks and what a delete cascades to. The services'
  rows extend the Go structs they are scanned into. Besides the tables the database carries the
  transaction time \<open>now()\<close>, the values \<open>gen_random_uuid()\<close> will return, how \<open>jsonb\<close> reads its
  input, and which of the next statements the server or the connection will fail, with what.
\<close>

subsection \<open>Rows\<close>

record User =
  user_ID :: uuid
  user_Email :: gostring
  user_Slug :: gostring

record User_row = User +
  user_PasswordHash :: gostring
  user_CreatedAt :: int

record Key =
  key_ID :: uuid
  key_Name :: gostring
  key_PublicKey :: gostring
  key_Fingerprint :: gostring

record Key_row = Key +
  key_UserID :: uuid
  key_CreatedAt :: int

record pair_token_row =
  pt_TokenHash :: gostring
  pt_UserID :: uuid
  pt_ExpiresAt :: int
  pt_UsedAt :: "int option"

record Node =
  node_ID :: uuid
  node_OwnerUserID :: uuid
  node_Name :: gostring
  node_AgentVersion :: gostring
  node_GPUInfo :: gostring
  node_Status :: gostring
  node_LastSeenAt :: "int option"

record Node_row = Node +
  node_TokenHash :: gostring

record Template =
  tpl_ID :: gostring
  tpl_DisplayName :: gostring
  tpl_Description :: gostring
  tpl_ImageRef :: gostring
  tpl_DefaultCmd :: "gostring list"

record Template_row = Template +
  tpl_Enabled :: bool

record Env =
  env_ID :: uuid
  env_OwnerUserID :: uuid
  env_NodeID :: uuid
  env_TemplateID :: gostring
  env_Name :: gostring
  env_Hostname :: gostring
  env_Status :: gostring
  env_StatusMessage :: gostring
  env_SidecarContainerID :: gostring
  env_DevContainerID :: gostring
  env_GPURequest :: int
  env_GPUIndices :: "int list"
  env_VolumeName :: gostring

record Env_row = Env +
  env_CreatedAt :: int
  env_UpdatedAt :: int

record Device =
  dev_ID :: uuid
  dev_UserID :: uuid
  dev_Name :: gostring
  dev_Hostname :: gostring
  dev_CreatedAt :: int
  dev_LastSeenAt :: "int option"

record audit_row =
  au_UserID :: "uuid option"
  au_Action :: gostring
  au_Target :: gostring
  au_Metadata :: "gostring option"
  au_IP :: "gostring option"
  au_CreatedAt :: int

subsection \<open>The database and one statement\<close>

record db =
  t_users :: "User_row list"
  t_ssh_keys :: "Key_row list"
  t_audit_log :: "audit_row list"
  t_pair_tokens :: "pair_token_row list"
  t_nodes :: "Node_row list"
  t_image_templates :: "Template_row list"
  t_envs :: "Env_row list"
  t_devices :: "Device list"
  db_now :: int
  db_uuid :: "nat \<Rightarrow> uuid"
  db_uuid_next :: nat
  db_jsonb :: "gostring \<Rightarrow> go_error + gostring"
  db_faults :: "go_error option list"

text \<open>
  One round trip to the server: it fails when the next entry of \<open>db_faults\<close> says so, otherwise
  the statement runs. A statement that fails changes no table.
\<close>

definition stmt :: "(db, 'a) call \<Rightarrow> (db, 'a) call" where
  "stmt f d =
     (case db_faults d of
        [] \<Rightarrow> f d
      | None # fs \<Rightarrow> f (d\<lparr>db_faults := fs\<rparr>)
      | Some e # fs \<Rightarrow> (Inl e, d\<lparr>db_faults := fs\<rparr>))"

definition fault_free :: "db \<Rightarrow> bool" where
  "fault_free d = list_all (\<lambda>f. f = None) (db_faults d)"

definition drop_fault :: "db \<Rightarrow> db" where
  "drop_fault d = d\<lparr>db_faults := tl (db_faults d)\<rparr>"

lemma drop_fault_tables [simp]:
  "t_users (drop_fault d) = t_users d" "t_ssh_keys (drop_fault d) = t_ssh_keys d"
  "t_audit_log (drop_fault d) = t_audit_log d" "t_pair_tokens (drop_fault d) = t_pair_tokens d"
  "t_nodes (drop_fault d) = t_nodes d" "t_image_templates (drop_fault d) = t_image_templates d"
  "t_envs (drop_fault d) = t_envs d" "t_devices (drop_fault d) = t_devices d"
  "db_now (drop_fault d) = db_now d" "db_uuid (drop_fault d) = db_uuid d"
  "db_uuid_next (drop_fault d) = db_uuid_next d" "db_jsonb (drop_fault d) = db_jsonb d"
  by (simp_all add: drop_fault_def)

lemma set_faults_id: "db_faults d = fs \<Longrightarrow> d\<lparr>db_faults := fs\<rparr> = d"
  by (cases d) simp

lemma stmt_fault_free: "fault_free d \<Longrightarrow> stmt f d = f (drop_fault d)"
  by (cases "db_faults d") (auto simp: stmt_def fault_free_def drop_fault_def set_faults_id)

lemma fault_free_drop [simp]: "fault_free d \<Longrightarrow> fault_free (drop_fault d)"
  by (cases "db_faults d") (simp_all add: fault_free_def drop_fault_def)

lemma fault_free_update [simp]:
  "fault_free (d\<lparr>t_users := a\<rparr>) = fault_free d" "fault_free (d\<lparr>t_ssh_keys := b\<rparr>) = fault_free d"
  "fault_free (d\<lparr>t_audit_log := c\<rparr>) = fault_free d" "fault_free (d\<lparr>t_pair_tokens := e\<rparr>) = fault_free d"
  "fault_free (d\<lparr>t_nodes := f\<rparr>) = fault_free d" "fault_free (d\<lparr>t_envs := g\<rparr>) = fault_free d"
  "fault_free (d\<lparr>t_devices := h\<rparr>) = fault_free d" "fault_free (d\<lparr>db_uuid_next := i\<rparr>) = fault_free d"
  by (simp_all add: fault_free_def)

lemma drop_fault_update [simp]:
  "drop_fault (d\<lparr>t_users := a\<rparr>) = (drop_fault d)\<lparr>t_users := a\<rparr>"
  "drop_fault (d\<lparr>t_pair_tokens := e\<rparr>) = (drop_fault d)\<lparr>t_pair_tokens := e\<rparr>"
  "drop_fault (d\<lparr>t_nodes := f\<rparr>) = (drop_fault d)\<lparr>t_nodes := f\<rparr>"
  "drop_fault (d\<lparr>t_envs := g\<rparr>) = (drop_fault d)\<lparr>t_envs := g\<rparr>"
  "drop_fault (d\<lparr>t_devices := h\<rparr>) = (drop_fault d)\<lparr>t_devices := h\<rparr>"
  "drop_fault (d\<lparr>db_uuid_next := i\<rparr>) = (drop_fault d)\<lparr>db_uuid_next := i\<rparr>"
  by (simp_all add: drop_fault_def)

lemma stmt_cases:
  obtains (fault) e where "stmt f d = (Inl e, drop_fault d)" | (ran) "stmt f d = f (drop_fault d)"
proof (cases "db_faults d")
  case Nil
  then show ?thesis using ran by (simp add: stmt_def drop_fault_def set_faults_id)
next
  case (Cons x fs)
  then show ?thesis using fault ran by (cases x) (simp_all add: stmt_def drop_fault_def)
qed

lemma stmt_okE:
  assumes "stmt f d = (Inr a, d')"
  obtains "f (drop_fault d) = (Inr a, d')"
  using assms by (cases rule: stmt_cases[of f d]) simp_all

definition gen_random_uuid :: "(db, uuid) call" where
  "gen_random_uuid d = (Inr (db_uuid d (db_uuid_next d)), d\<lparr>db_uuid_next := Suc (db_uuid_next d)\<rparr>)"

definition jsonb_input :: "gostring \<Rightarrow> (db, gostring) call" where
  "jsonb_input s d = (db_jsonb d s, d)"

text \<open>\<open>SELECT\<close> of one row, of all rows, and \<open>UPDATE\<close>, with the driver's row count.\<close>

definition query_row :: "(db \<Rightarrow> 'r list) \<Rightarrow> ('r \<Rightarrow> bool) \<Rightarrow> (db, 'r) call" where
  "query_row tab p d = (case select_one p (tab d) of None \<Rightarrow> (Inl NoRows, d) | Some r \<Rightarrow> (Inr r, d))"

definition query_rows :: "(db \<Rightarrow> 'r list) \<Rightarrow> ('r \<Rightarrow> bool) \<Rightarrow> (db, 'r list) call" where
  "query_rows tab p d = (Inr (select_rows p (tab d)), d)"

fun violated :: "(bool \<times> gostring \<times> gostring) list \<Rightarrow> go_error option" where
  "violated [] = None"
| "violated ((bad, code, constraint) # cs) = (if bad then Some (PgError code constraint) else violated cs)"

lemma violated_None: "violated cs = None \<longleftrightarrow> (\<forall>c \<in> set cs. \<not> fst c)"
  by (induction cs rule: violated.induct) auto

lemma violated_Some: "violated cs = Some e \<Longrightarrow> \<exists>code con. e = PgError code con \<and> (True, code, con) \<in> set cs"
  by (induction cs rule: violated.induct) (auto split: if_splits)

subsection \<open>Inserts, with the constraints of the schema\<close>

text \<open>
  Unique indexes are checked in the order of their creation, foreign keys after them; 23505 and
  23503 are the codes of the two violations.
\<close>

definition insert_user :: "User_row \<Rightarrow> (db, unit) call" where
  "insert_user r d =
     (case violated
        [(exists_row (\<lambda>x. user_ID x = user_ID r) (t_users d), ''23505'', ''users_pkey''),
         (exists_row (\<lambda>x. user_Email x = user_Email r) (t_users d), ''23505'', ''users_email_key''),
         (exists_row (\<lambda>x. user_Slug x = user_Slug r) (t_users d), ''23505'', ''users_slug_key'')] of
        Some e \<Rightarrow> (Inl e, d)
      | None \<Rightarrow> (Inr (), d\<lparr>t_users := t_users d @ [r]\<rparr>))"

definition insert_ssh_key :: "Key_row \<Rightarrow> (db, unit) call" where
  "insert_ssh_key r d =
     (case violated
        [(exists_row (\<lambda>x. key_ID x = key_ID r) (t_ssh_keys d), ''23505'', ''ssh_keys_pkey''),
         (exists_row (\<lambda>x. key_UserID x = key_UserID r \<and> key_Fingerprint x = key_Fingerprint r)
            (t_ssh_keys d), ''23505'', ''ssh_keys_user_id_fingerprint_key''),
         (\<not> exists_row (\<lambda>u. user_ID u = key_UserID r) (t_users d), ''23503'', ''ssh_keys_user_id_fkey'')] of
        Some e \<Rightarrow> (Inl e, d)
      | None \<Rightarrow> (Inr (), d\<lparr>t_ssh_keys := t_ssh_keys d @ [r]\<rparr>))"

definition insert_pair_token :: "pair_token_row \<Rightarrow> (db, unit) call" where
  "insert_pair_token r d =
     (case violated
        [(exists_row (\<lambda>x. pt_TokenHash x = pt_TokenHash r) (t_pair_tokens d), ''23505'', ''pair_tokens_pkey''),
         (\<not> exists_row (\<lambda>u. user_ID u = pt_UserID r) (t_users d), ''23503'', ''pair_tokens_user_id_fkey'')] of
        Some e \<Rightarrow> (Inl e, d)
      | None \<Rightarrow> (Inr (), d\<lparr>t_pair_tokens := t_pair_tokens d @ [r]\<rparr>))"

definition insert_node :: "Node_row \<Rightarrow> (db, unit) call" where
  "insert_node r d =
     (case violated
        [(exists_row (\<lambda>x. node_ID x = node_ID r) (t_nodes d), ''23505'', ''nodes_pkey''),
         (exists_row (\<lambda>x. node_TokenHash x = node_TokenHash r) (t_nodes d), ''23505'', ''nodes_node_token_hash_key''),
         (exists_row (\<lambda>x. node_OwnerUserID x = node_OwnerUserID r \<and> node_Name x = node_Name r)
            (t_nodes d), ''23505'', ''nodes_owner_user_id_name_key''),
         (\<not> exists_row (\<lambda>u. user_ID u = node_OwnerUserID r) (t_users d), ''23503'', ''nodes_owner_user_id_fkey'')] of
        Some e \<Rightarrow> (Inl e, d)
      | None \<Rightarrow> (Inr (), d\<lparr>t_nodes := t_nodes d @ [r]\<rparr>))"

definition insert_env :: "Env_row \<Rightarrow> (db, unit) call" where
  "insert_env r d =
     (case violated
        [(exists_row (\<lambda>x. env_ID x = env_ID r) (t_envs d), ''23505'', ''envs_pkey''),
         (exists_row (\<lambda>x. env_OwnerUserID x = env_OwnerUserID r \<and> env_Name x = env_Name r)
            (t_envs d), ''23505'', ''envs_owner_user_id_name_key''),
         (\<not> exists_row (\<lambda>u. user_ID u = env_OwnerUserID r) (t_users d), ''23503'', ''envs_owner_user_id_fkey''),
         (\<not> exists_row (\<lambda>n. node_ID n = env_NodeID r) (t_nodes d), ''23503'', ''envs_node_id_fkey''),
         (\<not> exists_row (\<lambda>t. tpl_ID t = env_TemplateID r) (t_image_templates d), ''23503'', ''envs_template_id_fkey'')] of
        Some e \<Rightarrow> (Inl e, d)
      | None \<Rightarrow> (Inr (), d\<lparr>t_envs := t_envs d @ [r]\<rparr>))"

text \<open>
  \<open>INSERT INTO devices ... ON CONFLICT (user_id, name) DO UPDATE SET last_seen_at = now()
  RETURNING ...\<close>: a row with that owner and name is touched and returned.
\<close>

definition upsert_device :: "Device \<Rightarrow> (db, Device) call" where
  "upsert_device r d =
     (case select_one (\<lambda>x. dev_UserID x = dev_UserID r \<and> dev_Name x = dev_Name r) (t_devices d) of
        Some old \<Rightarrow>
          (Inr (old\<lparr>dev_LastSeenAt := Some (db_now d)\<rparr>),
           d\<lparr>t_devices := update_rows (\<lambda>x. dev_UserID x = dev_UserID r \<and> dev_Name x = dev_Name r)
              (dev_LastSeenAt_update (\<lambda>_. Some (db_now d))) (t_devices d)\<rparr>)
      | None \<Rightarrow>
          (case violated
             [(exists_row (\<lambda>x. dev_ID x = dev_ID r) (t_devices d), ''23505'', ''devices_pkey''),
              (exists_row (\<lambda>x. dev_Hostname x = dev_Hostname r) (t_devices d), ''23505'', ''devices_hostname_key''),
              (\<not> exists_row (\<lambda>u. user_ID u = dev_UserID r) (t_users d), ''23503'', ''devices_user_id_fkey'')] of
             Some e \<Rightarrow> (Inl e, d)
           | None \<Rightarrow> (Inr r, d\<lparr>t_devices := t_devices d @ [r]\<rparr>)))"

definition insert_audit :: "audit_row \<Rightarrow> (db, unit) call" where
  "insert_audit r d = (Inr (), d\<lparr>t_audit_log := t_audit_log d @ [r]\<rparr>)"

subsection \<open>Updates and deletes\<close>

text \<open>No update of the services touches a key, so updates check nothing.\<close>

definition update_nodes :: "(Node_row \<Rightarrow> bool) \<Rightarrow> (Node_row \<Rightarrow> Node_row) \<Rightarrow> (db, nat) call" where
  "update_nodes p f d = (Inr (rows_affected p (t_nodes d)), d\<lparr>t_nodes := update_rows p f (t_nodes d)\<rparr>)"

definition update_envs :: "(Env_row \<Rightarrow> bool) \<Rightarrow> (Env_row \<Rightarrow> Env_row) \<Rightarrow> (db, nat) call" where
  "update_envs p f d = (Inr (rows_affected p (t_envs d)), d\<lparr>t_envs := update_rows p f (t_envs d)\<rparr>)"

definition update_pair_tokens ::
  "(pair_token_row \<Rightarrow> bool) \<Rightarrow> (pair_token_row \<Rightarrow> pair_token_row) \<Rightarrow> (db, nat) call" where
  "update_pair_tokens p f d =
     (Inr (rows_affected p (t_pair_tokens d)), d\<lparr>t_pair_tokens := update_rows p f (t_pair_tokens d)\<rparr>)"

definition delete_ssh_keys :: "(Key_row \<Rightarrow> bool) \<Rightarrow> (db, nat) call" where
  "delete_ssh_keys p d = (Inr (rows_affected p (t_ssh_keys d)), d\<lparr>t_ssh_keys := delete_rows p (t_ssh_keys d)\<rparr>)"

definition delete_envs :: "(Env_row \<Rightarrow> bool) \<Rightarrow> (db, nat) call" where
  "delete_envs p d = (Inr (rows_affected p (t_envs d)), d\<lparr>t_envs := delete_rows p (t_envs d)\<rparr>)"

definition delete_devices :: "(Device \<Rightarrow> bool) \<Rightarrow> (db, nat) call" where
  "delete_devices p d = (Inr (rows_affected p (t_devices d)), d\<lparr>t_devices := delete_rows p (t_devices d)\<rparr>)"

text \<open>
  Deleting a user cascades to keys, pair tokens, nodes, environments and devices. The nodes go
  before the environments, so an environment on one of these nodes restricts the delete.
\<close>

definition delete_user :: "uuid \<Rightarrow> (db, nat) call" where
  "delete_user u d =
     (if \<not> exists_row (\<lambda>x. user_ID x = u) (t_users d) then (Inr 0, d)
      else if exists_row (\<lambda>e. exists_row (\<lambda>n. node_OwnerUserID n = u \<and> node_ID n = env_NodeID e) (t_nodes d))
                (t_envs d)
      then (Inl (PgError ''23503'' ''envs_node_id_fkey''), d)
      else
        (Inr (rows_affected (\<lambda>x. user_ID x = u) (t_users d)),
         d\<lparr>t_users := delete_rows (\<lambda>x. user_ID x = u) (t_users d),
           t_ssh_keys := delete_rows (\<lambda>k. key_UserID k = u) (t_ssh_keys d),
           t_pair_tokens := delete_rows (\<lambda>t. pt_UserID t = u) (t_pair_tokens d),
           t_nodes := delete_rows (\<lambda>n. node_OwnerUserID n = u) (t_nodes d),
           t_envs := delete_rows (\<lambda>e. env_OwnerUserID e = u) (t_envs d),
           t_devices := delete_rows (\<lambda>x. dev_UserID x = u) (t_devices d)\<rparr>))"

subsection \<open>The database after the migrations\<close>

definition seeded_template :: Template_row where
  "seeded_template = \<lparr>tpl_ID = ''cuda-base'', tpl_DisplayName = ''CUDA Base (Ubuntu 22.04 + CUDA 12.4)'',
     tpl_Description = ''Minimal NVIDIA CUDA runtime on Ubuntu. Install PyTorch/TF via pip inside the container.'',
     tpl_ImageRef = ''flex/dev-cuda-base:dev'', tpl_DefaultCmd = [], tpl_Enabled = True\<rparr>"

definition empty_db :: "(nat \<Rightarrow> uuid) \<Rightarrow> int \<Rightarrow> db" where
  "empty_db uuids now = \<lparr>t_users = [], t_ssh_keys = [], t_audit_log = [], t_pair_tokens = [], t_nodes = [],
     t_image_templates = [seeded_template], t_envs = [], t_devices = [], db_now = now,
     db_uuid = uuids, db_uuid_next = 0, db_jsonb = Inr, db_faults = []\<rparr>"

lemma empty_db_simps [simp]:
  "t_users (empty_db us t) = []" "t_nodes (empty_db us t) = []" "t_envs (empty_db us t) = []"
  "t_devices (empty_db us t) = []" "t_ssh_keys (empty_db us t) = []" "t_pair_tokens (empty_db us t) = []"
  "db_faults (empty_db us t) = []" "fault_free (empty_db us t)" "db_now (empty_db us t) = t"
  by (simp_all add: empty_db_def fault_free_def)

end
