(* ===== verification/DbInvariant.thy ===== *)
theory DbInvariant
  imports Db
begin

text \<open>
  The invariant that the schema's constraints promise, every statement's preservation of it, and
  the rule collection \<open>keeps_intros\<close> with which a service method built from statements is shown
  to keep an invariant by following its text.
\<close>

subsection \<open>Calls that keep an invariant\<close>

named_theorems keeps_intros \<open>calls that keep the invariant of the database\<close>

definition keeps :: "('s \<Rightarrow> bool) \<Rightarrow> ('s, 'a) call \<Rightarrow> bool" where
  "keeps P m = (\<forall>s. P s \<longrightarrow> P (snd (m s)))"

lemma keepsI: "(\<And>s. P s \<Longrightarrow> P (snd (m s))) \<Longrightarrow> keeps P m"
  by (simp add: keeps_def)

lemma keepsD: "keeps P m \<Longrightarrow> P s \<Longrightarrow> P (snd (m s))"
  by (simp add: keeps_def)

lemma keepsD_eq: "keeps P m \<Longrightarrow> m s = (r, s') \<Longrightarrow> P s \<Longrightarrow> P s'"
  using keepsD[of P m s] by simp

lemma keeps_give [keeps_intros]: "keeps P (give a)" "keeps P (give_error e)"
  by (simp_all add: keeps_def give_def give_error_def)

lemma keeps_on_error [keeps_intros]: "keeps P m \<Longrightarrow> keeps P (on_error h m)"
  by (simp add: keeps_def)

lemma keeps_and_then [keeps_intros]:
  "keeps P m \<Longrightarrow> (\<And>a. keeps P (k a)) \<Longrightarrow> keeps P (and_then m k)"
  by (fastforce simp: keeps_def and_then_def split: prod.splits sum.splits)

lemma keeps_with_state [keeps_intros]: "(\<And>s. keeps P (f s)) \<Longrightarrow> keeps P (with_state f)"
  by (simp add: keeps_def with_state_def)

lemma keeps_if [keeps_intros]:
  "(b \<Longrightarrow> keeps P m) \<Longrightarrow> (\<not> b \<Longrightarrow> keeps P m') \<Longrightarrow> keeps P (if b then m else m')"
  by simp

subsection \<open>The schema's promises\<close>

definition refers :: "('b \<Rightarrow> 'k) \<Rightarrow> 'b list \<Rightarrow> ('a \<Rightarrow> 'k) \<Rightarrow> 'a list \<Rightarrow> bool" where
  "refers key parents fk children \<longleftrightarrow> fk ` set children \<subseteq> key ` set parents"

definition uniq :: "('a \<Rightarrow> 'k) \<Rightarrow> 'a list \<Rightarrow> bool" where
  "uniq key t = distinct (map key t)"

definition users_ok :: "db \<Rightarrow> bool" where
  "users_ok d \<longleftrightarrow> uniq user_ID (t_users d) \<and> uniq user_Email (t_users d) \<and> uniq user_Slug (t_users d)"

definition keys_ok :: "db \<Rightarrow> bool" where
  "keys_ok d \<longleftrightarrow> uniq key_ID (t_ssh_keys d) \<and> uniq (\<lambda>k. (key_UserID k, key_Fingerprint k)) (t_ssh_keys d) \<and>
     refers user_ID (t_users d) key_UserID (t_ssh_keys d)"

definition pair_tokens_ok :: "db \<Rightarrow> bool" where
  "pair_tokens_ok d \<longleftrightarrow> uniq pt_TokenHash (t_pair_tokens d) \<and> refers user_ID (t_users d) pt_UserID (t_pair_tokens d)"

definition nodes_ok :: "db \<Rightarrow> bool" where
  "nodes_ok d \<longleftrightarrow> uniq node_ID (t_nodes d) \<and> uniq node_TokenHash (t_nodes d) \<and>
     uniq (\<lambda>n. (node_OwnerUserID n, node_Name n)) (t_nodes d) \<and>
     refers user_ID (t_users d) node_OwnerUserID (t_nodes d)"

definition envs_ok :: "db \<Rightarrow> bool" where
  "envs_ok d \<longleftrightarrow> uniq env_ID (t_envs d) \<and> uniq (\<lambda>e. (env_OwnerUserID e, env_Name e)) (t_envs d) \<and>
     refers user_ID (t_users d) env_OwnerUserID (t_envs d) \<and> refers node_ID (t_nodes d) env_NodeID (t_envs d) \<and>
     refers tpl_ID (t_image_templates d) env_TemplateID (t_envs d)"

definition devices_ok :: "db \<Rightarrow> bool" where
  "devices_ok d \<longleftrightarrow> uniq dev_ID (t_devices d) \<and> uniq dev_Hostname (t_devices d) \<and>
     uniq (\<lambda>x. (dev_UserID x, dev_Name x)) (t_devices d) \<and> refers user_ID (t_users d) dev_UserID (t_devices d)"

definition db_wf :: "db \<Rightarrow> bool" where
  "db_wf d \<longleftrightarrow> users_ok d \<and> keys_ok d \<and> pair_tokens_ok d \<and> nodes_ok d \<and> envs_ok d \<and> devices_ok d"

lemmas ok_defs = users_ok_def keys_ok_def pair_tokens_ok_def nodes_ok_def envs_ok_def devices_ok_def

lemma uniq_append: "uniq key t \<Longrightarrow> \<not> exists_row (\<lambda>x. key x = key r) t \<Longrightarrow> uniq key (t @ [r])"
  by (auto simp: uniq_def exists_row_iff)

lemma uniq_delete: "uniq key t \<Longrightarrow> uniq key (delete_rows p t)"
  by (simp add: uniq_def distinct_delete_rows)

lemma uniq_update: "uniq key t \<Longrightarrow> (\<And>r. key (f r) = key r) \<Longrightarrow> uniq key (update_rows p f t)"
  by (simp add: uniq_def map_update_rows)

lemma refers_append: "refers key ps fk cs \<Longrightarrow> exists_row (\<lambda>p. key p = fk r) ps \<Longrightarrow> refers key ps fk (cs @ [r])"
  by (force simp: refers_def exists_row_iff)

lemma refers_parent_append: "refers key ps fk cs \<Longrightarrow> refers key (ps @ [r]) fk cs"
  by (auto simp: refers_def)

lemma refers_delete: "refers key ps fk cs \<Longrightarrow> refers key ps fk (delete_rows p cs)"
  by (auto simp: refers_def set_delete_rows)

lemma refers_update: "refers key ps fk cs \<Longrightarrow> (\<And>r. fk (f r) = fk r) \<Longrightarrow> refers key ps fk (update_rows p f cs)"
  by (auto simp: refers_def set_update_rows)

lemma refers_parent_update: "refers key ps fk cs \<Longrightarrow> (\<And>r. key (f r) = key r) \<Longrightarrow> refers key (update_rows p f ps) fk cs"
  using map_update_rows[of p key f ps] by (metis refers_def list.set_map)

lemma refers_cascade: "refers key ps fk cs \<Longrightarrow> refers key (delete_rows (\<lambda>p. key p = k) ps) fk (delete_rows (\<lambda>c. fk c = k) cs)"
  by (force simp: refers_def set_delete_rows)

lemma uniq_same: "uniq key t \<Longrightarrow> r \<in> set t \<Longrightarrow> r' \<in> set t \<Longrightarrow> key r = key r' \<Longrightarrow> r = r'"
  unfolding uniq_def by (rule distinct_map_eq)

subsection \<open>Statements keep the promises\<close>

lemma keeps_stmt_if:
  assumes "\<And>d. P d \<Longrightarrow> P (drop_fault d)" and "keeps P f"
  shows "keeps P (stmt f)"
proof (rule keepsI)
  fix d assume "P d"
  then show "P (snd (stmt f d))"
    using assms by (cases rule: stmt_cases[of f d]) (simp_all add: keeps_def)
qed

lemma keeps_stmt [keeps_intros]: "keeps db_wf f \<Longrightarrow> keeps db_wf (stmt f)"
  by (rule keeps_stmt_if) (simp_all add: db_wf_def ok_defs)

lemma keeps_reads [keeps_intros]:
  "keeps db_wf (query_row tab p)" "keeps db_wf (query_rows tab q)" "keeps db_wf gen_random_uuid"
  "keeps db_wf (jsonb_input j)" "keeps db_wf (insert_audit a)"
  by (auto simp: keeps_def query_row_def query_rows_def gen_random_uuid_def jsonb_input_def insert_audit_def
      db_wf_def ok_defs split: option.split)

lemma keeps_insert_user [keeps_intros]: "keeps db_wf (insert_user r)"
  by (auto simp: keeps_def insert_user_def db_wf_def ok_defs uniq_append refers_parent_append
      split: option.split simp: violated_None)

lemma keeps_insert_ssh_key [keeps_intros]: "keeps db_wf (insert_ssh_key r)"
  by (auto simp: keeps_def insert_ssh_key_def db_wf_def ok_defs violated_None
      split: option.split intro!: uniq_append refers_append)

lemma keeps_insert_pair_token [keeps_intros]: "keeps db_wf (insert_pair_token r)"
  by (auto simp: keeps_def insert_pair_token_def db_wf_def ok_defs violated_None
      split: option.split intro!: uniq_append refers_append)

lemma keeps_insert_node [keeps_intros]: "keeps db_wf (insert_node r)"
  by (auto simp: keeps_def insert_node_def db_wf_def ok_defs violated_None
      split: option.split intro!: uniq_append refers_append refers_parent_append)

lemma keeps_insert_env [keeps_intros]: "keeps db_wf (insert_env r)"
  by (auto simp: keeps_def insert_env_def db_wf_def ok_defs violated_None
      split: option.split intro!: uniq_append refers_append)

lemma keeps_upsert_device [keeps_intros]: "keeps db_wf (upsert_device r)"
proof (rule keepsI)
  fix d assume wf: "db_wf d"
  show "db_wf (snd (upsert_device r d))"
  proof (cases "select_one (\<lambda>x. dev_UserID x = dev_UserID r \<and> dev_Name x = dev_Name r) (t_devices d)")
    case (Some old)
    then show ?thesis using wf
      by (auto simp: upsert_device_def db_wf_def ok_defs intro!: uniq_update refers_update)
  next
    case None
    then have "\<not> exists_row (\<lambda>x. (dev_UserID x, dev_Name x) = (dev_UserID r, dev_Name r)) (t_devices d)"
      by (simp add: select_one_None)
    with None wf show ?thesis
      by (auto simp: upsert_device_def db_wf_def ok_defs violated_None
          split: option.split intro!: uniq_append refers_append)
  qed
qed

lemma keeps_update_nodes [keeps_intros]:
  assumes "\<And>r. node_ID (f r) = node_ID r" "\<And>r. node_TokenHash (f r) = node_TokenHash r"
    "\<And>r. node_OwnerUserID (f r) = node_OwnerUserID r" "\<And>r. node_Name (f r) = node_Name r"
  shows "keeps db_wf (update_nodes p f)"
  by (auto simp: keeps_def update_nodes_def db_wf_def ok_defs assms
      intro!: uniq_update refers_update refers_parent_update)

lemma keeps_update_envs [keeps_intros]:
  assumes "\<And>r. env_ID (f r) = env_ID r" "\<And>r. env_OwnerUserID (f r) = env_OwnerUserID r"
    "\<And>r. env_NodeID (f r) = env_NodeID r" "\<And>r. env_Name (f r) = env_Name r"
    "\<And>r. env_TemplateID (f r) = env_TemplateID r"
  shows "keeps db_wf (update_envs p f)"
  by (auto simp: keeps_def update_envs_def db_wf_def ok_defs assms intro!: uniq_update refers_update)

lemma keeps_update_pair_tokens [keeps_intros]:
  assumes "\<And>r. pt_TokenHash (f r) = pt_TokenHash r" "\<And>r. pt_UserID (f r) = pt_UserID r"
  shows "keeps db_wf (update_pair_tokens p f)"
  by (auto simp: keeps_def update_pair_tokens_def db_wf_def ok_defs assms intro!: uniq_update refers_update)

lemma keeps_deletes [keeps_intros]:
  "keeps db_wf (delete_ssh_keys p)" "keeps db_wf (delete_envs q)" "keeps db_wf (delete_devices r)"
  by (auto simp: keeps_def delete_ssh_keys_def delete_envs_def delete_devices_def db_wf_def ok_defs
      intro!: uniq_delete refers_delete)

text \<open>The cascade leaves no reference behind, which for environments is what the restriction is for.\<close>

lemma keeps_delete_user [keeps_intros]: "keeps db_wf (delete_user u)"
proof (rule keepsI)
  fix d assume wf: "db_wf d"
  show "db_wf (snd (delete_user u d))"
  proof (cases "exists_row (\<lambda>x. user_ID x = u) (t_users d) \<and>
      \<not> exists_row (\<lambda>e. exists_row (\<lambda>n. node_OwnerUserID n = u \<and> node_ID n = env_NodeID e) (t_nodes d)) (t_envs d)")
    case True
    have "env_NodeID e \<in> node_ID ` {n \<in> set (t_nodes d). node_OwnerUserID n \<noteq> u}" if "e \<in> set (t_envs d)" for e
    proof -
      have "refers node_ID (t_nodes d) env_NodeID (t_envs d)" using wf by (simp add: db_wf_def envs_ok_def)
      then have "env_NodeID e \<in> node_ID ` set (t_nodes d)" using that unfolding refers_def by blast
      then obtain n where n: "n \<in> set (t_nodes d)" "node_ID n = env_NodeID e" by (metis imageE)
      then have "node_OwnerUserID n \<noteq> u" using True that by (auto simp: exists_row_iff)
      with n show ?thesis by (intro image_eqI[of _ _ n]) simp_all
    qed
    then have "refers node_ID (delete_rows (\<lambda>n. node_OwnerUserID n = u) (t_nodes d)) env_NodeID
        (delete_rows (\<lambda>e. env_OwnerUserID e = u) (t_envs d))"
      by (auto simp: refers_def set_delete_rows)
    with True wf show ?thesis
      by (auto simp: delete_user_def db_wf_def ok_defs intro!: uniq_delete refers_delete refers_cascade)
  next
    case False
    with wf show ?thesis by (auto simp: delete_user_def)
  qed
qed

lemma empty_db_wf: "db_wf (empty_db us t)"
  by (simp add: db_wf_def ok_defs uniq_def refers_def)

end
