(* ===== verification/Base64.thy ===== *)
theory Base64
  imports GoStrings
begin

text \<open>
  \<open>encoding/base64\<close> without padding, in the standard and the URL alphabet: a string is read as its
  bytes, the bytes as groups of six bits, and each group as a character. Decoding skips carriage
  returns and newlines, as Go's decoder does, and does not check the unused trailing bits.
\<close>

datatype alphabet = StdAlphabet | URLAlphabet

definition sextet_char :: "alphabet \<Rightarrow> nat \<Rightarrow> char" where
  "sextet_char enc n =
     (if n < 26 then char_of (65 + n) else if n < 52 then char_of (71 + n)
      else if n < 62 then char_of (n - 4)
      else if n = 62 then (if enc = StdAlphabet then CHR ''+'' else CHR ''-'')
      else (if enc = StdAlphabet then CHR ''/'' else CHR ''_''))"

definition char_sextet :: "alphabet \<Rightarrow> char \<Rightarrow> nat option" where
  "char_sextet enc c =
     (let b = byte_of c
      in if 65 \<le> b \<and> b \<le> 90 then Some (b - 65) else if 97 \<le> b \<and> b \<le> 122 then Some (b - 71)
         else if 48 \<le> b \<and> b \<le> 57 then Some (b + 4)
         else if c = (if enc = StdAlphabet then CHR ''+'' else CHR ''-'') then Some 62
         else if c = (if enc = StdAlphabet then CHR ''/'' else CHR ''_'') then Some 63
         else None)"

fun sextets :: "nat list \<Rightarrow> nat list" where
  "sextets [] = []"
| "sextets [a] = [a div 4, (a mod 4) * 16]"
| "sextets [a, b] = [a div 4, (a mod 4) * 16 + b div 16, (b mod 16) * 4]"
| "sextets (a # b # c # bs) =
     [a div 4, (a mod 4) * 16 + b div 16, (b mod 16) * 4 + c div 64, c mod 64] @ sextets bs"

fun unsextets :: "nat list \<Rightarrow> nat list option" where
  "unsextets [] = Some []"
| "unsextets [s] = None"
| "unsextets [s, t] = Some [s * 4 + t div 16]"
| "unsextets [s, t, u] = Some [s * 4 + t div 16, (t mod 16) * 16 + u div 4]"
| "unsextets (s # t # u # v # ss) =
     map_option (\<lambda>bs. [s * 4 + t div 16, (t mod 16) * 16 + u div 4, (u mod 4) * 64 + v] @ bs) (unsextets ss)"

definition b64_encode :: "alphabet \<Rightarrow> gostring \<Rightarrow> gostring" where
  "b64_encode enc s = map (sextet_char enc) (sextets (map byte_of s))"

definition b64_decode :: "alphabet \<Rightarrow> gostring \<Rightarrow> gostring option" where
  "b64_decode enc s =
     (let cs = filter (\<lambda>c. c \<noteq> CHR 0x0A \<and> c \<noteq> CHR 0x0D) s
      in case those (map (char_sextet enc) cs) of
           None \<Rightarrow> None
         | Some ss \<Rightarrow> map_option (map char_of) (unsextets ss))"

subsection \<open>Round trip\<close>

lemma pack_div: "y < m \<Longrightarrow> (x * m + y) div m = (x::nat)"
  by simp

lemma pack_mod: "y < m \<Longrightarrow> (x * m + y) mod m = (y::nat)"
  by simp

lemma unsextets_sextets: "\<forall>b \<in> set bs. b < 256 \<Longrightarrow> unsextets (sextets bs) = Some bs"
proof (induction bs rule: sextets.induct)
  case (3 a b)
  then have "b div 16 < 16" by auto
  then show ?case by (simp add: pack_div pack_mod mult.commute)
next
  case (4 a b c bs)
  then have "b div 16 < 16" and "c div 64 < 4" by auto
  then have "((a mod 4) * 16 + b div 16) div 16 = a mod 4" "((a mod 4) * 16 + b div 16) mod 16 = b div 16"
    "((b mod 16) * 4 + c div 64) div 4 = b mod 16" "((b mod 16) * 4 + c div 64) mod 4 = c div 64"
    by (simp_all add: pack_div pack_mod)
  then show ?case using 4 by simp
qed simp_all

lemma sextets_bound: "\<forall>b \<in> set bs. b < 256 \<Longrightarrow> \<forall>s \<in> set (sextets bs). s < 64"
  by (induction bs rule: sextets.induct) auto

lemma byte_of_less: "byte_of c < 256"
  by (simp add: byte_of_def)

lemma char_of_byte_of: "char_of (byte_of c) = c"
  by (simp add: byte_of_def)

lemma byte_of_char_of: "n < 256 \<Longrightarrow> byte_of (char_of n) = n"
  by (simp add: byte_of_def)

lemma byte_of_sextet_char:
  "n < 64 \<Longrightarrow> byte_of (sextet_char enc n) =
     (if n < 26 then 65 + n else if n < 52 then 71 + n else if n < 62 then n - 4
      else if n = 62 then (if enc = StdAlphabet then 43 else 45) else (if enc = StdAlphabet then 47 else 95))"
  by (simp add: sextet_char_def byte_of_def)

lemma char_eq_byte: "c = d \<longleftrightarrow> byte_of c = byte_of d"
  by (metis char_of_byte_of)

lemma sextet_roundtrip:
  assumes "n < 64"
  shows "char_sextet enc (sextet_char enc n) = Some n" and "\<not> is_space (sextet_char enc n)"
    and "sextet_char enc n \<noteq> CHR ''.''" and "sextet_char enc n \<noteq> CHR ''$''"
proof -
  consider "n < 62" | "n = 62" | "n = 63" using assms by linarith
  then show "char_sextet enc (sextet_char enc n) = Some n"
  proof cases
    case 1
    then show ?thesis by (simp add: char_sextet_def Let_def byte_of_sextet_char; arith)
  next
    case 2
    then show ?thesis by (cases enc; simp; code_simp)
  next
    case 3
    then show ?thesis by (cases enc; simp; code_simp)
  qed
  have b: "byte_of (sextet_char enc n) \<notin> {9, 10, 11, 12, 13, 32, 36, 46}"
    using assms by (auto simp: byte_of_sextet_char)
  then show "\<not> is_space (sextet_char enc n)" and "sextet_char enc n \<noteq> CHR ''.''"
    and "sextet_char enc n \<noteq> CHR ''$''"
    by (auto simp: is_space_def char_eq_byte byte_of_def)
qed

lemma those_map_Some: "\<forall>x \<in> set xs. f x = Some (g x) \<Longrightarrow> those (map f xs) = Some (map g xs)"
  by (induction xs) simp_all

lemma b64_encode_chars:
  assumes "c \<in> set (b64_encode enc s)"
  shows "\<not> is_space c \<and> c \<noteq> CHR ''.'' \<and> c \<noteq> CHR ''$''"
proof -
  have "\<forall>n \<in> set (sextets (map byte_of s)). n < 64" by (rule sextets_bound) (simp add: byte_of_less)
  with assms sextet_roundtrip show ?thesis by (fastforce simp: b64_encode_def)
qed

theorem b64_decode_encode: "b64_decode enc (b64_encode enc s) = Some s"
proof -
  let ?ss = "sextets (map byte_of s)"
  have lt: "\<forall>n \<in> set ?ss. n < 64" by (rule sextets_bound) (simp add: byte_of_less)
  have "filter (\<lambda>c. c \<noteq> CHR 0x0A \<and> c \<noteq> CHR 0x0D) (b64_encode enc s) = b64_encode enc s"
    using b64_encode_chars by (fastforce intro: filter_True simp: is_space_def)
  moreover have "those (map (char_sextet enc) (map (sextet_char enc) ?ss)) = Some (map (\<lambda>n. n) ?ss)"
    unfolding map_map by (rule those_map_Some) (use lt sextet_roundtrip in simp)
  moreover have "unsextets ?ss = Some (map byte_of s)" by (rule unsextets_sextets) (simp add: byte_of_less)
  ultimately show ?thesis by (simp add: b64_decode_def b64_encode_def comp_def char_of_byte_of)
qed

end
