(* ===== verification/Auth.thy ===== *)
theory Auth
  imports Base64 GoErrors
begin

text \<open>
  \<open>auth/\<close>: password hashes (\<open>password.go\<close>), signed session cookies (\<open>session.go\<close>) and the session
  middleware (\<open>middleware.go\<close>). Argon2id, HMAC-SHA256, and the JSON form of a session are
  parameters; the two formats around them are the code's.
\<close>

subsection \<open>Passwords\<close>

definition auth_ErrPasswordMismatch :: go_error where
  "auth_ErrPasswordMismatch = Sentinel ''password mismatch''"
definition auth_ErrInvalidHashFormat :: go_error where
  "auth_ErrInvalidHashFormat = Sentinel ''invalid hash format''"

definition argonTime :: nat where "argonTime = 2"
definition argonMemory :: nat where "argonMemory = 64 * 1024"
definition argonThreads :: nat where "argonThreads = 1"
definition argonKeyLen :: nat where "argonKeyLen = 32"

text \<open>\<open>argon2.IDKey(password, salt, time, memory, threads, keyLen)\<close>.\<close>

type_synonym idkey = "gostring \<Rightarrow> gostring \<Rightarrow> nat \<Rightarrow> nat \<Rightarrow> nat \<Rightarrow> nat \<Rightarrow> gostring"

text \<open>The salt is what \<open>rand.Read\<close> filled in, or its error.\<close>

definition HashPassword :: "idkey \<Rightarrow> (go_error + gostring) \<Rightarrow> gostring \<Rightarrow> go_error + gostring" where
  "HashPassword argon rnd plain =
     (case rnd of
        Inl e \<Rightarrow> Inl (Wrap ''read salt: '' e)
      | Inr salt \<Rightarrow>
          let key = argon plain salt argonTime argonMemory argonThreads argonKeyLen
          in Inr (''$argon2id$v=19$m='' @ nat_dec argonMemory @ '',t='' @ nat_dec argonTime @
                  '',p='' @ nat_dec argonThreads @ ''$'' @ b64_encode StdAlphabet salt @ ''$'' @
                  b64_encode StdAlphabet key))"

text \<open>
  \<open>fmt.Sscanf\<close> with the format \<open>m=%d,t=%d,p=%d\<close>: literal text must match, a number may follow
  blanks (no newline), takes all digits there are, and must fit its width. What follows the last
  number is not looked at.
\<close>

definition scan_literal :: "gostring \<Rightarrow> gostring \<Rightarrow> gostring option" where
  "scan_literal lit s = (if has_prefix s lit then Some (drop (length lit) s) else None)"

definition scan_uint :: "nat \<Rightarrow> gostring \<Rightarrow> (nat \<times> gostring) option" where
  "scan_uint bits s0 =
     (let s = dropWhile (\<lambda>c. is_space c \<and> c \<noteq> CHR 0x0A) s0; ds = takeWhile is_digit s
      in case atoi_unsigned ds of
           None \<Rightarrow> None
         | Some n \<Rightarrow> if n < 2 ^ bits then Some (n, drop (length ds) s) else None)"

definition scan_params :: "gostring \<Rightarrow> (nat \<times> nat \<times> nat) option" where
  "scan_params s =
     Option.bind (scan_literal ''m='' s) (\<lambda>s. Option.bind (scan_uint 32 s) (\<lambda>(memory, s).
     Option.bind (scan_literal '',t='' s) (\<lambda>s. Option.bind (scan_uint 32 s) (\<lambda>(time, s).
     Option.bind (scan_literal '',p='' s) (\<lambda>s. Option.bind (scan_uint 8 s) (\<lambda>(threads, s).
     Some (memory, time, threads)))))))"

text \<open>\<open>argon2.IDKey\<close> panics on a time or thread count of zero; no such hash is ever stored.\<close>

definition VerifyPassword :: "idkey \<Rightarrow> gostring \<Rightarrow> gostring \<Rightarrow> go_error option" where
  "VerifyPassword argon encoded plain =
     (let parts = go_Split CHR ''$'' encoded
      in if length parts \<noteq> 6 \<or> parts ! 1 \<noteq> ''argon2id'' then Some auth_ErrInvalidHashFormat
         else case scan_params (parts ! 3) of
                None \<Rightarrow> Some auth_ErrInvalidHashFormat
              | Some (memory, time, threads) \<Rightarrow>
                  (case (b64_decode StdAlphabet (parts ! 4), b64_decode StdAlphabet (parts ! 5)) of
                     (Some salt, Some want) \<Rightarrow>
                       if argon plain salt time memory threads (length want) = want then None
                       else Some auth_ErrPasswordMismatch
                   | _ \<Rightarrow> Some auth_ErrInvalidHashFormat))"

subsection \<open>Sessions\<close>

definition auth_ErrSessionInvalid :: go_error where
  "auth_ErrSessionInvalid = Sentinel ''session invalid''"
definition auth_ErrSessionExpired :: go_error where
  "auth_ErrSessionExpired = Sentinel ''session expired''"

record Session =
  sess_UserID :: uuid
  sess_ExpiresAt :: int

text \<open>
  What the signer is built from: the key, HMAC-SHA256, and \<open>json.Marshal\<close> and \<open>json.Unmarshal\<close> at
  the type \<open>Session\<close>.
\<close>

record session_env =
  sign_key :: gostring
  hmac_sha256 :: "gostring \<Rightarrow> gostring \<Rightarrow> gostring"
  marshalSession :: "Session \<Rightarrow> go_error + gostring"
  unmarshalSession :: "gostring \<Rightarrow> Session option"

definition NewSessionSigner :: "session_env \<Rightarrow> gostring \<Rightarrow> session_env option" where
  "NewSessionSigner S key = (if length key < 32 then None else Some (S\<lparr>sign_key := key\<rparr>))"

definition sign :: "session_env \<Rightarrow> gostring \<Rightarrow> gostring" where
  "sign S body = b64_encode URLAlphabet (hmac_sha256 S (sign_key S) body)"

definition session_Encode :: "session_env \<Rightarrow> Session \<Rightarrow> go_error + gostring" where
  "session_Encode S sess =
     (case marshalSession S sess of
        Inl e \<Rightarrow> Inl (Wrap ''marshal: '' e)
      | Inr payload \<Rightarrow> let body = b64_encode URLAlphabet payload in Inr (body @ ''.'' @ sign S body))"

definition session_Decode :: "session_env \<Rightarrow> int \<Rightarrow> gostring \<Rightarrow> go_error + Session" where
  "session_Decode S now token =
     (let parts = go_SplitN CHR ''.'' 2 token
      in if length parts \<noteq> 2 then Inl auth_ErrSessionInvalid
         else if sign S (parts ! 0) \<noteq> parts ! 1 then Inl auth_ErrSessionInvalid
         else case b64_decode URLAlphabet (parts ! 0) of
                None \<Rightarrow> Inl auth_ErrSessionInvalid
              | Some raw \<Rightarrow>
                  (case unmarshalSession S raw of
                     None \<Rightarrow> Inl auth_ErrSessionInvalid
                   | Some sess \<Rightarrow>
                       if sess_ExpiresAt sess < now then Inl auth_ErrSessionExpired else Inr sess))"

text \<open>
  The middleware: the cookie's value, if there is one, decides between the handler, run as the
  session's user, and a 401 answer.
\<close>

datatype 'a guarded = Unauthenticated | Handled 'a

definition RequireSession :: "session_env \<Rightarrow> int \<Rightarrow> (uuid \<Rightarrow> 'a) \<Rightarrow> gostring option \<Rightarrow> 'a guarded" where
  "RequireSession S now next cookie =
     (case cookie of
        None \<Rightarrow> Unauthenticated
      | Some value \<Rightarrow>
          (case session_Decode S now value of
             Inl _ \<Rightarrow> Unauthenticated
           | Inr sess \<Rightarrow> Handled (next (sess_UserID sess))))"

subsection \<open>The password format\<close>

lemma scan_literal_append: "scan_literal lit (lit @ s) = Some s"
  by (simp add: scan_literal_def has_prefix_iff)

lemma digit_not_space: "is_digit c \<Longrightarrow> \<not> is_space c"
  by (auto simp: is_digit_def is_space_def byte_of_def)

lemma scan_uint_dec:
  assumes "n < 2 ^ bits" and "s = [] \<or> \<not> is_digit (hd s)"
  shows "scan_uint bits (nat_dec n @ s) = Some (n, s)"
proof -
  have "takeWhile is_digit (nat_dec n @ s) = nat_dec n @ takeWhile is_digit s"
    by (rule takeWhile_append2) (rule nat_dec_digits)
  moreover have "takeWhile is_digit s = []" using assms(2) by (cases s) auto
  ultimately have "takeWhile is_digit (nat_dec n @ s) = nat_dec n" by simp
  moreover obtain c t where ct: "nat_dec n = c # t" by (cases "nat_dec n") simp_all
  have "\<not> is_space c" using ct digit_not_space nat_dec_digits[of c n] by auto
  with ct have "dropWhile (\<lambda>c. is_space c \<and> c \<noteq> CHR 0x0A) (nat_dec n @ s) = nat_dec n @ s" by simp
  ultimately show ?thesis using assms(1) by (simp add: scan_uint_def Let_def atoi_unsigned_def)
qed

lemma scan_params_printed:
  assumes "m < 2 ^ 32" and "t < 2 ^ 32" and "p < 2 ^ 8"
  shows "scan_params (''m='' @ nat_dec m @ '',t='' @ nat_dec t @ '',p='' @ nat_dec p) = Some (m, t, p)"
proof -
  have "scan_uint 8 (nat_dec p @ []) = Some (p, [])" by (rule scan_uint_dec) (use assms in simp_all)
  moreover have "scan_uint 32 (nat_dec t @ '',p='' @ nat_dec p) = Some (t, '',p='' @ nat_dec p)"
    and "scan_uint 32 (nat_dec m @ '',t='' @ nat_dec t @ '',p='' @ nat_dec p) =
           Some (m, '',t='' @ nat_dec t @ '',p='' @ nat_dec p)"
    by (rule scan_uint_dec; use assms in \<open>simp add: is_digit_def byte_of_def\<close>)+
  ultimately show ?thesis
    unfolding scan_params_def by (simp only: scan_literal_append bind.simps split_conv append_Nil2)
qed

lemma hash_parts:
  fixes salt key :: gostring
  shows "go_Split CHR ''$'' (''$argon2id$v=19$m='' @ nat_dec m @ '',t='' @ nat_dec t @ '',p='' @ nat_dec p @ ''$'' @
     b64_encode StdAlphabet salt @ ''$'' @ b64_encode StdAlphabet key) =
   [[], ''argon2id'', ''v=19'', ''m='' @ nat_dec m @ '',t='' @ nat_dec t @ '',p='' @ nat_dec p,
    b64_encode StdAlphabet salt, b64_encode StdAlphabet key]"
proof -
  let ?ps = "[[], ''argon2id'', ''v=19'', ''m='' @ nat_dec m @ '',t='' @ nat_dec t @ '',p='' @ nat_dec p,
    b64_encode StdAlphabet salt, b64_encode StdAlphabet key]"
  have d: "CHR ''$'' \<notin> set (nat_dec n)" for n
    using nat_dec_digits[of "CHR ''$''" n] by (auto simp: is_digit_def byte_of_def)
  have b: "CHR ''$'' \<notin> set (b64_encode StdAlphabet x)" for x using b64_encode_chars by blast
  have "go_Split CHR ''$'' (go_Join [CHR ''$''] ?ps) = ?ps"
    by (rule go_Split_Join) (use d b in auto)
  then show ?thesis by simp
qed

text \<open>The hash made for a password verifies exactly the passwords with the same Argon2id key under
  its salt and parameters, so the password itself always verifies; a wrong one is reported as a
  mismatch, never as a malformed hash.\<close>

theorem VerifyPassword_HashPassword:
  assumes "HashPassword argon (Inr salt) plain = Inr hash"
    and "\<And>p s t m h n. length (argon p s t m h n) = n"
  shows "VerifyPassword argon hash plain = None \<and>
    VerifyPassword argon hash other =
      (if argon other salt argonTime argonMemory argonThreads argonKeyLen =
          argon plain salt argonTime argonMemory argonThreads argonKeyLen
       then None else Some auth_ErrPasswordMismatch)"
proof -
  have h: "hash = ''$argon2id$v=19$m='' @ nat_dec argonMemory @ '',t='' @ nat_dec argonTime @ '',p='' @
      nat_dec argonThreads @ ''$'' @ b64_encode StdAlphabet salt @ ''$'' @
      b64_encode StdAlphabet (argon plain salt argonTime argonMemory argonThreads argonKeyLen)"
    using assms(1) by (simp add: HashPassword_def Let_def)
  have "scan_params (''m='' @ nat_dec argonMemory @ '',t='' @ nat_dec argonTime @ '',p='' @ nat_dec argonThreads)
      = Some (argonMemory, argonTime, argonThreads)"
    by (rule scan_params_printed) (simp_all add: argonMemory_def argonTime_def argonThreads_def)
  then have "VerifyPassword argon hash q =
      (if argon q salt argonTime argonMemory argonThreads argonKeyLen =
          argon plain salt argonTime argonMemory argonThreads argonKeyLen
       then None else Some auth_ErrPasswordMismatch)" for q
    unfolding h VerifyPassword_def by (simp add: hash_parts b64_decode_encode assms(2) del: append.simps(2))
  then show ?thesis by simp
qed

definition demo_argon :: idkey where
  "demo_argon p s t m h n = take n (p @ s @ replicate n CHR ''x'')"

lemma VerifyPassword_HashPassword_witness:
  "\<exists>hash. HashPassword demo_argon (Inr ''0123456789abcdef'') ''correct-horse'' = Inr hash \<and>
     VerifyPassword demo_argon hash ''correct-horse'' = None \<and>
     VerifyPassword demo_argon hash ''battery-staple'' = Some auth_ErrPasswordMismatch"
proof -
  obtain hash where h: "HashPassword demo_argon (Inr ''0123456789abcdef'') ''correct-horse'' = Inr hash"
    by (simp add: HashPassword_def Let_def)
  have "length (demo_argon p s t m h n) = n" for p s t m h n by (simp add: demo_argon_def)
  moreover have "demo_argon ''battery-staple'' ''0123456789abcdef'' argonTime argonMemory argonThreads argonKeyLen \<noteq>
      demo_argon ''correct-horse'' ''0123456789abcdef'' argonTime argonMemory argonThreads argonKeyLen"
    by (simp add: demo_argon_def argonKeyLen_def)
  ultimately show ?thesis using VerifyPassword_HashPassword[OF h, of "''battery-staple''"] h by simp
qed

subsection \<open>The session cookie\<close>

lemma SplitN_2_parts:
  "length (go_SplitN sep 2 s) = 2 \<longleftrightarrow> (\<exists>p t. s = p @ sep # t \<and> sep \<notin> set p)"
  using go_SplitN_2_cases[of sep s]
proof (elim disjE exE conjE)
  assume "go_SplitN sep 2 s = [s]" and "sep \<notin> set s"
  then show ?thesis by auto
next
  fix p t assume "go_SplitN sep 2 s = [p, t]" and "s = p @ sep # t" and "sep \<notin> set p"
  then show ?thesis by auto
qed

text \<open>A token is accepted exactly when it is a body and the signature of that body, the body decodes
  to a session, and the session has not expired. Nothing unsigned is ever looked at.\<close>

theorem session_Decode_iff:
  "session_Decode S now token = Inr sess \<longleftrightarrow>
     (\<exists>body raw. token = body @ ''.'' @ sign S body \<and> CHR ''.'' \<notin> set body \<and>
        b64_decode URLAlphabet body = Some raw \<and> unmarshalSession S raw = Some sess \<and>
        now \<le> sess_ExpiresAt sess)"
proof
  assume dec: "session_Decode S now token = Inr sess"
  then have "length (go_SplitN CHR ''.'' 2 token) = 2" by (auto simp: session_Decode_def Let_def split: if_splits)
  then obtain p t where t: "token = p @ CHR ''.'' # t" "CHR ''.'' \<notin> set p" by (auto simp: SplitN_2_parts)
  with dec have "sign S p = t \<and> (\<exists>raw. b64_decode URLAlphabet p = Some raw \<and> unmarshalSession S raw = Some sess) \<and>
      now \<le> sess_ExpiresAt sess"
    by (auto simp: session_Decode_def Let_def go_SplitN_2_sep split: if_splits option.splits)
  with t show "\<exists>body raw. token = body @ ''.'' @ sign S body \<and> CHR ''.'' \<notin> set body \<and>
        b64_decode URLAlphabet body = Some raw \<and> unmarshalSession S raw = Some sess \<and>
        now \<le> sess_ExpiresAt sess" by auto
next
  assume "\<exists>body raw. token = body @ ''.'' @ sign S body \<and> CHR ''.'' \<notin> set body \<and>
        b64_decode URLAlphabet body = Some raw \<and> unmarshalSession S raw = Some sess \<and>
        now \<le> sess_ExpiresAt sess"
  then show "session_Decode S now token = Inr sess"
    by (auto simp: session_Decode_def Let_def go_SplitN_2_sep)
qed

text \<open>What \<open>Encode\<close> returns for a session decodes to that session until it expires and is refused
  as expired from then on; so the middleware runs the handler as exactly the session's user.\<close>

theorem session_roundtrip:
  assumes "session_Encode S sess = Inr token"
    and "\<And>s raw. marshalSession S s = Inr raw \<Longrightarrow> unmarshalSession S raw = Some s"
  shows "session_Decode S now token =
           (if now \<le> sess_ExpiresAt sess then Inr sess else Inl auth_ErrSessionExpired) \<and>
         RequireSession S now next (Some token) =
           (if now \<le> sess_ExpiresAt sess then Handled (next (sess_UserID sess)) else Unauthenticated)"
proof -
  obtain raw where m: "marshalSession S sess = Inr raw"
    and t: "token = b64_encode URLAlphabet raw @ CHR ''.'' # sign S (b64_encode URLAlphabet raw)"
    using assms(1) by (auto simp: session_Encode_def Let_def split: sum.splits)
  have "CHR ''.'' \<notin> set (b64_encode URLAlphabet raw)" using b64_encode_chars by blast
  then have "session_Decode S now token =
      (if now \<le> sess_ExpiresAt sess then Inr sess else Inl auth_ErrSessionExpired)"
    using assms(2)[OF m] by (simp add: session_Decode_def Let_def t go_SplitN_2_sep b64_decode_encode)
  then show ?thesis by (simp add: RequireSession_def)
qed

definition demo_signer :: session_env where
  "demo_signer = \<lparr>sign_key = replicate 32 CHR ''k'', hmac_sha256 = (\<lambda>k b. take 4 k @ rev b),
     marshalSession = (\<lambda>s. if sess_ExpiresAt s < 0 then Inl (NewError ''year outside of range'')
       else Inr (nat_dec (sess_UserID s) @ CHR ''@'' # nat_dec (nat (sess_ExpiresAt s)))),
     unmarshalSession = (\<lambda>raw. case go_SplitN CHR ''@'' 2 raw of
        [u, e] \<Rightarrow> (case (atoi_unsigned u, atoi_unsigned e) of
           (Some u, Some e) \<Rightarrow> Some \<lparr>sess_UserID = u, sess_ExpiresAt = int e\<rparr> | _ \<Rightarrow> None)
      | _ \<Rightarrow> None)\<rparr>"

lemma demo_signer_codec:
  "marshalSession demo_signer s = Inr raw \<Longrightarrow> unmarshalSession demo_signer raw = Some s"
proof -
  have "CHR ''@'' \<notin> set (nat_dec n)" for n
    using nat_dec_digits[of "CHR ''@''" n] by (auto simp: is_digit_def byte_of_def)
  then show "marshalSession demo_signer s = Inr raw \<Longrightarrow> unmarshalSession demo_signer raw = Some s"
    by (auto simp: demo_signer_def go_SplitN_2_sep atoi_unsigned_def split: if_splits)
qed

lemma session_roundtrip_witness:
  "\<exists>token. session_Encode demo_signer \<lparr>sess_UserID = 7, sess_ExpiresAt = 100\<rparr> = Inr token \<and>
     RequireSession demo_signer 99 (\<lambda>u. u) (Some token) = Handled 7 \<and>
     session_Decode demo_signer 101 token = Inl auth_ErrSessionExpired"
proof -
  let ?s = "\<lparr>sess_UserID = 7, sess_ExpiresAt = 100\<rparr>"
  obtain token where t: "session_Encode demo_signer ?s = Inr token"
    by (simp add: session_Encode_def demo_signer_def Let_def)
  show ?thesis
    using t session_roundtrip[OF t demo_signer_codec, of 99 "\<lambda>u. u"]
      session_roundtrip[OF t demo_signer_codec, of 101 "\<lambda>u. u"] by simp
qed

end
