(* ===== verification/Http.thy ===== *)
theory Http
  imports DbInvariant Auth
begin

text \<open>
  The responses of the HTTP handlers and \<open>httperr/httperr.go\<close>. A response is its status, the session
  cookie it sets or clears and what is handed to the JSON encoder; the encoder itself, the content
  type and the cookie attributes that never change are left out. A request body is the decoded
  value, with no value where decoding fails.
\<close>

datatype 'b body = NoBody | ErrorBody gostring | JsonBody 'b

text \<open>A JSON object or an array of them.\<close>

datatype 'a reply = One 'a | Many "'a list"

text \<open>The two cookies: token, expiry and \<open>Secure\<close> of a new session, or the removal of the cookie.\<close>

datatype cookie = SetSession gostring int bool | ClearSession bool

record 'b response =
  status :: int
  cookie :: "cookie option"
  body :: "'b body"

text \<open>What a handler takes from the request besides its body, and the parsers of the libraries.\<close>

record http_request =
  rq_RemoteAddr :: gostring
  rq_TLS :: bool
  rq_now :: int

record http_env =
  he_SplitHostPort :: "gostring \<Rightarrow> gostring option"
  he_ParseIP :: "gostring \<Rightarrow> gostring option"
  he_marshal :: "(gostring, gostring) gomap \<Rightarrow> go_error + gostring"
  he_session :: session_env
  he_uuidString :: "uuid \<Rightarrow> gostring"
  he_uuidParse :: "gostring \<Rightarrow> errtext + uuid"

text \<open>\<open>uid, _ := auth.UserIDFrom(ctx)\<close>: the zero UUID without a session.\<close>

definition uid_or_zero :: "uuid option \<Rightarrow> uuid" where
  "uid_or_zero uid = (case uid of None \<Rightarrow> 0 | Some u \<Rightarrow> u)"

type_synonym ('s, 'b) handler = "'s \<Rightarrow> 'b response \<times> 's"

definition httperr_Write :: "int \<Rightarrow> gostring \<Rightarrow> 'b response" where
  "httperr_Write st msg = \<lparr>status = st, cookie = None, body = ErrorBody msg\<rparr>"

definition internal_error :: "'b response" where
  "internal_error = httperr_Write 500 ''internal error''"

text \<open>
  The switch over the errors of a service: the first listed error the given one is decides, any
  other error is an internal one.
\<close>

fun err_response :: "(go_error \<times> int \<times> gostring) list \<Rightarrow> go_error \<Rightarrow> 'b response" where
  "err_response [] err = internal_error"
| "err_response ((target, st, msg) # cases) err =
     (if errors_Is err target then httperr_Write st msg else err_response cases err)"

text \<open>Call a service; on an error respond, otherwise go on with the value.\<close>

definition serve ::
  "('s, 'a) call \<Rightarrow> (go_error \<Rightarrow> 'b response) \<Rightarrow> ('a \<Rightarrow> ('s, 'b) handler) \<Rightarrow> ('s, 'b) handler" where
  "serve m failed k s = (case m s of (Inl err, s) \<Rightarrow> (failed err, s) | (Inr a, s) \<Rightarrow> k a s)"

definition respond :: "int \<Rightarrow> 'b body \<Rightarrow> ('s, 'b) handler" where
  "respond st b s = (\<lparr>status = st, cookie = None, body = b\<rparr>, s)"

definition refuse :: "int \<Rightarrow> gostring \<Rightarrow> ('s, 'b) handler" where
  "refuse st msg s = (httperr_Write st msg, s)"

lemma serve_Inl [simp]: "m s = (Inl err, s') \<Longrightarrow> serve m failed k s = (failed err, s')"
  and serve_Inr [simp]: "m s = (Inr a, s') \<Longrightarrow> serve m failed k s = k a s'"
  by (simp_all add: serve_def)

lemma httperr_Write_simps [simp]:
  "status (httperr_Write st msg) = st" "body (httperr_Write st msg) = ErrorBody msg"
  "cookie (httperr_Write st msg) = None"
  "httperr_Write st msg = httperr_Write st' msg' \<longleftrightarrow> st = st' \<and> msg = msg'"
  by (auto simp: httperr_Write_def)

lemma snd_respond [simp]: "snd (respond st b s) = s" "snd (refuse st2 msg s) = s"
  by (simp_all add: respond_def refuse_def)

lemma fst_respond [simp]: "fst (respond st b s) = \<lparr>status = st, cookie = None, body = b\<rparr>" "fst (refuse st2 msg s) = httperr_Write st2 msg"
  by (simp_all add: respond_def refuse_def)

text \<open>Error statuses are client or server errors: no error is answered as a success.\<close>

lemma err_response_status:
  "list_all (\<lambda>(_, st, _). 400 \<le> st) cases \<Longrightarrow> 400 \<le> status (err_response cases err)"
  by (induction cases err rule: err_response.induct) (auto simp: internal_error_def)

text \<open>What holds of a state before a handler runs holds after it.\<close>

definition serves :: "('s \<Rightarrow> bool) \<Rightarrow> ('s, 'b) handler \<Rightarrow> bool" where
  "serves P h = (\<forall>s. P s \<longrightarrow> P (snd (h s)))"

lemma servesI: "(\<And>s. P s \<Longrightarrow> P (snd (h s))) \<Longrightarrow> serves P h"
  by (simp add: serves_def)

lemma servesD: "serves P h \<Longrightarrow> P s \<Longrightarrow> P (snd (h s))"
  by (simp add: serves_def)

named_theorems serves_intros \<open>handlers that preserve an invariant\<close>

lemma serves_respond [serves_intros]: "serves P (respond st b)" "serves P (refuse st msg)"
  by (simp_all add: serves_def)

lemma serves_serve [serves_intros]:
  "keeps P m \<Longrightarrow> (\<And>a. serves P (k a)) \<Longrightarrow> serves P (serve m failed k)"
  by (fastforce simp: keeps_def serves_def serve_def split: prod.split sum.split)

lemma serves_if [serves_intros]:
  "(c \<Longrightarrow> serves P h) \<Longrightarrow> (\<not> c \<Longrightarrow> serves P k) \<Longrightarrow> serves P (if c then h else k)"
  by simp

lemma serves_option [serves_intros]:
  "serves P h \<Longrightarrow> (\<And>x. serves P (k x)) \<Longrightarrow> serves P (case z of None \<Rightarrow> h | Some x \<Rightarrow> k x)"
  by (cases z) simp_all

lemma serves_sum [serves_intros]:
  "(\<And>e. serves P (h e)) \<Longrightarrow> (\<And>x. serves P (k x)) \<Longrightarrow> serves P (case z of Inl e \<Rightarrow> h e | Inr x \<Rightarrow> k x)"
  by (cases z) simp_all

end
