(* ===== verification/Users.thy ===== *)
theory Users
  imports DbInvariant Auth Names
begin

text \<open>
  The service of \<open>users/service.go\<close>: sign-up, authentication, look-up and removal. The parser of
  \<open>net/mail\<close> and the two password functions (\<open>Auth\<close> with Argon2id and a salt put in) are
  parameters.
\<close>

record users_env =
  parseAddress :: "gostring \<Rightarrow> gostring option"
  hashPassword :: "gostring \<Rightarrow> go_error + gostring"
  verifyPassword :: "gostring \<Rightarrow> gostring \<Rightarrow> go_error option"

definition users_ErrEmailTaken :: go_error where
  "users_ErrEmailTaken = Sentinel ''email already registered''"
definition users_ErrSlugTaken :: go_error where
  "users_ErrSlugTaken = Sentinel ''slug already taken''"
definition users_ErrInvalidEmail :: go_error where
  "users_ErrInvalidEmail = Sentinel ''invalid email''"
definition users_ErrInvalidSlug :: go_error where
  "users_ErrInvalidSlug = Sentinel ''invalid slug''"
definition users_ErrPasswordTooShort :: go_error where
  "users_ErrPasswordTooShort = Sentinel ''password too short''"
definition users_ErrNotFound :: go_error where
  "users_ErrNotFound = Sentinel ''user not found''"
definition users_ErrBadCredentials :: go_error where
  "users_ErrBadCredentials = Sentinel ''bad credentials''"

definition minPasswordLen :: nat where
  "minPasswordLen = 12"

definition isUniqueViolation :: "go_error \<Rightarrow> gostring \<Rightarrow> bool" where
  "isUniqueViolation err constraint =
     (case errors_As_pg err of
        None \<Rightarrow> False
      | Some (code, con) \<Rightarrow> if code \<noteq> ''23505'' then False else con = constraint)"

definition signup_insert :: "gostring \<Rightarrow> gostring \<Rightarrow> gostring \<Rightarrow> (db, uuid) call" where
  "signup_insert email slug hash = stmt (with_state (\<lambda>d.
     and_then gen_random_uuid (\<lambda>i. and_then
       (insert_user \<lparr>user_ID = i, user_Email = email, user_Slug = slug, user_PasswordHash = hash,
                     user_CreatedAt = db_now d\<rparr>)
       (\<lambda>_. give i))))"

definition signup_error :: "go_error \<Rightarrow> go_error" where
  "signup_error err =
     (if isUniqueViolation err ''users_email_key'' then users_ErrEmailTaken
      else if isUniqueViolation err ''users_slug_key'' then users_ErrSlugTaken
      else Wrap ''insert: '' err)"

definition Signup :: "users_env \<Rightarrow> gostring \<Rightarrow> gostring \<Rightarrow> gostring \<Rightarrow> (db, User) call" where
  "Signup U email slug0 password =
     (case parseAddress U email of
        None \<Rightarrow> give_error users_ErrInvalidEmail
      | Some addr \<Rightarrow>
          let emailNorm = go_ToLower addr; slug = go_ToLower (go_TrimSpace slug0)
          in if \<not> slugRe slug then give_error users_ErrInvalidSlug
             else if length password < minPasswordLen then give_error users_ErrPasswordTooShort
             else (case hashPassword U password of
                     Inl err \<Rightarrow> give_error (Wrap ''hash: '' err)
                   | Inr hash \<Rightarrow>
                       and_then (on_error signup_error (signup_insert emailNorm slug hash))
                         (\<lambda>i. give \<lparr>user_ID = i, user_Email = emailNorm, user_Slug = slug\<rparr>)))"

text \<open>\<open>lower(email) = $1\<close> selects the row.\<close>

definition Authenticate :: "users_env \<Rightarrow> gostring \<Rightarrow> gostring \<Rightarrow> (db, User) call" where
  "Authenticate U email password =
     (case parseAddress U email of
        None \<Rightarrow> give_error users_ErrBadCredentials
      | Some addr \<Rightarrow>
          let emailNorm = go_ToLower addr
          in and_then
               (on_error (\<lambda>err. if errors_Is err NoRows then users_ErrBadCredentials else Wrap ''select: '' err)
                 (stmt (query_row t_users (\<lambda>u. go_ToLower (user_Email u) = emailNorm))))
               (\<lambda>u. if verifyPassword U (user_PasswordHash u) password \<noteq> None
                    then give_error users_ErrBadCredentials
                    else give \<lparr>user_ID = user_ID u, user_Email = emailNorm, user_Slug = user_Slug u\<rparr>))"

definition users_ByID :: "uuid \<Rightarrow> (db, User) call" where
  "users_ByID i =
     and_then
       (on_error (\<lambda>err. if errors_Is err NoRows then users_ErrNotFound else Wrap ''select: '' err)
         (stmt (query_row t_users (\<lambda>u. user_ID u = i))))
       (\<lambda>u. give \<lparr>user_ID = i, user_Email = user_Email u, user_Slug = user_Slug u\<rparr>)"

definition HardDelete :: "uuid \<Rightarrow> (db, unit) call" where
  "HardDelete i =
     and_then (on_error (Wrap ''delete user: '') (stmt (delete_user i)))
       (\<lambda>n. if n = 0 then give_error users_ErrNotFound else give ())"

lemmas users_errors = users_ErrEmailTaken_def users_ErrSlugTaken_def users_ErrInvalidEmail_def
  users_ErrInvalidSlug_def users_ErrPasswordTooShort_def users_ErrNotFound_def users_ErrBadCredentials_def

subsection \<open>The service keeps the invariants\<close>

lemma keeps_signup_insert [keeps_intros]: "keeps db_wf (signup_insert email slug hash)"
  unfolding signup_insert_def by (intro keeps_intros)

lemma keeps_Signup [keeps_intros]: "keeps db_wf (Signup U email slug password)"
  unfolding Signup_def Let_def
  by (auto split: option.split sum.split intro!: keeps_intros)

lemma keeps_Authenticate [keeps_intros]: "keeps db_wf (Authenticate U email password)"
  unfolding Authenticate_def Let_def by (auto split: option.split intro!: keeps_intros)

lemma keeps_users_ByID [keeps_intros]: "keeps db_wf (users_ByID i)"
  unfolding users_ByID_def by (intro keeps_intros)

lemma keeps_HardDelete [keeps_intros]: "keeps db_wf (HardDelete i)"
  unfolding HardDelete_def by (intro keeps_intros)

text \<open>
  What sign-up promises of the accounts: the slug has the shape that tags and hostnames rely on,
  and the stored email is in lower case.
\<close>

definition accounts_ok :: "db \<Rightarrow> bool" where
  "accounts_ok d \<longleftrightarrow> (\<forall>u \<in> set (t_users d). slugRe (user_Slug u) \<and> go_ToLower (user_Email u) = user_Email u)"

lemma accounts_ok_insert:
  "accounts_ok d \<Longrightarrow> slugRe slug \<Longrightarrow> go_ToLower email = email \<Longrightarrow>
   accounts_ok (snd (signup_insert email slug hash d))"
  by (auto simp: accounts_ok_def signup_insert_def stmt_def with_state_def gen_random_uuid_def and_then_def
      insert_user_def give_def split: list.split option.split prod.splits sum.splits)

lemma keeps_accounts_Signup: "keeps accounts_ok (Signup U email slug password)"
proof (rule keepsI)
  fix d assume ok: "accounts_ok d"
  then have "slugRe sl \<Longrightarrow> accounts_ok (snd (and_then (on_error signup_error (signup_insert (go_ToLower a) sl h))
      (\<lambda>i. give (f i)) d))" for sl a h and f :: "uuid \<Rightarrow> User"
    using accounts_ok_insert[OF ok, of sl "go_ToLower a" h]
    by (auto simp: and_then_def on_error_def give_def split: prod.splits sum.splits)
  with ok show "accounts_ok (snd (Signup U email slug password d))"
    by (auto simp: Signup_def Let_def give_error_def split: option.split sum.split)
qed

subsection \<open>What sign-up decides\<close>

text \<open>
  The answer of sign-up as a decision list over the database, in the order of the checks.
\<close>

definition signup_decision ::
  "users_env \<Rightarrow> gostring \<Rightarrow> gostring \<Rightarrow> gostring \<Rightarrow> db \<Rightarrow> go_error + User" where
  "signup_decision U email slug0 password d =
     (case parseAddress U email of
        None \<Rightarrow> Inl users_ErrInvalidEmail
      | Some addr \<Rightarrow>
          let e = go_ToLower addr; s = go_ToLower (go_TrimSpace slug0) in
          if \<not> slugRe s then Inl users_ErrInvalidSlug
          else if length password < 12 then Inl users_ErrPasswordTooShort
          else if \<exists>u \<in> set (t_users d). user_Email u = e then Inl users_ErrEmailTaken
          else if \<exists>u \<in> set (t_users d). user_Slug u = s then Inl users_ErrSlugTaken
          else Inr \<lparr>user_ID = db_uuid d (db_uuid_next d), user_Email = e, user_Slug = s\<rparr>)"

lemma signup_insert_result:
  assumes "fault_free d" and "\<forall>u \<in> set (t_users d). user_ID u \<noteq> db_uuid d (db_uuid_next d)"
  shows "fst (on_error signup_error (signup_insert e s h) d) =
    (if \<exists>u \<in> set (t_users d). user_Email u = e then Inl users_ErrEmailTaken
     else if \<exists>u \<in> set (t_users d). user_Slug u = s then Inl users_ErrSlugTaken
     else Inr (db_uuid d (db_uuid_next d)))"
  using assms
  by (simp add: stmt_fault_free on_error_def signup_insert_def with_state_def and_then_def gen_random_uuid_def
      insert_user_def exists_row_iff give_def signup_error_def isUniqueViolation_def)

text \<open>With no failing statement and a fresh random id, sign-up answers exactly by the decision list:
  address, slug shape, password length, then email and slug taken, in this order; only the last
  case creates an account.\<close>

theorem Signup_decides:
  assumes "fault_free d" and "\<forall>u \<in> set (t_users d). user_ID u \<noteq> db_uuid d (db_uuid_next d)"
    and "\<And>p. \<exists>h. hashPassword U p = Inr h"
  shows "fst (Signup U email slug password d) = signup_decision U email slug password d"
proof (cases "parseAddress U email")
  case None
  then show ?thesis by (simp add: Signup_def signup_decision_def give_error_def)
next
  case (Some addr)
  obtain h where h: "hashPassword U password = Inr h" using assms(3) by blast
  have "fst (and_then (on_error signup_error (signup_insert e s h)) (\<lambda>i. give (f i)) d) =
      map_sum id f (fst (on_error signup_error (signup_insert e s h) d))" for e s and f :: "uuid \<Rightarrow> User"
    by (simp add: and_then_def give_def split: prod.split sum.split)
  then show ?thesis using Some h
    by (simp add: Signup_def signup_decision_def Let_def give_error_def minPasswordLen_def
        signup_insert_result[OF assms(1,2)])
qed

lemma signup_insert_cases:
  "case signup_insert e s h d of
      (Inl x, d') \<Rightarrow> t_users d' = t_users d
    | (Inr i, d') \<Rightarrow> (\<exists>c. t_users d' = t_users d @
          [\<lparr>user_ID = i, user_Email = e, user_Slug = s, user_PasswordHash = h, user_CreatedAt = c\<rparr>]) \<and>
        \<not> exists_row (\<lambda>x. user_ID x = i) (t_users d) \<and> t_nodes d' = t_nodes d \<and> (fault_free d \<longrightarrow> fault_free d')"
  by (auto simp: signup_insert_def stmt_def with_state_def gen_random_uuid_def and_then_def insert_user_def
      give_def fault_free_def split: list.split option.split prod.splits sum.splits if_splits)

lemma Signup_error:
  assumes "Signup U email slug password d = (Inl e, d')"
  shows "t_users d' = t_users d"
proof -
  have "d' = d \<or> (\<exists>e s h y. signup_insert e s h d = (Inl y, d'))"
    using assms by (auto simp: Signup_def Let_def call_iffs split: option.splits sum.splits if_splits)
  then show ?thesis
  proof (elim disjE exE)
    fix e s h y assume "signup_insert e s h d = (Inl y, d')"
    with signup_insert_cases[where e = e and s = s and h = h and d = d] show ?thesis by simp
  qed simp
qed

lemma Signup_ok:
  assumes "Signup U email slug password d = (Inr u, d')"
  obtains r where "t_users d' = t_users d @ [r]" "User.truncate r = u" "user_ID r = user_ID u"
    "slugRe (user_Slug u)" "\<not> exists_row (\<lambda>x. user_ID x = user_ID u) (t_users d)" "t_nodes d' = t_nodes d"
    "fault_free d \<Longrightarrow> fault_free d'"
proof -
  from assms obtain e s h i where ins: "signup_insert e s h d = (Inr i, d')" "slugRe s"
    and u: "u = \<lparr>user_ID = i, user_Email = e, user_Slug = s\<rparr>"
    by (auto simp: Signup_def Let_def call_iffs split: option.splits sum.splits if_splits)
  from ins(1) signup_insert_cases[where e = e and s = s and h = h and d = d] obtain c where "t_users d' = t_users d @
      [\<lparr>user_ID = i, user_Email = e, user_Slug = s, user_PasswordHash = h, user_CreatedAt = c\<rparr>]"
    and more: "\<not> exists_row (\<lambda>x. user_ID x = i) (t_users d)" "t_nodes d' = t_nodes d" "fault_free d \<longrightarrow> fault_free d'"
    by auto
  then show ?thesis using ins(2) u by (intro that) (auto simp: User.defs)
qed

text \<open>Sign-up adds the one account it returns and nothing else when it succeeds, and changes no table
  when it fails; the slug of every account stays well formed and every stored email in lower case.\<close>

theorem Signup_effect:
  "(case Signup U email slug password d of
      (Inl e, d') \<Rightarrow> t_users d' = t_users d
    | (Inr u, d') \<Rightarrow> (\<exists>r. t_users d' = t_users d @ [r] \<and> User.truncate r = u \<and> slugRe (user_Slug u))) \<and>
   (accounts_ok d \<longrightarrow> accounts_ok (snd (Signup U email slug password d))) \<and>
   (db_wf d \<longrightarrow> db_wf (snd (Signup U email slug password d)))"
  using keepsD[OF keeps_accounts_Signup] keepsD[OF keeps_Signup]
  by (auto split: prod.split sum.split elim!: Signup_ok dest: Signup_error)


definition demo_users :: users_env where
  "demo_users = \<lparr>parseAddress = (\<lambda>s. if CHR ''@'' \<in> set s then Some s else None),
     hashPassword = (\<lambda>p. Inr (''H'' @ p)),
     verifyPassword = (\<lambda>h p. if h = ''H'' @ p then None else Some auth_ErrPasswordMismatch)\<rparr>"

lemma Signup_decides_witness:
  "fst (Signup demo_users ''Alice@Example.com'' '' Alice '' ''correct-horse'' (empty_db (\<lambda>n. n + 7) 0)) =
     Inr \<lparr>user_ID = 7, user_Email = ''alice@example.com'', user_Slug = ''alice''\<rparr>"
proof -
  have "fst (Signup demo_users ''Alice@Example.com'' '' Alice '' ''correct-horse'' (empty_db (\<lambda>n. n + 7) 0)) =
      signup_decision demo_users ''Alice@Example.com'' '' Alice '' ''correct-horse'' (empty_db (\<lambda>n. n + 7) 0)"
    by (rule Signup_decides) (simp_all add: demo_users_def)
  also have "\<dots> = Inr \<lparr>user_ID = 7, user_Email = ''alice@example.com'', user_Slug = ''alice''\<rparr>" by code_simp
  finally show ?thesis .
qed

lemma Signup_effect_witness:
  "\<exists>u d'. Signup demo_users ''Alice@Example.com'' '' Alice '' ''correct-horse'' (empty_db (\<lambda>n. n + 7) 0) = (Inr u, d') \<and>
     map User.truncate (t_users d') = [u] \<and> accounts_ok d' \<and> db_wf d'"
proof -
  let ?d = "empty_db (\<lambda>n. n + 7) 0"
  let ?r = "Signup demo_users ''Alice@Example.com'' '' Alice '' ''correct-horse'' ?d"
  have "fst ?r = Inr \<lparr>user_ID = 7, user_Email = ''alice@example.com'', user_Slug = ''alice''\<rparr>" by code_simp
  then obtain u d' where r: "?r = (Inr u, d')" by (metis prod.collapse)
  moreover have "accounts_ok ?d" by (simp add: accounts_ok_def)
  ultimately show ?thesis
    using Signup_effect[where U = demo_users and email = "''Alice@Example.com''" and slug = "'' Alice ''" and
      password = "''correct-horse''" and d = ?d] empty_db_wf
    by auto
qed

text \<open>An account can be used right after sign-up: whoever signed up authenticates with the same
  address, in any letter case, and the same password as the same user, and with no password that
  the hash does not verify.\<close>

theorem Signup_then_Authenticate:
  assumes "Signup U email slug password d = (Inr u, d')"
    and "accounts_ok d" and "fault_free d'"
    and "parseAddress U email' = Some a'" and "parseAddress U email = Some a" and "go_ToLower a' = go_ToLower a"
    and "hashPassword U password = Inr h"
  shows "fst (Authenticate U email' password' d') =
    (if verifyPassword U h password' = None then Inr u else Inl users_ErrBadCredentials)"
proof -
  let ?e = "go_ToLower a"
  obtain i where ins: "signup_insert ?e (go_ToLower (go_TrimSpace slug)) h d = (Inr i, d')"
    and u: "u = \<lparr>user_ID = i, user_Email = ?e, user_Slug = go_ToLower (go_TrimSpace slug)\<rparr>"
    using assms(1,5,7) by (auto simp: Signup_def Let_def call_iffs split: if_splits)
  then obtain c where t: "t_users d' = t_users d @ [\<lparr>user_ID = i, user_Email = ?e,
      user_Slug = go_ToLower (go_TrimSpace slug), user_PasswordHash = h, user_CreatedAt = c\<rparr>]"
    and new: "\<forall>x \<in> set (t_users d). user_Email x \<noteq> ?e"
    by (auto simp: signup_insert_def stmt_def with_state_def gen_random_uuid_def and_then_def
        insert_user_def give_def exists_row_iff split: list.splits option.splits prod.splits sum.splits if_splits)
  have "\<not> exists_row (\<lambda>x. go_ToLower (user_Email x) = ?e) (t_users d)"
    using new assms(2) by (auto simp: exists_row_iff accounts_ok_def)
  then have "select_one (\<lambda>x. go_ToLower (user_Email x) = ?e) (t_users d') =
      Some \<lparr>user_ID = i, user_Email = ?e, user_Slug = go_ToLower (go_TrimSpace slug),
        user_PasswordHash = h, user_CreatedAt = c\<rparr>"
    unfolding t by (rule select_one_append_new) simp
  then show ?thesis
    using assms(3,4,6) u
    by (simp add: Authenticate_def Let_def stmt_fault_free query_row_def on_error_def and_then_def
        give_def give_error_def)
qed

lemma Signup_then_Authenticate_witness:
  "\<exists>u d'. Signup demo_users ''Alice@Example.com'' '' Alice '' ''correct-horse'' (empty_db (\<lambda>n. n + 7) 0) = (Inr u, d') \<and>
     fst (Authenticate demo_users ''ALICE@example.com'' ''correct-horse'' d') = Inr u \<and>
     fst (Authenticate demo_users ''ALICE@example.com'' ''battery-staple'' d') = Inl users_ErrBadCredentials"
proof -
  let ?d = "empty_db (\<lambda>n. n + 7) 0"
  let ?r = "Signup demo_users ''Alice@Example.com'' '' Alice '' ''correct-horse'' ?d"
  have "fst ?r = Inr \<lparr>user_ID = 7, user_Email = ''alice@example.com'', user_Slug = ''alice''\<rparr>"
    and ff: "fault_free (snd ?r)" by code_simp+
  then obtain u d' where r: "?r = (Inr u, d')" by (metis prod.collapse)
  have acc: "accounts_ok ?d" by (simp add: accounts_ok_def)
  have low: "go_ToLower ''ALICE@example.com'' = go_ToLower ''Alice@Example.com''" by code_simp
  have "fault_free d'" and "parseAddress demo_users ''ALICE@example.com'' = Some ''ALICE@example.com''"
    and "parseAddress demo_users ''Alice@Example.com'' = Some ''Alice@Example.com''"
    and "go_ToLower ''ALICE@example.com'' = go_ToLower ''Alice@Example.com''"
    and "hashPassword demo_users ''correct-horse'' = Inr (''H'' @ ''correct-horse'')"
    using ff r low by (simp_all add: demo_users_def)
  note auth = Signup_then_Authenticate[OF r acc this]
  have "verifyPassword demo_users (''H'' @ ''correct-horse'') ''correct-horse'' = None"
    and "verifyPassword demo_users (''H'' @ ''correct-horse'') ''battery-staple'' \<noteq> None"
    by (simp_all add: demo_users_def)
  with auth[of "''correct-horse''"] auth[of "''battery-staple''"] r show ?thesis by simp
qed

end
