(* ===== verification/SshKeys.thy ===== *)
theory SshKeys
  imports DbInvariant
begin

text \<open>
  \<open>sshkeys/service.go\<close>. The parser of authorized keys together with the fingerprint of the key it
  found (\<open>golang.org/x/crypto/ssh\<close>) is the parameter \<open>fingerprint\<close>, with no value where the key
  does not parse. Lists come in the order of their creation times.
\<close>

definition keys_ErrInvalidKey :: go_error where
  "keys_ErrInvalidKey = Sentinel ''invalid ssh public key''"
definition keys_ErrDuplicate :: go_error where
  "keys_ErrDuplicate = Sentinel ''duplicate ssh key''"
definition keys_ErrNotFound :: go_error where
  "keys_ErrNotFound = Sentinel ''ssh key not found''"

definition keys_Add :: "(gostring \<Rightarrow> gostring option) \<Rightarrow> uuid \<Rightarrow> gostring \<Rightarrow> gostring \<Rightarrow> (db, Key) call" where
  "keys_Add fingerprint userID name publicKey =
     (case fingerprint publicKey of
        None \<Rightarrow> give_error keys_ErrInvalidKey
      | Some fp \<Rightarrow>
          and_then
            (on_error (\<lambda>err. if is_unique_violation err then keys_ErrDuplicate else Wrap ''insert: '' err)
              (stmt (with_state (\<lambda>d. and_then gen_random_uuid (\<lambda>i. and_then
                (insert_ssh_key \<lparr>key_ID = i, key_Name = name, key_PublicKey = publicKey, key_Fingerprint = fp,
                   key_UserID = userID, key_CreatedAt = db_now d\<rparr>)
                (\<lambda>_. give i))))))
            (\<lambda>i. give \<lparr>key_ID = i, key_Name = name, key_PublicKey = publicKey, key_Fingerprint = fp\<rparr>))"

definition keys_List :: "uuid \<Rightarrow> (db, Key list) call" where
  "keys_List userID =
     and_then (on_error (Wrap ''query: '') (stmt (query_rows t_ssh_keys (\<lambda>k. key_UserID k = userID))))
       (\<lambda>rows. give (map Key.truncate (sort_key key_CreatedAt rows)))"

definition keys_Delete :: "uuid \<Rightarrow> uuid \<Rightarrow> (db, unit) call" where
  "keys_Delete userID keyID =
     and_then
       (on_error (Wrap ''delete: '') (stmt (delete_ssh_keys (\<lambda>k. key_ID k = keyID \<and> key_UserID k = userID))))
       (\<lambda>n. if n = 0 then give_error keys_ErrNotFound else give ())"

lemma keeps_keys [keeps_intros]:
  "keeps db_wf (keys_Add f u n p)" "keeps db_wf (keys_List u)" "keeps db_wf (keys_Delete u k)"
  unfolding keys_Add_def keys_List_def keys_Delete_def
  by (auto split: option.split intro!: keeps_intros)

lemma reads_unchanged:
  "snd (query_row tab p d) = d" "snd (query_rows tab q d) = d"
  by (simp_all add: query_row_def query_rows_def split: option.split)

lemma keys_List_result:
  "fault_free d \<Longrightarrow> keys_List u d =
     (Inr (map Key.truncate (sort_key key_CreatedAt (select_rows (\<lambda>k. key_UserID k = u) (t_ssh_keys d)))), drop_fault d)"
  by (simp add: keys_List_def stmt_fault_free query_rows_def on_error_def and_then_def give_def)

text \<open>Only the owner of a key can delete it: a delete by another user is answered not found and
  leaves every key in place, one by the owner removes exactly that key.\<close>

theorem keys_Delete_owner_only:
  assumes "db_wf d" and "fault_free d" and "r \<in> set (t_ssh_keys d)"
  shows "keys_Delete u (key_ID r) d =
    (if u = key_UserID r then (Inr (), (drop_fault d)\<lparr>t_ssh_keys := delete_rows (\<lambda>k. key_ID k = key_ID r) (t_ssh_keys d)\<rparr>)
     else (Inl keys_ErrNotFound, drop_fault d))"
proof -
  have same: "k = r" if "k \<in> set (t_ssh_keys d)" "key_ID k = key_ID r" for k
    using that assms(1,3) uniq_same[of key_ID "t_ssh_keys d" k r] by (simp add: db_wf_def keys_ok_def)
  have del: "delete_rows (\<lambda>k. key_ID k = key_ID r \<and> key_UserID k = u) (t_ssh_keys d) =
      (if u = key_UserID r then delete_rows (\<lambda>k. key_ID k = key_ID r) (t_ssh_keys d) else t_ssh_keys d)"
    using same by (auto simp: delete_rows_def intro!: filter_cong filter_True)
  have "rows_affected (\<lambda>k. key_ID k = key_ID r \<and> key_UserID k = u) (t_ssh_keys d) = 0 \<longleftrightarrow> u \<noteq> key_UserID r"
    using same assms(3) by (auto simp: rows_affected_0_iff exists_row_iff)
  moreover have "(drop_fault d)\<lparr>t_ssh_keys := t_ssh_keys d\<rparr> = drop_fault d"
    by (cases d) (simp add: drop_fault_def)
  ultimately show ?thesis
    by (auto simp: keys_Delete_def stmt_fault_free assms(2) delete_ssh_keys_def on_error_def and_then_def
        give_def give_error_def del)
qed

definition demo_keys :: db where
  "demo_keys = (empty_db (\<lambda>n. n + 100) 0)
     \<lparr>t_users := map (\<lambda>i. \<lparr>user_ID = i, user_Email = replicate i CHR ''x'', user_Slug = replicate i CHR ''x'', user_PasswordHash = '''',
        user_CreatedAt = 0\<rparr>) [1, 2],
      t_ssh_keys := map (\<lambda>i. \<lparr>key_ID = i + 10, key_Name = ''laptop'', key_PublicKey = ''k'', key_Fingerprint = ''f'',
        key_UserID = i, key_CreatedAt = 0\<rparr>) [1, 2]\<rparr>"

lemma demo_keys_ok: "db_wf demo_keys" "fault_free demo_keys"
  by (auto simp: demo_keys_def db_wf_def ok_defs uniq_def refers_def empty_db_def seeded_template_def fault_free_def numeral_2_eq_2)

lemma keys_Delete_owner_only_witness:
  "fst (keys_Delete 2 11 demo_keys) = Inl keys_ErrNotFound \<and>
   map key_ID (t_ssh_keys (snd (keys_Delete 1 11 demo_keys))) = [12]"
proof -
  let ?r = "\<lparr>key_ID = 11, key_Name = ''laptop'', key_PublicKey = ''k'', key_Fingerprint = ''f'', key_UserID = 1,
    key_CreatedAt = 0\<rparr> :: Key_row"
  have r: "?r \<in> set (t_ssh_keys demo_keys)" by (simp add: demo_keys_def)
  show ?thesis
    using keys_Delete_owner_only[OF demo_keys_ok r, of 2] keys_Delete_owner_only[OF demo_keys_ok r, of 1]
    by (simp add: demo_keys_def delete_rows_def)
qed

end
