(* ===== verification/ImageTemplates.thy ===== *)
theory ImageTemplates
  imports DbInvariant "HOL-Library.List_Lexorder" "HOL-Library.Char_ord"
begin

text \<open>
  \<open>imagetemplates/service.go\<close> and \<open>audit/log.go\<close>. The list of templates comes in byte order of the
  ids; the marshalled metadata of an audit event and the text of an address are parameters.
\<close>

definition templates_ErrNotFound :: go_error where
  "templates_ErrNotFound = Sentinel ''image template not found''"

definition templates_List :: "(db, Template list) call" where
  "templates_List =
     and_then (on_error (Wrap ''query: '') (stmt (query_rows t_image_templates tpl_Enabled)))
       (\<lambda>rows. give (map Template.truncate (sort_key tpl_ID rows)))"

definition templates_ByID :: "gostring \<Rightarrow> (db, Template) call" where
  "templates_ByID i =
     and_then
       (on_error (\<lambda>err. if errors_Is err NoRows then templates_ErrNotFound else Wrap ''select: '' err)
         (stmt (query_row t_image_templates (\<lambda>t. tpl_ID t = i \<and> tpl_Enabled t))))
       (\<lambda>t. give (Template.truncate t))"

record Event =
  ev_UserID :: "uuid option"
  ev_Action :: gostring
  ev_Target :: gostring
  ev_Metadata :: "(gostring, gostring) gomap option"
  ev_IP :: "gostring option"

definition audit_Log :: "((gostring, gostring) gomap \<Rightarrow> go_error + gostring) \<Rightarrow> Event \<Rightarrow> (db, unit) call" where
  "audit_Log marshal e =
     (let insert = (\<lambda>meta. on_error (Wrap ''insert audit: '') (stmt (with_state (\<lambda>d.
        insert_audit \<lparr>au_UserID = ev_UserID e, au_Action = ev_Action e, au_Target = ev_Target e,
          au_Metadata = meta, au_IP = ev_IP e, au_CreatedAt = db_now d\<rparr>))))
      in case ev_Metadata e of
           None \<Rightarrow> insert None
         | Some m \<Rightarrow>
             (case marshal m of
                Inl err \<Rightarrow> give_error (Wrap ''marshal metadata: '' err)
              | Inr b \<Rightarrow> insert (Some b)))"

lemma keeps_templates_audit [keeps_intros]:
  "keeps db_wf templates_List" "keeps db_wf (templates_ByID i)" "keeps db_wf (audit_Log marshal e)"
  unfolding templates_List_def templates_ByID_def audit_Log_def Let_def
  by (auto split: option.split sum.split intro!: keeps_intros)

text \<open>A template can be used exactly when it is offered: whatever is in the table, the look-up by an
  id finds a template exactly when the list contains one with that id, and then the same one.\<close>

theorem templates_ByID_in_List:
  assumes "fault_free d" and "uniq tpl_ID (t_image_templates d)"
  shows "fst (templates_ByID i d) =
    (case find (\<lambda>t. tpl_ID t = i) (projr (fst (templates_List d))) of
       Some t \<Rightarrow> Inr t | None \<Rightarrow> Inl templates_ErrNotFound)"
proof -
  let ?rows = "select_rows tpl_Enabled (t_image_templates d)"
  have l: "projr (fst (templates_List d)) = map Template.truncate (sort_key tpl_ID ?rows)"
    using assms(1) by (simp add: templates_List_def stmt_fault_free query_rows_def on_error_def and_then_def give_def)
  show ?thesis
  proof (cases "select_one (\<lambda>t. tpl_ID t = i \<and> tpl_Enabled t) (t_image_templates d)")
    case None
    then have "find (\<lambda>t. tpl_ID t = i) (map Template.truncate (sort_key tpl_ID ?rows)) = None"
      by (auto simp: find_None_iff select_one_None exists_row_iff select_rows_def Template.defs)
    then show ?thesis using None assms(1)
      by (simp add: templates_ByID_def stmt_fault_free query_row_def on_error_def and_then_def l)
  next
    case (Some t)
    then have t: "t \<in> set (t_image_templates d)" "tpl_ID t = i" "tpl_Enabled t"
      using select_one_Some by fastforce+
    have only: "t' = t" if "t' \<in> set (t_image_templates d)" "tpl_ID t' = i" for t'
      using that t uniq_same[OF assms(2)] by metis
    have "find (\<lambda>t. tpl_ID t = i) (map Template.truncate (sort_key tpl_ID ?rows)) = Some (Template.truncate t)"
    proof (rule find_unique)
      show "Template.truncate t \<in> set (map Template.truncate (sort_key tpl_ID ?rows))"
        using t by (simp add: select_rows_def)
      show "tpl_ID (Template.truncate t) = i" using t by (simp add: Template.defs)
    next
      fix y assume "y \<in> set (map Template.truncate (sort_key tpl_ID ?rows))" and y: "tpl_ID y = i"
      then obtain r where "r \<in> set (t_image_templates d)" "y = Template.truncate r"
        by (auto simp: select_rows_def)
      with y only[of r] show "y = Template.truncate t" by (simp add: Template.defs)
    qed
    then show ?thesis using Some assms(1)
      by (simp add: templates_ByID_def stmt_fault_free query_row_def on_error_def and_then_def give_def l)
  qed
qed

lemma templates_ByID_in_List_witness:
  "fst (templates_ByID ''cuda-base'' (empty_db id 0)) = Inr (Template.truncate seeded_template)"
proof -
  have "uniq tpl_ID (t_image_templates (empty_db id 0))" by (simp add: uniq_def empty_db_def)
  from templates_ByID_in_List[OF _ this, of "''cuda-base''"]
  have "fst (templates_ByID ''cuda-base'' (empty_db id 0)) =
      (case find (\<lambda>t. tpl_ID t = ''cuda-base'') (projr (fst (templates_List (empty_db id 0)))) of
         Some t \<Rightarrow> Inr t | None \<Rightarrow> Inl templates_ErrNotFound)" by simp
  also have "find (\<lambda>t. tpl_ID t = ''cuda-base'') (projr (fst (templates_List (empty_db id 0)))) =
      Some (Template.truncate seeded_template)" by code_simp
  finally show ?thesis by (simp only: option.case)
qed

end
