(* ===== verification/Nodes.thy ===== *)
theory Nodes
  imports DbInvariant Base64
begin

text \<open>
  \<open>nodes/service.go\<close>: pair tokens, the pairing transaction, node authentication and the node's
  status. The token hash (\<open>hex(sha256)\<close>), the random bytes and Go's clock (nanoseconds) are
  parameters; the database's clock is its own.
\<close>

definition nodes_ErrTokenInvalid :: go_error where
  "nodes_ErrTokenInvalid = Sentinel ''pair token invalid or expired''"
definition nodes_ErrNodeNameTaken :: go_error where
  "nodes_ErrNodeNameTaken = Sentinel ''node name already taken for this user''"
definition nodes_ErrNodeTokenInvalid :: go_error where
  "nodes_ErrNodeTokenInvalid = Sentinel ''node token invalid''"
definition nodes_ErrNotFound :: go_error where
  "nodes_ErrNotFound = Sentinel ''node not found''"

definition pairTokenPrefix :: gostring where "pairTokenPrefix = ''FX-''"
definition pairTokenTTL :: int where "pairTokenTTL = 10 * 60 * 1000000000"

record PairRequest =
  pr_Token :: gostring
  pr_Name :: gostring
  pr_GPUInfo :: gostring

definition CreatePairToken ::
  "(gostring \<Rightarrow> gostring) \<Rightarrow> (go_error + gostring) \<Rightarrow> int \<Rightarrow> uuid \<Rightarrow> (db, gostring) call" where
  "CreatePairToken hashToken rnd now userID =
     (case rnd of
        Inl e \<Rightarrow> give_error (Wrap ''read random: '' e)
      | Inr raw \<Rightarrow>
          let token = pairTokenPrefix @ b64_encode URLAlphabet raw
          in and_then
               (on_error (Wrap ''insert pair token: '')
                 (stmt (insert_pair_token \<lparr>pt_TokenHash = hashToken token, pt_UserID = userID,
                    pt_ExpiresAt = now + pairTokenTTL, pt_UsedAt = None\<rparr>)))
               (\<lambda>_. give token))"

text \<open>
  A transaction: its statements run on the database, and unless it commits the tables are those
  of its begin again. The random ids drawn and the statements sent are not undone.
\<close>

definition rollback :: "db \<Rightarrow> db \<Rightarrow> db" where
  "rollback d0 d = d0\<lparr>db_faults := db_faults d, db_uuid_next := db_uuid_next d\<rparr>"

definition in_tx :: "(db, 'a) call \<Rightarrow> (db, 'a) call" where
  "in_tx m d0 =
     (case stmt (give ()) d0 of
        (Inl e, d) \<Rightarrow> (Inl (Wrap ''begin tx: '' e), d)
      | (Inr _, d1) \<Rightarrow>
          (case m d1 of
             (Inl e, d) \<Rightarrow> (Inl e, rollback d1 d)
           | (Inr a, d) \<Rightarrow>
               (case stmt (give ()) d of
                  (Inl e, d) \<Rightarrow> (Inl (Wrap ''commit: '' e), rollback d1 d)
                | (Inr _, d) \<Rightarrow> (Inr a, d))))"

definition pair_insert_node :: "(gostring \<Rightarrow> gostring) \<Rightarrow> uuid \<Rightarrow> PairRequest \<Rightarrow> gostring \<Rightarrow> (db, uuid \<times> gostring) call" where
  "pair_insert_node hashToken userID req nodeToken =
     (let gpuInfo = (if pr_GPUInfo req = '''' then ''[]'' else pr_GPUInfo req)
      in and_then
           (on_error (\<lambda>err. if is_unique_violation err then nodes_ErrNodeNameTaken else Wrap ''insert node: '' err)
             (stmt (and_then (jsonb_input gpuInfo) (\<lambda>j. and_then gen_random_uuid (\<lambda>i. and_then
               (insert_node \<lparr>node_ID = i, node_OwnerUserID = userID, node_Name = pr_Name req, node_AgentVersion = '''',
                  node_GPUInfo = j, node_Status = ''offline'', node_LastSeenAt = None,
                  node_TokenHash = hashToken nodeToken\<rparr>)
               (\<lambda>_. give i))))))
           (\<lambda>i. give (i, gpuInfo)))"

definition PairNode ::
  "(gostring \<Rightarrow> gostring) \<Rightarrow> (go_error + gostring) \<Rightarrow> int \<Rightarrow> PairRequest \<Rightarrow> (db, Node \<times> gostring) call" where
  "PairNode hashToken rnd now req = in_tx (
     and_then
       (on_error (\<lambda>err. if errors_Is err NoRows then nodes_ErrTokenInvalid else Wrap ''select pair token: '' err)
         (stmt (query_row t_pair_tokens (\<lambda>t. pt_TokenHash t = hashToken (pr_Token req)))))
       (\<lambda>t. if pt_UsedAt t \<noteq> None \<or> pt_ExpiresAt t < now then give_error nodes_ErrTokenInvalid
            else and_then
              (on_error (Wrap ''mark token used: '')
                (stmt (with_state (\<lambda>d. update_pair_tokens (\<lambda>t. pt_TokenHash t = hashToken (pr_Token req))
                  (pt_UsedAt_update (\<lambda>_. Some (db_now d)))))))
              (\<lambda>_. case rnd of
                 Inl e \<Rightarrow> give_error (Wrap ''read random: '' e)
               | Inr raw \<Rightarrow>
                   let nodeToken = b64_encode URLAlphabet raw
                   in and_then (pair_insert_node hashToken (pt_UserID t) req nodeToken)
                        (\<lambda>(i, gpuInfo). give
                          (\<lparr>node_ID = i, node_OwnerUserID = pt_UserID t, node_Name = pr_Name req,
                            node_AgentVersion = '''', node_GPUInfo = gpuInfo, node_Status = ''offline'',
                            node_LastSeenAt = None\<rparr>, nodeToken)))))"

definition AuthenticateNodeToken :: "(gostring \<Rightarrow> gostring) \<Rightarrow> gostring \<Rightarrow> (db, Node) call" where
  "AuthenticateNodeToken hashToken token =
     (if token = '''' then give_error nodes_ErrNodeTokenInvalid
      else and_then
        (on_error (\<lambda>err. if errors_Is err NoRows then nodes_ErrNodeTokenInvalid else Wrap ''select node: '' err)
          (stmt (query_row t_nodes (\<lambda>n. node_TokenHash n = hashToken token))))
        (\<lambda>n. give (Node.truncate n)))"

definition UpdateRegister :: "uuid \<Rightarrow> gostring \<Rightarrow> gostring \<Rightarrow> (db, unit) call" where
  "UpdateRegister nodeID agentVersion gpuInfo0 =
     (let gpuInfo = (if gpuInfo0 = '''' then ''[]'' else gpuInfo0)
      in and_then
           (on_error (Wrap ''update register: '')
             (stmt (and_then (jsonb_input gpuInfo) (\<lambda>j. with_state (\<lambda>d. update_nodes (\<lambda>n. node_ID n = nodeID)
               (\<lambda>n. n\<lparr>node_AgentVersion := agentVersion, node_GPUInfo := j, node_Status := ''online'',
                     node_LastSeenAt := Some (db_now d)\<rparr>))))))
           (\<lambda>k. if k = 0 then give_error nodes_ErrNotFound else give ()))"

definition RecordHeartbeat :: "uuid \<Rightarrow> (db, unit) call" where
  "RecordHeartbeat nodeID =
     and_then
       (on_error (Wrap ''heartbeat: '')
         (stmt (with_state (\<lambda>d. update_nodes (\<lambda>n. node_ID n = nodeID)
           (\<lambda>n. n\<lparr>node_Status := ''online'', node_LastSeenAt := Some (db_now d)\<rparr>)))))
       (\<lambda>k. if k = 0 then give_error nodes_ErrNotFound else give ())"

definition MarkOffline :: "uuid \<Rightarrow> (db, unit) call" where
  "MarkOffline nodeID =
     and_then
       (on_error (Wrap ''mark offline: '')
         (stmt (update_nodes (\<lambda>n. node_ID n = nodeID) (node_Status_update (\<lambda>_. ''offline'')))))
       (\<lambda>_. give ())"

subsection \<open>The service keeps the schema's promises\<close>

lemma db_wf_rollback: "db_wf d0 \<Longrightarrow> db_wf (rollback d0 d)"
  by (simp add: rollback_def db_wf_def ok_defs)

lemma keeps_in_tx [keeps_intros]:
  assumes "keeps db_wf m"
  shows "keeps db_wf (in_tx m)"
proof (rule keepsI)
  fix d0 assume wf: "db_wf d0"
  have st: "keeps db_wf (stmt (give ()))" by (intro keeps_intros)
  show "db_wf (snd (in_tx m d0))"
    using keepsD_eq[OF st] keepsD_eq[OF assms] db_wf_rollback wf
    by (auto simp: in_tx_def split: prod.split sum.split)
qed

lemma keeps_nodes [keeps_intros]:
  "keeps db_wf (CreatePairToken h r t u)" "keeps db_wf (pair_insert_node h u req tok)"
  "keeps db_wf (AuthenticateNodeToken h tok)" "keeps db_wf (UpdateRegister n v g)"
  "keeps db_wf (RecordHeartbeat n)" "keeps db_wf (MarkOffline n)"
  unfolding CreatePairToken_def pair_insert_node_def AuthenticateNodeToken_def UpdateRegister_def
    RecordHeartbeat_def MarkOffline_def Let_def
  by (auto split: sum.split intro!: keeps_intros)

lemma keeps_PairNode [keeps_intros]: "keeps db_wf (PairNode h r t req)"
  unfolding PairNode_def Let_def by (auto split: sum.split prod.split intro!: keeps_intros)

end
