(* ===== verification/Envs.thy ===== *)
theory Envs
  imports DbInvariant Names
begin

text \<open>
  \<open>envs/service.go\<close>: the rows of the environments, their creation and the status changes the agent
  stream reports. \<open>uuidString\<close> is \<open>uuid.UUID.String\<close>.
\<close>

definition envs_ErrInvalidName :: go_error where
  "envs_ErrInvalidName = Sentinel ''invalid env name''"
definition envs_ErrNameTaken :: go_error where
  "envs_ErrNameTaken = Sentinel ''env name already taken''"
definition envs_ErrNotFound :: go_error where
  "envs_ErrNotFound = Sentinel ''env not found''"

record CreateRequest =
  cr_OwnerUserID :: uuid
  cr_NodeID :: uuid
  cr_TemplateID :: gostring
  cr_Name :: gostring
  cr_GPURequest :: int

record TemplateInfo =
  ti_ImageRef :: gostring
  ti_DefaultCmd :: "gostring list"

definition envs_insert :: "CreateRequest \<Rightarrow> gostring \<Rightarrow> (db, uuid) call" where
  "envs_insert req hostname = stmt (with_state (\<lambda>d. and_then gen_random_uuid (\<lambda>i. and_then
     (insert_env \<lparr>env_ID = i, env_OwnerUserID = cr_OwnerUserID req, env_NodeID = cr_NodeID req,
        env_TemplateID = cr_TemplateID req, env_Name = cr_Name req, env_Hostname = hostname,
        env_Status = ''creating'', env_StatusMessage = '''', env_SidecarContainerID = '''',
        env_DevContainerID = '''', env_GPURequest = cr_GPURequest req, env_GPUIndices = [],
        env_VolumeName = '''', env_CreatedAt = db_now d, env_UpdatedAt = db_now d\<rparr>)
     (\<lambda>_. give i))))"

definition envs_Create :: "(uuid \<Rightarrow> gostring) \<Rightarrow> CreateRequest \<Rightarrow> (db, Env) call" where
  "envs_Create uuidString req =
     (if \<not> envs_nameRe (cr_Name req) then give_error envs_ErrInvalidName
      else and_then
        (on_error (Wrap ''compute hostname: '')
          (stmt (query_row t_users (\<lambda>u. user_ID u = cr_OwnerUserID req))))
        (\<lambda>u. let hostname = user_Slug u @ ''-'' @ cr_Name req in and_then
          (on_error (\<lambda>err. if is_unique_violation err then envs_ErrNameTaken else Wrap ''insert: '' err)
            (envs_insert req hostname))
          (\<lambda>i. let volumeName = ''flex-env-'' @ uuidString i in and_then
            (on_error (Wrap ''set volume: '')
              (stmt (update_envs (\<lambda>e. env_ID e = i) (env_VolumeName_update (\<lambda>_. volumeName)))))
            (\<lambda>_. give
              \<lparr>env_ID = i, env_OwnerUserID = cr_OwnerUserID req, env_NodeID = cr_NodeID req,
               env_TemplateID = cr_TemplateID req, env_Name = cr_Name req, env_Hostname = hostname,
               env_Status = ''creating'', env_StatusMessage = '''', env_SidecarContainerID = '''',
               env_DevContainerID = '''', env_GPURequest = cr_GPURequest req, env_GPUIndices = [],
               env_VolumeName = volumeName\<rparr>))))"

definition envs_ByID :: "uuid \<Rightarrow> (db, Env) call" where
  "envs_ByID i =
     and_then
       (on_error (\<lambda>err. if errors_Is err NoRows then envs_ErrNotFound else Wrap ''select: '' err)
         (stmt (query_row t_envs (\<lambda>e. env_ID e = i))))
       (\<lambda>e. give (Env.truncate e))"

definition envs_ListByOwner :: "uuid \<Rightarrow> (db, Env list) call" where
  "envs_ListByOwner userID =
     and_then (on_error (Wrap ''query: '') (stmt (query_rows t_envs (\<lambda>e. env_OwnerUserID e = userID))))
       (\<lambda>rows. give (map Env.truncate (sort_key env_CreatedAt rows)))"

definition envs_ListRunningOnNode :: "uuid \<Rightarrow> (db, Env list) call" where
  "envs_ListRunningOnNode nodeID =
     and_then
       (on_error (Wrap ''query: '')
         (stmt (query_rows t_envs (\<lambda>e. env_NodeID e = nodeID \<and> env_Status e = ''running''))))
       (\<lambda>rows. give (map Env.truncate rows))"

text \<open>
  The four updates of one row: the columns they set, \<open>updated_at\<close> among them, and not found when
  no row has the id.
\<close>

definition envs_update_row ::
  "gostring \<Rightarrow> uuid \<Rightarrow> (Env_row \<Rightarrow> Env_row) \<Rightarrow> (db, unit) call" where
  "envs_update_row what i f =
     and_then
       (on_error (Wrap what)
         (stmt (with_state (\<lambda>d. update_envs (\<lambda>e. env_ID e = i) (\<lambda>e. (f e)\<lparr>env_UpdatedAt := db_now d\<rparr>)))))
       (\<lambda>k. if k = 0 then give_error envs_ErrNotFound else give ())"

definition envs_MarkStatus :: "uuid \<Rightarrow> gostring \<Rightarrow> (db, unit) call" where
  "envs_MarkStatus i status = envs_update_row ''update status: '' i (\<lambda>e. e\<lparr>env_Status := status\<rparr>)"

definition envs_MarkRunning :: "uuid \<Rightarrow> gostring \<Rightarrow> gostring \<Rightarrow> int list \<Rightarrow> (db, unit) call" where
  "envs_MarkRunning i sidecarID devID gpuIdx =
     envs_update_row ''mark running: '' i
       (\<lambda>e. e\<lparr>env_Status := ''running'', env_StatusMessage := '''', env_SidecarContainerID := sidecarID,
             env_DevContainerID := devID, env_GPUIndices := map to_int32 gpuIdx\<rparr>)"

definition envs_MarkStopped :: "uuid \<Rightarrow> (db, unit) call" where
  "envs_MarkStopped i =
     envs_update_row ''mark stopped: '' i (\<lambda>e. e\<lparr>env_Status := ''stopped'', env_GPUIndices := []\<rparr>)"

definition envs_MarkError :: "uuid \<Rightarrow> gostring \<Rightarrow> gostring \<Rightarrow> (db, unit) call" where
  "envs_MarkError i stage detail =
     envs_update_row ''mark error: '' i
       (\<lambda>e. e\<lparr>env_Status := ''error'', env_StatusMessage := ''['' @ stage @ ''] '' @ detail,
             env_GPUIndices := []\<rparr>)"

definition envs_Delete :: "uuid \<Rightarrow> (db, unit) call" where
  "envs_Delete i =
     and_then (on_error (Wrap ''delete: '') (stmt (delete_envs (\<lambda>e. env_ID e = i))))
       (\<lambda>k. if k = 0 then give_error envs_ErrNotFound else give ())"

definition TemplateByID :: "gostring \<Rightarrow> (db, TemplateInfo) call" where
  "TemplateByID i =
     and_then
       (on_error (\<lambda>err. if errors_Is err NoRows then envs_ErrNotFound else Wrap ''template: '' err)
         (stmt (query_row t_image_templates (\<lambda>t. tpl_ID t = i \<and> tpl_Enabled t))))
       (\<lambda>t. give \<lparr>ti_ImageRef = tpl_ImageRef t, ti_DefaultCmd = tpl_DefaultCmd t\<rparr>)"

subsection \<open>The service keeps the schema's promises\<close>

lemma keeps_envs_insert [keeps_intros]: "keeps db_wf (envs_insert req h)"
  unfolding envs_insert_def by (intro keeps_intros)

lemma keeps_envs_update_row:
  assumes "\<And>r. env_ID (f r) = env_ID r" "\<And>r. env_OwnerUserID (f r) = env_OwnerUserID r"
    "\<And>r. env_NodeID (f r) = env_NodeID r" "\<And>r. env_Name (f r) = env_Name r"
    "\<And>r. env_TemplateID (f r) = env_TemplateID r"
  shows "keeps db_wf (envs_update_row what i f)"
  unfolding envs_update_row_def by (intro keeps_intros) (simp_all add: assms)

lemma keeps_envs [keeps_intros]:
  "keeps db_wf (envs_Create us req)" "keeps db_wf (envs_ByID i)" "keeps db_wf (envs_ListByOwner u)"
  "keeps db_wf (envs_ListRunningOnNode n)" "keeps db_wf (envs_MarkStatus i s)"
  "keeps db_wf (envs_MarkRunning i c1 c2 g)" "keeps db_wf (envs_MarkStopped i)"
  "keeps db_wf (envs_MarkError i s t)" "keeps db_wf (envs_Delete i)" "keeps db_wf (TemplateByID t)"
  unfolding envs_Create_def envs_ByID_def envs_ListByOwner_def envs_ListRunningOnNode_def envs_MarkStatus_def
    envs_MarkRunning_def envs_MarkStopped_def envs_MarkError_def envs_Delete_def TemplateByID_def Let_def
  by (intro keeps_intros keeps_envs_update_row; simp)+

subsection \<open>What an update does to the table\<close>

lemma envs_update_row_result:
  "envs_update_row what i f d =
     (case stmt (give ()) d of
        (Inl e, d') \<Rightarrow> (Inl (Wrap what e), d')
      | (Inr _, d') \<Rightarrow>
          (if exists_row (\<lambda>e. env_ID e = i) (t_envs d) then Inr () else Inl envs_ErrNotFound,
           d'\<lparr>t_envs := update_rows (\<lambda>e. env_ID e = i) (\<lambda>e. (f e)\<lparr>env_UpdatedAt := db_now d\<rparr>) (t_envs d)\<rparr>))"
  by (cases rule: stmt_cases[of "give () :: (db, unit) call" d])
    (auto simp: envs_update_row_def stmt_def on_error_def and_then_def give_def give_error_def with_state_def
      update_envs_def rows_affected_0_iff split: list.split option.split)

end
