(* ===== verification/Json.thy ===== *)
theory Json
  imports GoStrings GoNumbers
begin

text \<open>
  Printing of \<open>encoding/json\<close>: strings with Go's escapes (HTML characters included), and the
  compact and the indented form of a value. Bytes of 128 and more are passed through, as Go does
  with valid UTF-8. \<open>go_quote\<close> is the verb \<open>%q\<close> on such text.
\<close>

datatype json =
    JString gostring
  | JNumber int
  | JBool bool
  | JArray "json list"
  | JObject "(gostring \<times> json) list"

definition hex_digit :: "nat \<Rightarrow> char" where
  "hex_digit n = (if n < 10 then char_of (48 + n) else char_of (87 + n))"

definition json_char :: "char \<Rightarrow> gostring" where
  "json_char c =
     (let b = byte_of c in
      if b = 34 then [CHR 0x5C, CHR 0x22] else if b = 92 then [CHR 0x5C, CHR 0x5C]
      else if b = 8 then [CHR 0x5C, CHR ''b''] else if b = 12 then [CHR 0x5C, CHR ''f'']
      else if b = 10 then [CHR 0x5C, CHR ''n''] else if b = 13 then [CHR 0x5C, CHR ''r'']
      else if b = 9 then [CHR 0x5C, CHR ''t'']
      else if b < 32 \<or> b \<in> {38, 60, 62}
      then [CHR 0x5C, CHR ''u'', CHR ''0'', CHR ''0'', hex_digit (b div 16), hex_digit (b mod 16)]
      else [c])"

definition json_string :: "gostring \<Rightarrow> gostring" where
  "json_string s = CHR 0x22 # concat (map json_char s) @ [CHR 0x22]"

fun json_compact :: "json \<Rightarrow> gostring" where
  "json_compact (JString s) = json_string s"
| "json_compact (JNumber i) = go_Itoa i"
| "json_compact (JBool b) = (if b then ''true'' else ''false'')"
| "json_compact (JArray vs) = ''['' @ go_Join '','' (map json_compact vs) @ '']''"
| "json_compact (JObject kvs) =
     ''{'' @ go_Join '','' (map (\<lambda>(k, v). json_string k @ '':'' @ json_compact v) kvs) @ ''}''"

text \<open>\<open>json.MarshalIndent(v, "", "  ")\<close>, at a nesting depth.\<close>

definition json_newline :: "nat \<Rightarrow> gostring" where
  "json_newline depth = CHR 0x0A # replicate (2 * depth) CHR '' ''"

definition json_block :: "nat \<Rightarrow> gostring \<Rightarrow> gostring \<Rightarrow> gostring list \<Rightarrow> gostring" where
  "json_block depth opening closing items =
     (if items = [] then opening @ closing
      else opening @ json_newline (Suc depth) @ go_Join ('','' @ json_newline (Suc depth)) items @
           json_newline depth @ closing)"

fun json_indent :: "nat \<Rightarrow> json \<Rightarrow> gostring" where
  "json_indent depth (JString s) = json_string s"
| "json_indent depth (JNumber i) = go_Itoa i"
| "json_indent depth (JBool b) = (if b then ''true'' else ''false'')"
| "json_indent depth (JArray vs) = json_block depth ''['' '']'' (map (json_indent (Suc depth)) vs)"
| "json_indent depth (JObject kvs) =
     json_block depth ''{'' ''}''
       (map (\<lambda>(k, v). json_string k @ '': '' @ json_indent (Suc depth) v) kvs)"

definition quote_char :: "char \<Rightarrow> gostring" where
  "quote_char c =
     (let b = byte_of c in
      if b = 34 then [CHR 0x5C, CHR 0x22] else if b = 92 then [CHR 0x5C, CHR 0x5C]
      else if b = 7 then [CHR 0x5C, CHR ''a''] else if b = 8 then [CHR 0x5C, CHR ''b'']
      else if b = 12 then [CHR 0x5C, CHR ''f''] else if b = 10 then [CHR 0x5C, CHR ''n'']
      else if b = 13 then [CHR 0x5C, CHR ''r''] else if b = 9 then [CHR 0x5C, CHR ''t'']
      else if b = 11 then [CHR 0x5C, CHR ''v'']
      else if b < 32 \<or> b = 127 then [CHR 0x5C, CHR ''x'', hex_digit (b div 16), hex_digit (b mod 16)]
      else [c])"

definition go_quote :: "gostring \<Rightarrow> gostring" where
  "go_quote s = CHR 0x22 # concat (map quote_char s) @ [CHR 0x22]"

end
