(* ===== verification/Headscale.thy ===== *)
theory Headscale
  imports Json GoErrors Names "HOL-Library.List_Lexorder" "HOL-Library.Char_ord" "HOL-Library.Multiset"
begin

text \<open>
  \<open>headscale/\<close>: the access policy generated for the users (\<open>acl.go\<close>) and the API client
  (\<open>client.go\<close>). The HTTP exchange and the decoding of answers are parameters; which request is
  sent and how an answer is classified are the code's. The second half of the theory is the
  meaning of a policy: who may reach whom.
\<close>

subsection \<open>The access policy\<close>

definition acl_ErrInvalidSlug :: go_error where
  "acl_ErrInvalidSlug = Sentinel ''invalid slug for ACL generation''"

record aclRule =
  Action :: gostring
  Src :: "gostring list"
  Dst :: "gostring list"

record aclPolicy =
  TagOwners :: "(gostring, gostring list) gomap"
  ACLs :: "aclRule list"

definition acl_rule :: "gostring \<Rightarrow> aclRule" where
  "acl_rule s = \<lparr>Action = ''accept'', Src = [device_tag s], Dst = [env_tag s @ '':22'']\<rparr>"

definition acl_policy :: "gostring list \<Rightarrow> aclPolicy" where
  "acl_policy slugs =
     (let sorted = sort slugs
      in \<lparr>TagOwners = fold (\<lambda>s m. AList.update (env_tag s) [''control-plane'']
            (AList.update (device_tag s) [''control-plane''] m)) sorted [],
          ACLs = map acl_rule sorted\<rparr>)"

text \<open>\<open>encoding/json\<close> prints a map in the order of its keys.\<close>

definition policy_json :: "aclPolicy \<Rightarrow> json" where
  "policy_json p =
     JObject
       [(''tagOwners'', JObject (map (\<lambda>(k, vs). (k, JArray (map JString vs))) (sort_key fst (TagOwners p)))),
        (''acls'', JArray (map (\<lambda>r. JObject
           [(''action'', JString (Action r)), (''src'', JArray (map JString (Src r))),
            (''dst'', JArray (map JString (Dst r)))]) (ACLs p)))]"

definition GenerateACL :: "gostring list \<Rightarrow> go_error + gostring" where
  "GenerateACL slugs =
     (case find (\<lambda>s. \<not> acl_slugRe s) slugs of
        Some s \<Rightarrow> Inl (WrapSuffix acl_ErrInvalidSlug ('': '' @ go_quote s))
      | None \<Rightarrow> Inr (json_indent 0 (policy_json (acl_policy slugs))))"

subsection \<open>The API\<close>

record hs_User =
  hs_user_ID :: gostring
  hs_user_Name :: gostring

record hs_Node =
  hs_node_ID :: gostring
  hs_node_Name :: gostring
  hs_node_GivenName :: gostring
  hs_node_User :: hs_User
  hs_node_IPAddresses :: "gostring list"

record PreAuthKeyRequest =
  pk_User :: gostring
  pk_Reusable :: bool
  pk_Ephemeral :: bool
  pk_Expiration :: int
  pk_ACLTags :: "gostring list"

text \<open>The methods the control plane's services call, as an interface on the state of Headscale.\<close>

record 'h hs_client =
  hs_ListUsers :: "'h \<Rightarrow> (go_error + hs_User list) \<times> 'h"
  hs_CreateUser :: "gostring \<Rightarrow> 'h \<Rightarrow> (go_error + hs_User) \<times> 'h"
  hs_DeleteUser :: "gostring \<Rightarrow> 'h \<Rightarrow> (go_error + unit) \<times> 'h"
  hs_SetPolicy :: "gostring \<Rightarrow> 'h \<Rightarrow> (go_error + unit) \<times> 'h"
  hs_CreatePreAuthKey :: "PreAuthKeyRequest \<Rightarrow> 'h \<Rightarrow> (go_error + gostring) \<times> 'h"
  hs_ListNodes :: "gostring \<Rightarrow> 'h \<Rightarrow> (go_error + hs_Node list) \<times> 'h"
  hs_DeleteNode :: "gostring \<Rightarrow> 'h \<Rightarrow> (go_error + unit) \<times> 'h"

definition hs_ErrUserAlreadyExists :: go_error where
  "hs_ErrUserAlreadyExists = Sentinel ''headscale user already exists''"
definition hs_ErrUserNotFound :: go_error where
  "hs_ErrUserNotFound = Sentinel ''headscale user not found''"

definition isHeadscaleStatusError :: "go_error \<Rightarrow> int \<Rightarrow> bool" where
  "isHeadscaleStatusError err status = go_Contains (error_text err) ('': '' @ go_Itoa status @ '' '')"

text \<open>
  The client over HTTP: \<open>exchange\<close> is one round trip (method, URL, headers, body, if any), whose
  answer is a status with a body or a failure at one of three points; \<open>unmarshal\<close> decodes a body
  as the wanted type.
\<close>

datatype http_failure = NewRequestFailed go_error | DoFailed go_error | ReadFailed go_error

definition http_error :: "http_failure \<Rightarrow> go_error" where
  "http_error f = (case f of NewRequestFailed e \<Rightarrow> Wrap ''new request: '' e
     | DoFailed e \<Rightarrow> Wrap ''do: '' e | ReadFailed e \<Rightarrow> Wrap ''read body: '' e)"

record 'h hs_http =
  baseURL :: gostring
  apiKey :: gostring
  exchange :: "gostring \<Rightarrow> gostring \<Rightarrow> (gostring \<times> gostring) list \<Rightarrow> gostring option \<Rightarrow> 'h
     \<Rightarrow> (http_failure + int \<times> gostring) \<times> 'h"

definition NewClient :: "'h hs_http \<Rightarrow> gostring \<Rightarrow> gostring \<Rightarrow> 'h hs_http" where
  "NewClient c url key = c\<lparr>baseURL := go_TrimRight ''/'' url, apiKey := key\<rparr>"

definition hs_do ::
  "'h hs_http \<Rightarrow> gostring \<Rightarrow> gostring \<Rightarrow> json option \<Rightarrow> (gostring \<Rightarrow> go_error + 'a) \<Rightarrow> 'a \<Rightarrow> ('h, 'a) call" where
  "hs_do c verb path inp unmarshal zero s =
     (case exchange c verb (baseURL c @ path)
             ((''Authorization'', ''Bearer '' @ apiKey c) #
              (if inp = None then [] else [(''Content-Type'', ''application/json'')]))
             (map_option json_compact inp) s of
        (Inl f, s) \<Rightarrow> (Inl (http_error f), s)
      | (Inr (code, body), s) \<Rightarrow>
          if code \<ge> 400
          then (Inl (NewError (''headscale '' @ verb @ '' '' @ path @ '': '' @ go_Itoa code @ '' '' @ body)), s)
          else if body = '''' then (Inr zero, s)
          else (case unmarshal body of
                  Inl e \<Rightarrow> (Inl (Wrap ''unmarshal: '' (WrapSuffix e ('' (body='' @ body @ '')''))), s)
                | Inr a \<Rightarrow> (Inr a, s)))"

definition client_CreateUser ::
  "'h hs_http \<Rightarrow> (gostring \<Rightarrow> go_error + hs_User) \<Rightarrow> gostring \<Rightarrow> ('h, hs_User) call" where
  "client_CreateUser c unmarshal name =
     on_error (\<lambda>err. if isHeadscaleStatusError err 400 \<or> isHeadscaleStatusError err 409 \<or>
                        go_Contains (error_text err) ''already exists''
                     then hs_ErrUserAlreadyExists else err)
       (hs_do c ''POST'' ''/api/v1/user'' (Some (JObject [(''name'', JString name)])) unmarshal
          \<lparr>hs_user_ID = '''', hs_user_Name = ''''\<rparr>)"

definition client_DeleteUser :: "'h hs_http \<Rightarrow> gostring \<Rightarrow> ('h, unit) call" where
  "client_DeleteUser c name =
     on_error (\<lambda>err. if isHeadscaleStatusError err 404 \<or> go_Contains (error_text err) ''not found''
                     then hs_ErrUserNotFound else err)
       (hs_do c ''DELETE'' (''/api/v1/user/'' @ name) None (\<lambda>_. Inr ()) ())"

definition client_SetPolicy :: "'h hs_http \<Rightarrow> gostring \<Rightarrow> ('h, unit) call" where
  "client_SetPolicy c hujson =
     hs_do c ''PUT'' ''/api/v1/policy'' (Some (JObject [(''policy'', JString hujson)])) (\<lambda>_. Inr ()) ()"

definition client_ListUsers :: "'h hs_http \<Rightarrow> (gostring \<Rightarrow> go_error + hs_User list) \<Rightarrow> ('h, hs_User list) call" where
  "client_ListUsers c unmarshal = hs_do c ''GET'' ''/api/v1/user'' None unmarshal []"

definition client_GetPolicy :: "'h hs_http \<Rightarrow> (gostring \<Rightarrow> go_error + gostring) \<Rightarrow> ('h, gostring) call" where
  "client_GetPolicy c unmarshal = hs_do c ''GET'' ''/api/v1/policy'' None unmarshal ''''"

text \<open>\<open>url.QueryEscape\<close> of the user's name is the parameter \<open>escape\<close>.\<close>

definition client_ListNodes ::
  "'h hs_http \<Rightarrow> (gostring \<Rightarrow> gostring) \<Rightarrow> (gostring \<Rightarrow> go_error + hs_Node list) \<Rightarrow> gostring \<Rightarrow> ('h, hs_Node list) call" where
  "client_ListNodes c escape unmarshal user =
     hs_do c ''GET'' (''/api/v1/node'' @ (if user = '''' then '''' else ''?user='' @ escape user)) None unmarshal []"

definition client_DeleteNode :: "'h hs_http \<Rightarrow> gostring \<Rightarrow> ('h, unit) call" where
  "client_DeleteNode c i = hs_do c ''DELETE'' (''/api/v1/node/'' @ i) None (\<lambda>_. Inr ()) ()"

text \<open>\<open>rfc3339\<close> formats the UTC time of an instant; the answer's key is all that callers use.\<close>

definition client_CreatePreAuthKey ::
  "'h hs_http \<Rightarrow> (int \<Rightarrow> gostring) \<Rightarrow> int \<Rightarrow> (gostring \<Rightarrow> go_error + gostring) \<Rightarrow> PreAuthKeyRequest \<Rightarrow> ('h, gostring) call" where
  "client_CreatePreAuthKey c rfc3339 now unmarshal req =
     hs_do c ''POST'' ''/api/v1/preauthkey''
           (Some (JObject
             [(''user'', JString (pk_User req)), (''reusable'', JBool (pk_Reusable req)),
              (''ephemeral'', JBool (pk_Ephemeral req)),
              (''expiration'', JString (rfc3339 (now + pk_Expiration req))),
              (''aclTags'', JArray (map JString (pk_ACLTags req)))])) unmarshal ''''"

subsection \<open>What the policy allows\<close>

text \<open>
  A rule lets a source tag reach a destination tag on a port when it accepts, names the source,
  and has a destination of the form tag, colon, port. A device acts under its tags.
\<close>

definition allowed :: "aclPolicy \<Rightarrow> gostring \<Rightarrow> gostring \<Rightarrow> gostring \<Rightarrow> bool" where
  "allowed p src dst port \<longleftrightarrow>
     (\<exists>r \<in> set (ACLs p). Action r = ''accept'' \<and> src \<in> set (Src r) \<and> (dst @ '':'' @ port) \<in> set (Dst r))"

lemma split_first_eq: "x \<notin> set p \<Longrightarrow> x \<notin> set q \<Longrightarrow> p @ x # a = q @ x # b \<Longrightarrow> p = q \<and> a = b"
proof (induction p arbitrary: q)
  case Nil
  then show ?case by (cases q) auto
next
  case (Cons c p)
  then show ?case by (cases q) auto
qed

lemma append_colon_eq:
  assumes "CHR '':'' \<notin> set p" and "CHR '':'' \<notin> set q" and "a @ CHR '':'' # p = b @ CHR '':'' # q"
  shows "a = b \<and> p = q"
proof -
  have "rev (a @ CHR '':'' # p) = rev (b @ CHR '':'' # q)" using assms(3) by simp
  then have "rev p @ CHR '':'' # rev a = rev q @ CHR '':'' # rev b" by simp
  from split_first_eq[OF _ _ this] assms(1,2) show ?thesis by simp
qed

lemma allowed_acl_policy:
  assumes "CHR '':'' \<notin> set port"
  shows "allowed (acl_policy slugs) src dst port \<longleftrightarrow>
    (\<exists>s \<in> set slugs. src = device_tag s \<and> dst = env_tag s \<and> port = ''22'')"
proof -
  have "dst @ '':'' @ port = env_tag s @ '':22'' \<longleftrightarrow> dst = env_tag s \<and> port = ''22''" for s
    using append_colon_eq[of port "''22''" dst "env_tag s"] assms by auto
  then show ?thesis
    by (auto simp: allowed_def acl_policy_def Let_def acl_rule_def)
qed

lemma owners_fold:
  "map_of (fold (\<lambda>s m. AList.update (env_tag s) o1 (AList.update (device_tag s) o1 m)) ss m0) t =
     (if \<exists>s \<in> set ss. t = device_tag s \<or> t = env_tag s then Some o1 else map_of m0 t)"
  by (induction ss arbitrary: m0) (auto simp: go_simps)

text \<open>C26: the generated policy isolates the users from each other. For whatever list of slugs it is made
  from, the only connections it allows are those from a user's devices to the same user's
  environments, on port 22; and the tags it defines are those of the listed users, each owned by the
  control plane alone.\<close>

theorem acl_isolates_users:
  "(CHR '':'' \<notin> set port \<longrightarrow>
     allowed (acl_policy slugs) src dst port =
       (\<exists>s \<in> set slugs. src = device_tag s \<and> dst = env_tag s \<and> port = ''22'')) \<and>
   map_of (TagOwners (acl_policy slugs)) t =
     (if \<exists>s \<in> set slugs. t = device_tag s \<or> t = env_tag s then Some [''control-plane''] else None)"
  using allowed_acl_policy[of port slugs src dst] by (simp add: acl_policy_def Let_def owners_fold)

lemma acl_isolates_users_witness:
  "allowed (acl_policy [''bob'', ''alice'']) (device_tag ''alice'') (env_tag ''alice'') ''22'' \<and>
   \<not> allowed (acl_policy [''bob'', ''alice'']) (device_tag ''alice'') (env_tag ''bob'') ''22''"
  using acl_isolates_users[where port = "''22''" and slugs = "[''bob'', ''alice'']" and src = "device_tag ''alice''"]
  by simp

lemma GenerateACL_perm:
  assumes "mset slugs = mset slugs'"
  shows "(\<exists>text. GenerateACL slugs = Inr text \<and> GenerateACL slugs' = Inr text) \<longleftrightarrow> (\<forall>s \<in> set slugs. slugRe s)"
proof -
  have "sort slugs = sort slugs'"
    using assms by (metis properties_for_sort sorted_sort mset_sort)
  then have pol: "acl_policy slugs = acl_policy slugs'" by (simp add: acl_policy_def)
  have "set slugs = set slugs'" using assms by (rule mset_eq_setD)
  then show ?thesis
    by (fastforce simp: GenerateACL_def pol acl_slugRe_eq_slugRe find_None_iff dest: find_SomeD split: option.splits)
qed

text \<open>The policy text is a function of the set of users, not of the order in which they are listed:
  lists that are permutations of each other give the same text, and it is refused exactly when a slug
  is malformed, which no account's slug is.\<close>

theorem GenerateACL_deterministic:
  assumes "mset slugs = mset slugs'"
  shows "(\<exists>text. GenerateACL slugs = Inr text \<and> GenerateACL slugs' = Inr text) \<longleftrightarrow> (\<forall>s \<in> set slugs. slugRe s)"
  using assms by (rule GenerateACL_perm)

lemma GenerateACL_deterministic_witness:
  "\<exists>text. GenerateACL [''bob'', ''alice''] = Inr text \<and> GenerateACL [''alice'', ''bob''] = Inr text"
proof -
  have "slugRe ''bob''" and "slugRe ''alice''" by code_simp+
  then show ?thesis using GenerateACL_deterministic[of "[''bob'', ''alice'']" "[''alice'', ''bob'']"] by simp
qed

text \<open>The client takes every answer of status 400 to a user creation for a user that already exists:
  a create request that Headscale rejects as malformed is reported to the callers as an existing
  user, which they ignore.\<close>

theorem any_400_is_already_exists:
  assumes "exchange c ''POST'' (baseURL c @ ''/api/v1/user'')
      [(''Authorization'', ''Bearer '' @ apiKey c), (''Content-Type'', ''application/json'')]
      (Some (json_compact (JObject [(''name'', JString name)]))) s = (Inr (400, body), s')"
  shows "client_CreateUser c unmarshal name s = (Inl hs_ErrUserAlreadyExists, s')"
proof -
  have "hs_do c ''POST'' ''/api/v1/user'' (Some (JObject [(''name'', JString name)])) unmarshal
      \<lparr>hs_user_ID = '''', hs_user_Name = ''''\<rparr> s =
    (Inl (NewError (''headscale POST /api/v1/user'' @ '': 400 '' @ body)), s')"
    using assms by (simp add: hs_do_def go_Itoa_def nat_dec.simps digit_char_eval)
  moreover have "go_Contains (''headscale POST /api/v1/user'' @ '': 400 '' @ body) '': 400 ''"
    unfolding go_Contains_iff by blast
  ultimately show ?thesis
    by (simp add: client_CreateUser_def isHeadscaleStatusError_def go_Itoa_def nat_dec.simps digit_char_eval)
qed

definition demo_http :: "unit hs_http" where
  "demo_http = \<lparr>baseURL = ''http://hs'', apiKey = ''k'', exchange = (\<lambda>_ _ _ _ s. (Inr (400, ''invalid name''), s))\<rparr>"

lemma any_400_is_already_exists_witness:
  "client_CreateUser demo_http (\<lambda>_. Inl NoRows) ''Bad Name'' () = (Inl hs_ErrUserAlreadyExists, ())"
  by (rule any_400_is_already_exists) (simp add: demo_http_def)

end
