(* ===== verification/CpState.thy ===== *)
theory CpState
  imports Users SshKeys ImageTemplates Nodes Envs Headscale Proto
begin

text \<open>
  The state the services of the control plane share: the database, Headscale, and the open agent
  streams with what was sent on them. A stream is known by a number; \<open>broken\<close> lists those whose
  \<open>Send\<close> fails.
\<close>

record 'h cp =
  store :: db
  hs :: 'h
  streams :: "(uuid, nat) gomap"
  outbox :: "(nat \<times> ControlMessage) list"
  broken :: "nat list"

definition on_db :: "(db, 'a) call \<Rightarrow> ('h cp, 'a) call" where
  "on_db m w = (case m (store w) of (r, d) \<Rightarrow> (r, w\<lparr>store := d\<rparr>))"

definition on_hs :: "('h \<Rightarrow> (go_error + 'a) \<times> 'h) \<Rightarrow> ('h cp, 'a) call" where
  "on_hs m w = (case m (hs w) of (r, s) \<Rightarrow> (r, w\<lparr>hs := s\<rparr>))"

text \<open>A call whose error is ignored (or only logged).\<close>

definition ignore_error :: "('s, 'a) call \<Rightarrow> ('s, unit) call" where
  "ignore_error m s = (Inr (), snd (m s))"

lemma on_db_eq: "on_db m w = (fst (m (store w)), w\<lparr>store := snd (m (store w))\<rparr>)"
  by (simp add: on_db_def split: prod.split)

lemma on_hs_eq: "on_hs m w = (fst (m (hs w)), w\<lparr>hs := snd (m (hs w))\<rparr>)"
  by (simp add: on_hs_def split: prod.split)

lemma on_db_frame:
  "on_db m w = (r, w') \<Longrightarrow> hs w' = hs w \<and> streams w' = streams w \<and> outbox w' = outbox w \<and> broken w' = broken w \<and>
     m (store w) = (r, store w')"
  by (auto simp: on_db_def split: prod.splits)

lemma on_hs_frame:
  "on_hs m w = (r, w') \<Longrightarrow> store w' = store w \<and> streams w' = streams w \<and> outbox w' = outbox w \<and> broken w' = broken w \<and>
     m (hs w) = (r, hs w')"
  by (auto simp: on_hs_def split: prod.splits)

definition store_wf :: "'h cp \<Rightarrow> bool" where
  "store_wf w = db_wf (store w)"

lemma keeps_on_db [keeps_intros]: "keeps db_wf m \<Longrightarrow> keeps store_wf (on_db m)"
  by (simp add: keeps_def store_wf_def on_db_eq)

lemma keeps_on_hs [keeps_intros]: "keeps store_wf (on_hs m)"
  by (simp add: keeps_def store_wf_def on_hs_eq)

lemma keeps_ignore_error [keeps_intros]: "keeps P m \<Longrightarrow> keeps P (ignore_error m)"
  by (simp add: keeps_def ignore_error_def)

subsection \<open>Calls that only read\<close>

text \<open>
  A call that reads leaves every table the schema constrains as it is; it may use up expected
  faults and, on the whole state, talk to Headscale or send messages.
\<close>

definition db_rows :: "db \<Rightarrow> User_row list \<times> Key_row list \<times> pair_token_row list \<times> Node_row list \<times> Template_row list \<times> Device list" where
  "db_rows d = (t_users d, t_ssh_keys d, t_pair_tokens d, t_nodes d, t_image_templates d, t_devices d)"

definition same_rows :: "db \<Rightarrow> db \<Rightarrow> bool" where
  "same_rows d d' \<longleftrightarrow> t_envs d' = t_envs d \<and> db_rows d' = db_rows d \<and> (fault_free d \<longrightarrow> fault_free d')"

lemma same_rows_refl [simp]: "same_rows d d"
  by (simp add: same_rows_def)

lemma same_rows_trans: "same_rows d d1 \<Longrightarrow> same_rows d1 d2 \<Longrightarrow> same_rows d d2"
  by (simp add: same_rows_def)

lemma same_rows_drop: "same_rows (drop_fault d) d' \<Longrightarrow> same_rows d d'"
  by (simp add: same_rows_def db_rows_def)

lemma same_rowsD:
  assumes "same_rows d d'"
  shows "t_users d' = t_users d" "t_ssh_keys d' = t_ssh_keys d" "t_pair_tokens d' = t_pair_tokens d"
    "t_nodes d' = t_nodes d" "t_image_templates d' = t_image_templates d" "t_envs d' = t_envs d"
    "t_devices d' = t_devices d" "fault_free d \<Longrightarrow> fault_free d'"
  using assms by (simp_all add: same_rows_def db_rows_def)

lemma same_rows_wf: "same_rows d d' \<Longrightarrow> db_wf d' = db_wf d"
  by (simp add: db_wf_def ok_defs same_rowsD)

lemma same_rows_accounts: "same_rows d d' \<Longrightarrow> accounts_ok d' = accounts_ok d"
  by (simp add: accounts_ok_def same_rowsD)

definition db_reads :: "(db, 'a) call \<Rightarrow> bool" where
  "db_reads m = (\<forall>d. same_rows d (snd (m d)))"

named_theorems reads_intros \<open>calls that only read\<close>

lemma db_reads_stmt [reads_intros]: "db_reads m \<Longrightarrow> db_reads (stmt m)"
  unfolding db_reads_def
proof
  fix d assume m: "\<forall>d. same_rows d (snd (m d))"
  show "same_rows d (snd (stmt m d))"
    by (cases rule: stmt_cases[of m d]) (simp_all add: m same_rows_drop)
qed

lemma db_reads_calls [reads_intros]:
  "db_reads (query_row tab p)" "db_reads (query_rows tab2 q)" "db_reads (give a)" "db_reads (give_error e)"
  "db_reads (insert_audit r)"
  by (auto simp: db_reads_def query_row_def query_rows_def give_def give_error_def insert_audit_def same_rows_def
      db_rows_def split: option.split)

lemma db_reads_chain [reads_intros]:
  assumes "db_reads m"
  shows "db_reads (on_error h m)" "(\<And>a. db_reads (k a)) \<Longrightarrow> db_reads (and_then m k)"
proof -
  show "db_reads (on_error h m)" using assms by (simp add: db_reads_def)
  assume k: "\<And>a. db_reads (k a)"
  show "db_reads (and_then m k)" unfolding db_reads_def
  proof
    fix d
    obtain r d1 where m: "m d = (r, d1)" by force
    then have "same_rows d d1" using assms unfolding db_reads_def by (metis snd_conv)
    with m show "same_rows d (snd (and_then m k d))"
      using k by (cases r) (auto simp: db_reads_def intro: same_rows_trans)
  qed
qed

lemma db_reads_with_state [reads_intros]: "(\<And>d. db_reads (f d)) \<Longrightarrow> db_reads (with_state f)"
  by (simp add: db_reads_def with_state_def)

definition cp_reads :: "('h cp, 'a) call \<Rightarrow> bool" where
  "cp_reads m = (\<forall>w. same_rows (store w) (store (snd (m w))))"

lemma cp_readsD: "cp_reads m \<Longrightarrow> same_rows (store w) (store (snd (m w)))"
  by (simp add: cp_reads_def)

lemma cp_readsD_eq: "cp_reads m \<Longrightarrow> m w = (r, w') \<Longrightarrow> same_rows (store w) (store w')"
  using cp_readsD[of m w] by simp

lemma cp_reads_calls [reads_intros]:
  "db_reads m \<Longrightarrow> cp_reads (on_db m)" "cp_reads (on_hs g)" "cp_reads (give x)" "cp_reads (give_error e)"
  by (auto simp: cp_reads_def db_reads_def on_db_eq on_hs_eq give_def give_error_def)

lemma cp_reads_chain [reads_intros]:
  assumes "cp_reads m"
  shows "cp_reads (on_error h m)" "(\<And>a. cp_reads (k a)) \<Longrightarrow> cp_reads (and_then m k)"
proof -
  show "cp_reads (on_error h m)" using assms by (simp add: cp_reads_def)
  assume k: "\<And>a. cp_reads (k a)"
  show "cp_reads (and_then m k)" unfolding cp_reads_def
  proof
    fix w
    obtain r w1 where m: "m w = (r, w1)" by force
    then have "same_rows (store w) (store w1)" using cp_readsD_eq[OF assms] by simp
    with m show "same_rows (store w) (store (snd (and_then m k w)))"
      using k by (cases r) (auto simp: cp_reads_def intro: same_rows_trans)
  qed
qed

lemma cp_reads_with_state [reads_intros]: "(\<And>w. cp_reads (f w)) \<Longrightarrow> cp_reads (with_state f)"
  by (simp add: cp_reads_def with_state_def)

lemma reads_option [reads_intros]:
  "cp_reads a \<Longrightarrow> (\<And>x. cp_reads (b x)) \<Longrightarrow> cp_reads (case z of None \<Rightarrow> a | Some x \<Rightarrow> b x)"
  by (cases z) simp_all

lemma reads_if [reads_intros]: "cp_reads a \<Longrightarrow> cp_reads b \<Longrightarrow> cp_reads (if c then a else b)"
  by simp

lemma reads_sum [reads_intros]:
  "(\<And>e. cp_reads (a e)) \<Longrightarrow> (\<And>x. cp_reads (b x)) \<Longrightarrow> cp_reads (case z of Inl e \<Rightarrow> a e | Inr x \<Rightarrow> b x)"
  by (cases z) simp_all

lemma cp_reads_wf: "cp_reads m \<Longrightarrow> keeps store_wf m"
  by (simp add: keeps_def store_wf_def same_rows_wf[OF cp_readsD])

lemma service_reads [reads_intros]:
  "db_reads (envs_ByID i)" "db_reads (users_ByID i)" "db_reads (keys_List i)" "db_reads (TemplateByID t)"
  unfolding envs_ByID_def users_ByID_def keys_List_def TemplateByID_def by (intro reads_intros)+

lemma audit_Log_reads [reads_intros]: "db_reads (audit_Log marshal e)"
  unfolding audit_Log_def Let_def by (auto split: option.split sum.split intro!: reads_intros)

end
