(* ===== verification/EnvDispatch.thy ===== *)
theory EnvDispatch
  imports CpState
begin

text \<open>
  The interface \<open>envs.Dispatcher\<close> of \<open>envs/handlers.go\<close>: the four commands an environment handler
  hands to the agent. What the handlers rely on is which rows a command may touch: none, but for the
  delete of an environment whose agent is not connected.
\<close>

lemma db_wf_delete_envs: "db_wf d \<Longrightarrow> db_wf (d\<lparr>t_envs := delete_rows p (t_envs d)\<rparr>)"
  using keepsD[OF keeps_deletes(2), of d p] by (simp add: delete_envs_def)

locale env_dispatcher =
  fixes create stop start delete :: "uuid \<Rightarrow> ('h cp, unit) call"
  assumes create_reads: "cp_reads (create i)"
    and stop_reads: "cp_reads (stop i)"
    and start_reads: "cp_reads (start i)"
    and delete_rows_of: "same_rows (store w) (store (snd (delete i w))) \<or>
      same_rows ((store w)\<lparr>t_envs := delete_rows (\<lambda>e. env_ID e = i) (t_envs (store w))\<rparr>) (store (snd (delete i w)))"
begin

lemma delete_wf: "store_wf w \<Longrightarrow> store_wf (snd (delete i w))"
  using delete_rows_of[of w i] db_wf_delete_envs[of "store w"] same_rows_wf by (metis store_wf_def)

text \<open>Whichever command runs, another owner's environments are not touched.\<close>

lemma others_untouched:
  assumes "f \<in> {create, stop, start, delete}" and "e \<in> set (t_envs (store w))" and "env_ID e \<noteq> i"
  shows "e \<in> set (t_envs (store (snd (f i w))))"
  using assms delete_rows_of[of w i] same_rowsD(6)[OF cp_readsD[OF create_reads, of w i]]
    same_rowsD(6)[OF cp_readsD[OF stop_reads, of w i]] same_rowsD(6)[OF cp_readsD[OF start_reads, of w i]]
  by (auto simp: set_delete_rows same_rows_def)

end

end
