(* ===== verification/EnvsHttp.thy ===== *)
theory EnvsHttp
  imports Http EnvDispatch
begin

text \<open>
  \<open>envs/handlers.go\<close>: the environment routes. The dispatcher is the interface \<open>env_dispatcher\<close>; a nil
  and an empty slice of device indices are the same list here.
\<close>

record createReq =
  ec_NodeID :: gostring
  ec_TemplateID :: gostring
  ec_Name :: gostring
  ec_GPURequest :: int

record envResp =
  er_ID :: gostring
  er_NodeID :: gostring
  er_TemplateID :: gostring
  er_Name :: gostring
  er_Hostname :: gostring
  er_Status :: gostring
  er_StatusMessage :: gostring
  er_SidecarContainerID :: gostring
  er_DevContainerID :: gostring
  er_GPURequest :: int
  er_GPUIndices :: "int list"

definition toResp :: "http_env \<Rightarrow> Env \<Rightarrow> envResp" where
  "toResp E e =
     \<lparr>er_ID = he_uuidString E (env_ID e), er_NodeID = he_uuidString E (env_NodeID e),
      er_TemplateID = env_TemplateID e, er_Name = env_Name e, er_Hostname = env_Hostname e,
      er_Status = env_Status e, er_StatusMessage = env_StatusMessage e,
      er_SidecarContainerID = env_SidecarContainerID e, er_DevContainerID = env_DevContainerID e,
      er_GPURequest = env_GPURequest e, er_GPUIndices = env_GPUIndices e\<rparr>"

definition create_request :: "uuid \<Rightarrow> uuid \<Rightarrow> createReq \<Rightarrow> CreateRequest" where
  "create_request uid nodeID r =
     \<lparr>cr_OwnerUserID = uid, cr_NodeID = nodeID, cr_TemplateID = ec_TemplateID r, cr_Name = ec_Name r,
      cr_GPURequest = ec_GPURequest r\<rparr>"

definition dispatch_created ::
  "http_env \<Rightarrow> (uuid \<Rightarrow> ('h cp, unit) call) \<Rightarrow> Env \<Rightarrow> ('h cp, envResp reply) handler" where
  "dispatch_created E create env w =
     (case create (env_ID env) w of
        (Inl err, w) \<Rightarrow> (httperr_Write 500 (''dispatch failed: '' @ error_text err), snd (on_db (envs_Delete (env_ID env)) w))
      | (Inr _, w) \<Rightarrow> respond 202 (JsonBody (One (toResp E env))) w)"

definition handle_envs_create ::
  "http_env \<Rightarrow> (uuid \<Rightarrow> ('h cp, unit) call) \<Rightarrow> uuid option \<Rightarrow> createReq option \<Rightarrow> ('h cp, envResp reply) handler" where
  "handle_envs_create E create uid req =
     (case req of
        None \<Rightarrow> refuse 400 ''invalid json''
      | Some r \<Rightarrow>
          (case he_uuidParse E (ec_NodeID r) of
             Inl _ \<Rightarrow> refuse 400 ''invalid node_id''
           | Inr nodeID \<Rightarrow>
               if ec_GPURequest r < 0 then refuse 400 ''gpu_request must be >= 0''
               else serve (on_db (envs_Create (he_uuidString E) (create_request (uid_or_zero uid) nodeID r)))
                      (err_response [(envs_ErrInvalidName, 400, ''invalid env name''),
                                     (envs_ErrNameTaken, 409, ''env name taken'')])
                      (dispatch_created E create)))"

definition handle_envs_list :: "http_env \<Rightarrow> uuid option \<Rightarrow> ('h cp, envResp reply) handler" where
  "handle_envs_list E uid =
     serve (on_db (envs_ListByOwner (uid_or_zero uid))) (\<lambda>_. internal_error)
       (\<lambda>got. respond 200 (JsonBody (Many (map (toResp E) got))))"

text \<open>
  Look up the environment of the URL; a missing one and one of another user are both not found.
\<close>

definition with_own_env ::
  "http_env \<Rightarrow> uuid option \<Rightarrow> gostring \<Rightarrow> (uuid \<Rightarrow> Env \<Rightarrow> ('h cp, 'b) handler) \<Rightarrow> ('h cp, 'b) handler" where
  "with_own_env E uid idText k =
     (case he_uuidParse E idText of
        Inl _ \<Rightarrow> refuse 400 ''invalid id''
      | Inr i \<Rightarrow>
          serve (on_db (envs_ByID i)) (err_response [(envs_ErrNotFound, 404, ''not found'')])
            (\<lambda>env. if env_OwnerUserID env \<noteq> uid_or_zero uid then refuse 404 ''not found'' else k i env))"

definition handle_envs_get :: "http_env \<Rightarrow> uuid option \<Rightarrow> gostring \<Rightarrow> ('h cp, envResp reply) handler" where
  "handle_envs_get E uid idText = with_own_env E uid idText (\<lambda>_ env. respond 200 (JsonBody (One (toResp E env))))"

definition handle_envs_action ::
  "http_env \<Rightarrow> (uuid \<Rightarrow> ('h cp, unit) call) \<Rightarrow> uuid option \<Rightarrow> gostring \<Rightarrow> ('h cp, envResp reply) handler" where
  "handle_envs_action E fn uid idText =
     with_own_env E uid idText (\<lambda>i _.
       serve (fn i) (\<lambda>_. httperr_Write 500 ''dispatch failed'') (\<lambda>_. respond 202 NoBody))"

text \<open>The routes of \<open>Mount\<close>, with the four commands of the dispatcher.\<close>

datatype env_route = EnvList | EnvCreate "createReq option" | EnvGet gostring
  | EnvStop gostring | EnvStart gostring | EnvDelete gostring

fun serve_envs ::
  "http_env \<Rightarrow> (uuid \<Rightarrow> ('h cp, unit) call) \<Rightarrow> (uuid \<Rightarrow> ('h cp, unit) call) \<Rightarrow> (uuid \<Rightarrow> ('h cp, unit) call) \<Rightarrow>
   (uuid \<Rightarrow> ('h cp, unit) call) \<Rightarrow> uuid option \<Rightarrow> env_route \<Rightarrow> ('h cp, envResp reply) handler" where
  "serve_envs E create stop start delete uid EnvList = handle_envs_list E uid"
| "serve_envs E create stop start delete uid (EnvCreate req) = handle_envs_create E create uid req"
| "serve_envs E create stop start delete uid (EnvGet i) = handle_envs_get E uid i"
| "serve_envs E create stop start delete uid (EnvStop i) = handle_envs_action E stop uid i"
| "serve_envs E create stop start delete uid (EnvStart i) = handle_envs_action E start uid i"
| "serve_envs E create stop start delete uid (EnvDelete i) = handle_envs_action E delete uid i"

end
