(* ===== verification/AgentStream.thy ===== *)
theory AgentStream
  imports CpState
begin

text \<open>
  \<open>agentstream/server.go\<close>: the control plane's end of an agent's stream (open, register, the
  messages of the main loop, close) and the dispatcher that sends the environment commands to the
  stream of the environment's node. Concurrent streams and requests are interleavings of these
  steps. A stream is identified by its number; \<open>uuidString\<close> and \<open>uuidParse\<close> are those of the UUID
  package.
\<close>

record stream_env =
  su_String :: "uuid \<Rightarrow> gostring"
  su_Parse :: "gostring \<Rightarrow> errtext + uuid"
  su_hash :: "gostring \<Rightarrow> gostring"

datatype stream_status = StreamOK | Unauthenticated_err gostring | Internal_err gostring
  | FailedPrecondition_err gostring | Transport_err gostring

definition registerStream :: "uuid \<Rightarrow> nat \<Rightarrow> 'h cp \<Rightarrow> 'h cp" where
  "registerStream nodeID sid w = w\<lparr>streams := AList.update nodeID sid (streams w)\<rparr>"

definition unregisterStream :: "uuid \<Rightarrow> 'h cp \<Rightarrow> 'h cp" where
  "unregisterStream nodeID w = w\<lparr>streams := AList.delete nodeID (streams w)\<rparr>"

definition streamFor :: "uuid \<Rightarrow> 'h cp \<Rightarrow> nat option" where
  "streamFor nodeID w = map_of (streams w) nodeID"

text \<open>\<open>lockedServerStream.Send\<close>.\<close>

definition stream_Send :: "nat \<Rightarrow> ControlMessage \<Rightarrow> ('h cp, unit) call" where
  "stream_Send sid msg w =
     (if sid \<in> set (broken w) then (Inl (NewError ''transport is closing''), w)
      else (Inr (), w\<lparr>outbox := outbox w @ [(sid, msg)]\<rparr>))"

subsection \<open>The stream's life\<close>

text \<open>
  \<open>metadata\<close> is the list of \<open>node-token\<close> values, if the stream has metadata at all. A stream that
  authenticates is registered as its node's stream at once.
\<close>

definition stream_open ::
  "stream_env \<Rightarrow> gostring list option \<Rightarrow> nat \<Rightarrow> 'h cp \<Rightarrow> (stream_status + Node) \<times> 'h cp" where
  "stream_open X metadata sid w =
     (case metadata of
        None \<Rightarrow> (Inl (Unauthenticated_err ''missing metadata''), w)
      | Some [] \<Rightarrow> (Inl (Unauthenticated_err ''missing node-token''), w)
      | Some (token # _) \<Rightarrow>
          (case on_db (AuthenticateNodeToken (su_hash X) token) w of
             (Inl err, w) \<Rightarrow>
               (Inl (if errors_Is err nodes_ErrNodeTokenInvalid then Unauthenticated_err ''invalid node-token''
                     else Internal_err ''auth failure''), w)
           | (Inr node, w) \<Rightarrow> (Inr node, registerStream (node_ID node) sid w)))"

text \<open>The deferred calls: the node is marked offline, then its stream is forgotten.\<close>

definition stream_close :: "uuid \<Rightarrow> 'h cp \<Rightarrow> 'h cp" where
  "stream_close nodeID w = unregisterStream nodeID (snd (on_db (MarkOffline nodeID) w))"

definition encodeGPUs :: "pb_GPU list \<Rightarrow> gostring" where
  "encodeGPUs gpus =
     (if gpus = [] then ''[]''
      else json_compact (JArray (map (\<lambda>g. JObject
        [(''index'', JNumber (gpu_index g)), (''model'', JString (gpu_model g)),
         (''vram_mb'', JNumber (gpu_vram_mb g))]) gpus)))"

definition stream_first ::
  "stream_env \<Rightarrow> uuid \<Rightarrow> nat \<Rightarrow> AgentMessage \<Rightarrow> 'h cp \<Rightarrow> (stream_status + unit) \<times> 'h cp" where
  "stream_first X nodeID sid first w =
     (case first of
        Register version gpus \<Rightarrow>
          (case on_db (UpdateRegister nodeID version (encodeGPUs gpus)) w of
             (Inl _, w) \<Rightarrow> (Inl (Internal_err ''update register''), w)
           | (Inr _, w) \<Rightarrow>
               (case stream_Send sid (RegisterAck (su_String X nodeID)) w of
                  (Inl err, w) \<Rightarrow> (Inl (Transport_err (error_text err)), w)
                | (Inr _, w) \<Rightarrow> (Inr (), w)))
      | _ \<Rightarrow> (Inl (FailedPrecondition_err ''first message must be Register''), w))"

text \<open>The rows of a snapshot that the agent does not report are marked as lost.\<close>

definition resync_rows :: "stream_env \<Rightarrow> gostring list \<Rightarrow> Env list \<Rightarrow> 'h cp \<Rightarrow> 'h cp" where
  "resync_rows X reported rows w =
     fold (\<lambda>e w. if su_String X (env_ID e) \<notin> set reported
                 then snd (on_db (envs_MarkError (env_ID e) ''resync'' ''lost during agent reconnect'') w)
                 else w) rows w"

definition with_env :: "stream_env \<Rightarrow> gostring \<Rightarrow> (uuid \<Rightarrow> 'h cp \<Rightarrow> 'h cp) \<Rightarrow> 'h cp \<Rightarrow> 'h cp" where
  "with_env X envID f w = (case su_Parse X envID of Inl _ \<Rightarrow> w | Inr i \<Rightarrow> f i w)"

definition stream_message :: "stream_env \<Rightarrow> uuid \<Rightarrow> nat \<Rightarrow> AgentMessage \<Rightarrow> 'h cp \<Rightarrow> 'h cp" where
  "stream_message X nodeID sid msg w =
     (case msg of
        Heartbeat _ \<Rightarrow> snd (stream_Send sid HeartbeatAck (snd (on_db (RecordHeartbeat nodeID) w)))
      | EnvReady envID sidecar dev gpus \<Rightarrow>
          with_env X envID (\<lambda>i w. snd (on_db (envs_MarkRunning i sidecar dev gpus) w)) w
      | EnvStopped envID \<Rightarrow> with_env X envID (\<lambda>i w. snd (on_db (envs_MarkStopped i) w)) w
      | EnvDeleted envID \<Rightarrow> with_env X envID (\<lambda>i w. snd (on_db (envs_Delete i) w)) w
      | EnvError envID stage detail \<Rightarrow> with_env X envID (\<lambda>i w. snd (on_db (envs_MarkError i stage detail) w)) w
      | EnvSnapshot ids \<Rightarrow>
          (case on_db (envs_ListRunningOnNode nodeID) w of
             (Inl _, w) \<Rightarrow> w
           | (Inr rows, w) \<Rightarrow> resync_rows X ids rows w)
      | _ \<Rightarrow> w)"

text \<open>The whole handler on the messages it receives before the stream ends, with its exit status.\<close>

definition Stream ::
  "stream_env \<Rightarrow> gostring list option \<Rightarrow> nat \<Rightarrow> AgentMessage list \<Rightarrow> stream_status \<Rightarrow> 'h cp
     \<Rightarrow> stream_status \<times> 'h cp" where
  "Stream X metadata sid msgs ending w =
     (case stream_open X metadata sid w of
        (Inl st, w) \<Rightarrow> (st, w)
      | (Inr node, w) \<Rightarrow>
          (case msgs of
             [] \<Rightarrow> ((if ending = StreamOK then Transport_err ''EOF'' else ending), stream_close (node_ID node) w)
           | first # rest \<Rightarrow>
               (case stream_first X (node_ID node) sid first w of
                  (Inl st, w) \<Rightarrow> (st, stream_close (node_ID node) w)
                | (Inr _, w) \<Rightarrow>
                    (ending, stream_close (node_ID node) (fold (stream_message X (node_ID node) sid) rest w)))))"

subsection \<open>The dispatcher\<close>

record dispatcher_config =
  dc_headscaleClientURL :: gostring
  dc_sidecarImage :: gostring

definition concatKeys :: "Key list \<Rightarrow> gostring" where
  "concatKeys keys = concat (map (\<lambda>k. key_PublicKey k @ [CHR 0x0A]) keys)"

definition env_key_request :: "gostring \<Rightarrow> PreAuthKeyRequest" where
  "env_key_request slug =
     \<lparr>pk_User = slug, pk_Reusable = False, pk_Ephemeral = True, pk_Expiration = 24 * 60 * 60 * 1000000000,
      pk_ACLTags = [env_tag slug]\<rparr>"

definition dispatch_Create ::
  "stream_env \<Rightarrow> 'h hs_client \<Rightarrow> dispatcher_config \<Rightarrow> uuid \<Rightarrow> ('h cp, unit) call" where
  "dispatch_Create X H cfg envID =
     and_then (on_db (envs_ByID envID)) (\<lambda>env.
     and_then (on_db (users_ByID (env_OwnerUserID env))) (\<lambda>user.
     and_then (on_db (keys_List (env_OwnerUserID env))) (\<lambda>keys.
     and_then (on_error (Wrap ''preauthkey: '') (on_hs (hs_CreatePreAuthKey H (env_key_request (user_Slug user))))) (\<lambda>pak.
     and_then (on_db (TemplateByID (env_TemplateID env))) (\<lambda>tpl.
     with_state (\<lambda>w. case streamFor (env_NodeID env) w of
        None \<Rightarrow> give_error (NewError (''agent not connected for node '' @ su_String X (env_NodeID env)))
      | Some sid \<Rightarrow>
          stream_Send sid (MsgCreateEnv
            \<lparr>ce_env_id = su_String X envID, ce_image_ref = ti_ImageRef tpl,
             ce_sidecar_image_ref = dc_sidecarImage cfg, ce_hostname = env_Hostname env,
             ce_headscale_url = dc_headscaleClientURL cfg, ce_preauth_key = pak,
             ce_tags = [env_tag (user_Slug user)], ce_authorized_keys = concatKeys keys,
             ce_gpu_request = env_GPURequest env, ce_default_cmd = ti_DefaultCmd tpl\<rparr>)))))))"

definition dispatch_Stop :: "stream_env \<Rightarrow> uuid \<Rightarrow> ('h cp, unit) call" where
  "dispatch_Stop X envID =
     and_then (on_db (envs_ByID envID)) (\<lambda>env.
     with_state (\<lambda>w. case streamFor (env_NodeID env) w of
        None \<Rightarrow> give_error (NewError ''agent not connected'')
      | Some sid \<Rightarrow> stream_Send sid (MsgStopEnv (su_String X envID))))"

definition dispatch_Start :: "stream_env \<Rightarrow> 'h hs_client \<Rightarrow> uuid \<Rightarrow> ('h cp, unit) call" where
  "dispatch_Start X H envID =
     and_then (on_db (envs_ByID envID)) (\<lambda>env.
     and_then (on_db (users_ByID (env_OwnerUserID env))) (\<lambda>user.
     and_then (on_db (keys_List (env_OwnerUserID env))) (\<lambda>keys.
     and_then (on_hs (hs_CreatePreAuthKey H (env_key_request (user_Slug user)))) (\<lambda>pak.
     with_state (\<lambda>w. case streamFor (env_NodeID env) w of
        None \<Rightarrow> give_error (NewError ''agent not connected'')
      | Some sid \<Rightarrow>
          stream_Send sid (MsgStartEnv
            \<lparr>se_env_id = su_String X envID, se_preauth_key = pak, se_authorized_keys = concatKeys keys\<rparr>))))))"

definition dispatch_Delete :: "stream_env \<Rightarrow> uuid \<Rightarrow> ('h cp, unit) call" where
  "dispatch_Delete X envID =
     and_then (on_db (envs_ByID envID)) (\<lambda>env.
     with_state (\<lambda>w. case streamFor (env_NodeID env) w of
        None \<Rightarrow> on_db (envs_Delete envID)
      | Some sid \<Rightarrow> stream_Send sid (MsgDeleteEnv (su_String X envID))))"

end
