(* ===== verification/AgentStreamProperties.thy ===== *)
theory AgentStreamProperties
  imports AgentStream EnvDispatch
begin

text \<open>
  What the control plane's end of the streams promises: the dispatcher meets the interface of the
  environment handlers, the snapshot of a reconnecting agent brings the rows in line, and which
  command reaches which agent; and three gaps of the stream bookkeeping.
\<close>

subsection \<open>The dispatcher and its interface\<close>

lemma stream_Send_reads [reads_intros]: "cp_reads (stream_Send sid msg)"
  by (auto simp: cp_reads_def stream_Send_def)

lemma dispatch_reads:
  "cp_reads (dispatch_Create X H cfg i)" "cp_reads (dispatch_Stop X i)" "cp_reads (dispatch_Start X H i)"
  unfolding dispatch_Create_def dispatch_Stop_def dispatch_Start_def by (intro reads_intros)+

lemma envs_Delete_rows:
  "same_rows d (snd (envs_Delete i d)) \<or>
   same_rows (d\<lparr>t_envs := delete_rows (\<lambda>e. env_ID e = i) (t_envs d)\<rparr>) (snd (envs_Delete i d))"
  by (cases rule: stmt_cases[of "delete_envs (\<lambda>e. env_ID e = i)" d])
    (auto simp: envs_Delete_def on_error_def and_then_def delete_envs_def give_def give_error_def same_rows_def db_rows_def)

lemma dispatch_Delete_rows:
  "same_rows (store w) (store (snd (dispatch_Delete X i w))) \<or>
   same_rows ((store w)\<lparr>t_envs := delete_rows (\<lambda>e. env_ID e = i) (t_envs (store w))\<rparr>) (store (snd (dispatch_Delete X i w)))"
proof -
  obtain r w1 where r: "on_db (envs_ByID i) w = (r, w1)" by force
  have s: "same_rows (store w) (store w1)"
    using cp_readsD[OF cp_reads_calls(1)[OF service_reads(1)], of w i] r by simp
  show ?thesis
  proof (cases r)
    case (Inl e)
    with r s show ?thesis by (simp add: dispatch_Delete_def)
  next
    case (Inr env)
    then have eq: "dispatch_Delete X i w = (case streamFor (env_NodeID env) w1 of
        None \<Rightarrow> on_db (envs_Delete i) w1 | Some sid \<Rightarrow> stream_Send sid (MsgDeleteEnv (su_String X i)) w1)"
      using r by (simp add: dispatch_Delete_def with_state_def split: option.split)
    show ?thesis
    proof (cases "streamFor (env_NodeID env) w1")
      case None
      with eq envs_Delete_rows[of "store w1" i] s show ?thesis
        by (auto simp: on_db_eq same_rows_def db_rows_def)
    next
      case (Some sid)
      with eq s show ?thesis by (simp add: stream_Send_def)
    qed
  qed
qed

interpretation agent_dispatcher:
  env_dispatcher "dispatch_Create X H cfg" "dispatch_Stop X" "dispatch_Start X H" "dispatch_Delete X"
  for X :: stream_env and H :: "'h hs_client" and cfg :: dispatcher_config
  by unfold_locales (rule dispatch_reads dispatch_Delete_rows)+

subsection \<open>Resynchronisation\<close>

definition lost :: "int \<Rightarrow> Env_row \<Rightarrow> Env_row" where
  "lost now e = e\<lparr>env_Status := ''error'', env_StatusMessage := ''[resync] lost during agent reconnect'',
     env_GPUIndices := [], env_UpdatedAt := now\<rparr>"

lemma lost_status: "env_Status (lost now e) = ''error''"
  by (simp add: lost_def)

lemma MarkError_lost:
  assumes "fault_free (store w)"
  shows "snd (on_db (envs_MarkError i ''resync'' ''lost during agent reconnect'') w) =
    w\<lparr>store := (drop_fault (store w))\<lparr>t_envs := update_rows (\<lambda>e. env_ID e = i) (lost (db_now (store w)))
       (t_envs (store w))\<rparr>\<rparr>"
proof -
  have "(\<lambda>e. (e\<lparr>env_Status := ''error'', env_StatusMessage := ''['' @ ''resync'' @ ''] '' @ ''lost during agent reconnect'',
      env_GPUIndices := []\<rparr>)\<lparr>env_UpdatedAt := t\<rparr>) = lost t" for t
    by (rule ext) (simp add: lost_def)
  then show ?thesis using assms
    by (simp add: on_db_eq envs_MarkError_def envs_update_row_result stmt_fault_free give_def)
qed

lemma update_rows_cong: "(\<And>e. e \<in> set t \<Longrightarrow> p e = q e) \<Longrightarrow> update_rows p f t = update_rows q f t"
  by (simp add: update_rows_def)

lemma update_rows_or:
  assumes "\<And>e. p (f e) = p e" "\<And>e. f (f e) = f e"
  shows "update_rows p f (update_rows q f t) = update_rows (\<lambda>e. q e \<or> p e) f t"
  by (auto simp: update_rows_def assms)

lemma resync_fold:
  assumes "fault_free (store w)"
  shows "t_envs (store (resync_rows X ids rows w)) =
      update_rows (\<lambda>e. env_ID e \<in> env_ID ` set rows \<and> su_String X (env_ID e) \<notin> set ids)
        (lost (db_now (store w))) (t_envs (store w)) \<and>
    t_nodes (store (resync_rows X ids rows w)) = t_nodes (store w) \<and> outbox (resync_rows X ids rows w) = outbox w"
  using assms
proof (induction rows arbitrary: w)
  case Nil
  then show ?case by (simp add: resync_rows_def update_rows_def)
next
  case (Cons r rows)
  let ?f = "lost (db_now (store w))"
  let ?p = "\<lambda>rows e. env_ID e \<in> env_ID ` set rows \<and> su_String X (env_ID e) \<notin> set ids"
  have f: "env_ID (?f e) = env_ID e" "?f (?f e) = ?f e" for e by (simp_all add: lost_def)
  have rec: "resync_rows X ids (r # rows) w = resync_rows X ids rows
      (if su_String X (env_ID r) \<notin> set ids
       then snd (on_db (envs_MarkError (env_ID r) ''resync'' ''lost during agent reconnect'') w) else w)"
    by (simp add: resync_rows_def)
  show ?case
  proof (cases "su_String X (env_ID r) \<notin> set ids")
    case True
    let ?w = "snd (on_db (envs_MarkError (env_ID r) ''resync'' ''lost during agent reconnect'') w)"
    have w: "fault_free (store ?w)" "db_now (store ?w) = db_now (store w)" "t_nodes (store ?w) = t_nodes (store w)"
      "outbox ?w = outbox w" "t_envs (store ?w) = update_rows (\<lambda>e. env_ID e = env_ID r) ?f (t_envs (store w))"
      using Cons.prems by (simp_all add: MarkError_lost)
    have "update_rows (?p rows) ?f (update_rows (\<lambda>e. env_ID e = env_ID r) ?f (t_envs (store w))) =
        update_rows (\<lambda>e. env_ID e = env_ID r \<or> ?p rows e) ?f (t_envs (store w))"
      by (rule update_rows_or) (simp_all add: f)
    also have "(\<lambda>e. env_ID e = env_ID r \<or> ?p rows e) = ?p (r # rows)" using True by auto
    finally show ?thesis using Cons.IH[OF w(1)] True w by (simp add: rec)
  next
    case False
    then have eq: "?p (r # rows) = ?p rows" by auto
    show ?thesis unfolding eq using Cons.IH[OF Cons.prems] False by (simp add: rec)
  qed
qed

text \<open>C32: a reconnect snapshot brings the rows of the node in line with the agent: with no failing
  statement, exactly the rows of this node that were running and are not reported become lost (error,
  no devices), every other row of every node stays as it is, and afterwards each row of this node
  that is still running was reported.\<close>

theorem snapshot_resyncs:
  assumes "fault_free (store w)" and "db_wf (store w)"
  shows "t_envs (store (stream_message X n sid (EnvSnapshot ids) w)) =
      update_rows (\<lambda>e. env_NodeID e = n \<and> env_Status e = ''running'' \<and> su_String X (env_ID e) \<notin> set ids)
        (lost (db_now (store w))) (t_envs (store w)) \<and>
    (\<forall>e \<in> set (t_envs (store (stream_message X n sid (EnvSnapshot ids) w))).
       env_NodeID e = n \<longrightarrow> env_Status e = ''running'' \<longrightarrow> su_String X (env_ID e) \<in> set ids)"
proof -
  let ?t = "t_envs (store w)"
  let ?run = "\<lambda>e. env_NodeID e = n \<and> env_Status e = ''running''"
  let ?rows = "map Env.truncate (filter ?run ?t)"
  let ?w = "w\<lparr>store := drop_fault (store w)\<rparr>"
  have l: "on_db (envs_ListRunningOnNode n) w = (Inr ?rows, ?w)"
    using assms(1) by (simp add: on_db_def envs_ListRunningOnNode_def stmt_fault_free query_rows_def select_rows_def
        on_error_def and_then_def give_def)
  have ids: "env_ID ` set ?rows = env_ID ` set (filter ?run ?t)"
    by (force simp: Env.defs)
  have iff: "env_ID e \<in> env_ID ` set (filter ?run ?t) \<longleftrightarrow> ?run e" if "e \<in> set ?t" for e
  proof
    assume "env_ID e \<in> env_ID ` set (filter ?run ?t)"
    then obtain x where x: "x \<in> set ?t" "?run x" "env_ID x = env_ID e" by auto
    then have "x = e" using uniq_same[OF _ x(1) that x(3)] assms(2) by (simp add: db_wf_def envs_ok_def)
    with x show "?run e" by simp
  qed (use that in auto)
  have eq: "update_rows (\<lambda>e. env_ID e \<in> env_ID ` set ?rows \<and> su_String X (env_ID e) \<notin> set ids) (lost (db_now (store w))) ?t =
      update_rows (\<lambda>e. ?run e \<and> su_String X (env_ID e) \<notin> set ids) (lost (db_now (store w))) ?t"
    unfolding ids by (rule update_rows_cong) (simp only: iff)
  have "t_envs (store (stream_message X n sid (EnvSnapshot ids) w)) =
      update_rows (\<lambda>e. ?run e \<and> su_String X (env_ID e) \<notin> set ids) (lost (db_now (store w))) ?t"
  proof -
    have run: "stream_message X n sid (EnvSnapshot ids) w = resync_rows X ids ?rows ?w"
      unfolding stream_message_def by (simp only: AgentMessage.case l prod.case sum.case)
    have ff: "fault_free (store ?w)" and now: "db_now (store ?w) = db_now (store w)" "t_envs (store ?w) = ?t"
      using assms(1) by simp_all
    show ?thesis unfolding run conjunct1[OF resync_fold[OF ff]] now by (rule eq)
  qed
  moreover have "e \<in> set (update_rows (\<lambda>e. ?run e \<and> su_String X (env_ID e) \<notin> set ids) (lost t) ts) \<Longrightarrow>
      ?run e \<Longrightarrow> su_String X (env_ID e) \<in> set ids" for e t ts
    unfolding set_update_rows by (auto simp: lost_status split: if_splits)
  ultimately show ?thesis by (simp only: conj_assoc) blast
qed

text \<open>A node with two running environments and one stopped, of which the agent reports one.\<close>

definition demo_env_row :: "uuid \<Rightarrow> gostring \<Rightarrow> gostring \<Rightarrow> Env_row" where
  "demo_env_row i name status = \<lparr>env_ID = i, env_OwnerUserID = 1, env_NodeID = 50, env_TemplateID = ''cuda-base'',
     env_Name = name, env_Hostname = ''team-'' @ name, env_Status = status, env_StatusMessage = '''',
     env_SidecarContainerID = '''', env_DevContainerID = '''', env_GPURequest = 1, env_GPUIndices = [],
     env_VolumeName = '''', env_CreatedAt = 0, env_UpdatedAt = 0\<rparr>"

definition demo_cp :: "unit cp" where
  "demo_cp = \<lparr>store = (empty_db (\<lambda>n. n + 100) 0)
     \<lparr>t_users := [\<lparr>user_ID = 1, user_Email = ''a@x'', user_Slug = ''team'', user_PasswordHash = '''', user_CreatedAt = 0\<rparr>],
      t_nodes := [\<lparr>node_ID = 50, node_OwnerUserID = 1, node_Name = ''box'', node_AgentVersion = '''',
          node_GPUInfo = ''[]'', node_Status = ''online'', node_LastSeenAt = None, node_TokenHash = ''tok''\<rparr>],
      t_envs := [demo_env_row 7 ''one'' ''running'', demo_env_row 8 ''two'' ''running'', demo_env_row 9 ''three'' ''stopped'']\<rparr>,
     hs = (), streams = [(50, 1)], outbox = [], broken = []\<rparr>"

definition demo_stream :: stream_env where
  "demo_stream = \<lparr>su_String = nat_dec, su_Parse = (\<lambda>s. case atoi_unsigned s of None \<Rightarrow> Inl ''invalid UUID'' | Some n \<Rightarrow> Inr n),
     su_hash = id\<rparr>"

lemma demo_cp_wf: "db_wf (store demo_cp)"
  by (simp add: demo_cp_def db_wf_def ok_defs uniq_def refers_def demo_env_row_def empty_db_def seeded_template_def)

lemma snapshot_resyncs_witness:
  "map env_Status (t_envs (store (stream_message demo_stream 50 1 (EnvSnapshot [''8'']) demo_cp))) =
     [''error'', ''running'', ''stopped'']"
proof -
  have "fault_free (store demo_cp)" by (simp add: demo_cp_def)
  then have "t_envs (store (stream_message demo_stream 50 1 (EnvSnapshot [''8'']) demo_cp)) =
      update_rows (\<lambda>e. env_NodeID e = 50 \<and> env_Status e = ''running'' \<and> su_String demo_stream (env_ID e) \<notin> set [''8''])
        (lost (db_now (store demo_cp))) (t_envs (store demo_cp))"
    using snapshot_resyncs[OF _ demo_cp_wf] by blast
  moreover have "map env_Status (update_rows (\<lambda>e. env_NodeID e = 50 \<and> env_Status e = ''running'' \<and>
      su_String demo_stream (env_ID e) \<notin> set [''8'']) (lost (db_now (store demo_cp))) (t_envs (store demo_cp))) =
      [''error'', ''running'', ''stopped'']" by code_simp
  ultimately show ?thesis by simp
qed

subsection \<open>Which command reaches which agent\<close>

lemma envs_ByID_ok:
  "envs_ByID i d = (Inr e, d') \<Longrightarrow> d' = drop_fault d \<and> (\<exists>r \<in> set (t_envs d). env_ID r = i \<and> e = Env.truncate r)"
  by (auto simp: envs_ByID_def call_iffs query_row_def elim!: stmt_okE split: option.splits dest!: select_one_Some)

lemma users_ByID_ok:
  "users_ByID i d = (Inr u, d') \<Longrightarrow> d' = drop_fault d \<and>
     (\<exists>r \<in> set (t_users d). user_ID r = i \<and> user_ID u = i \<and> user_Slug u = user_Slug r)"
  by (auto simp: users_ByID_def call_iffs query_row_def elim!: stmt_okE split: option.splits dest!: select_one_Some)

lemma keys_List_ok:
  "keys_List i d = (Inr ks, d') \<Longrightarrow> d' = drop_fault d \<and>
     ks = map Key.truncate (sort_key key_CreatedAt (select_rows (\<lambda>k. key_UserID k = i) (t_ssh_keys d)))"
  by (auto simp: keys_List_def call_iffs query_rows_def elim!: stmt_okE)

lemma TemplateByID_ok:
  "TemplateByID i d = (Inr t, d') \<Longrightarrow> d' = drop_fault d \<and>
     (\<exists>r \<in> set (t_image_templates d). tpl_ID r = i \<and> tpl_Enabled r \<and> ti_ImageRef t = tpl_ImageRef r \<and>
        ti_DefaultCmd t = tpl_DefaultCmd r)"
  by (auto simp: TemplateByID_def call_iffs query_row_def elim!: stmt_okE split: option.splits dest!: select_one_Some)

lemma silent:
  "on_db m w = (r, w') \<Longrightarrow> outbox w' = outbox w \<and> streams w' = streams w"
  "on_hs g w = (r2, w2) \<Longrightarrow> outbox w2 = outbox w \<and> streams w2 = streams w"
  by (auto dest: on_db_frame on_hs_frame)

text \<open>A call that fails without having sent anything.\<close>

definition quiet :: "('h cp, 'a) call \<Rightarrow> bool" where
  "quiet m = (\<forall>w e w'. m w = (Inl e, w') \<longrightarrow> outbox w' = outbox w)"

lemma quietI [intro?]: "(\<And>w e w'. m w = (Inl e, w') \<Longrightarrow> outbox w' = outbox w) \<Longrightarrow> quiet m"
  by (simp add: quiet_def)

lemma quietD: "quiet m \<Longrightarrow> m w = (Inl e, w') \<Longrightarrow> outbox w' = outbox w"
  by (simp add: quiet_def)

lemma quiet_then:
  assumes "\<And>w r w'. m w = (r, w') \<Longrightarrow> outbox w' = outbox w" and "\<And>a. quiet (k a)"
  shows "quiet (and_then m k)"
proof
  fix w e w' assume r: "and_then m k w = (Inl e, w')"
  obtain x w1 where m: "m w = (x, w1)" by force
  from assms(1)[OF m] r m show "outbox w' = outbox w"
    by (cases x) (auto dest: quietD[OF assms(2)])
qed

lemma on_error_silent:
  "on_error h (on_db m) w = (r, w') \<Longrightarrow> outbox w' = outbox w" "on_error h (on_hs g) w = (r2, w2) \<Longrightarrow> outbox w2 = outbox w"
  using snd_on_error[of h "on_db m" w] snd_on_error[of h "on_hs g" w] by (simp_all add: on_db_eq on_hs_eq)

lemma quiet_send:
  "(\<And>w. quiet (f w)) \<Longrightarrow> quiet (with_state f)" "quiet (stream_Send sid msg)" "quiet (give_error e)"
  "quiet a \<Longrightarrow> (\<And>x. quiet (b x)) \<Longrightarrow> quiet (case z of None \<Rightarrow> a | Some x \<Rightarrow> b x)"
  by (auto simp: quiet_def with_state_def stream_Send_def split: option.split if_splits)

lemmas quiet_intros = quiet_then[OF conjunct1[OF silent(1)]] quiet_then[OF conjunct1[OF silent(2)]]
  quiet_then[OF on_error_silent(2)] quiet_send

lemma dispatch_quiet: "quiet (dispatch_Create X H cfg i)" "quiet (dispatch_Start X H i)"
  unfolding dispatch_Create_def dispatch_Start_def by (intro quiet_intros; assumption?)+

lemma dispatch_Create_sends:
  "case dispatch_Create X H cfg i w of
     (Inl e, w') \<Rightarrow> outbox w' = outbox w
   | (Inr _, w') \<Rightarrow> \<exists>e \<in> set (t_envs (store w)). \<exists>u \<in> set (t_users (store w)). \<exists>t \<in> set (t_image_templates (store w)).
       \<exists>sid key cmd. env_ID e = i \<and> user_ID u = env_OwnerUserID e \<and> tpl_ID t = env_TemplateID e \<and> tpl_Enabled t \<and>
       streamFor (env_NodeID e) w = Some sid \<and> outbox w' = outbox w @ [(sid, MsgCreateEnv cmd)] \<and>
       cmd = \<lparr>ce_env_id = su_String X i, ce_image_ref = tpl_ImageRef t, ce_sidecar_image_ref = dc_sidecarImage cfg,
              ce_hostname = env_Hostname e, ce_headscale_url = dc_headscaleClientURL cfg, ce_preauth_key = key,
              ce_tags = [env_tag (user_Slug u)],
              ce_authorized_keys = concatKeys (map Key.truncate (sort_key key_CreatedAt
                (select_rows (\<lambda>k. key_UserID k = env_OwnerUserID e) (t_ssh_keys (store w))))),
              ce_gpu_request = env_GPURequest e, ce_default_cmd = tpl_DefaultCmd t\<rparr>"
proof (cases "dispatch_Create X H cfg i w")
  case (Pair r w')
  show ?thesis
  proof (cases r)
    case (Inl err)
    with Pair have "outbox w' = outbox w" using quietD[OF dispatch_quiet(1)] by blast
    with Pair Inl show ?thesis by simp
  next
    case (Inr x)
    with Pair obtain e w1 u w2 ks w3 key w4 t w5 sid where
      c: "on_db (envs_ByID i) w = (Inr e, w1)" "on_db (users_ByID (env_OwnerUserID e)) w1 = (Inr u, w2)"
        "on_db (keys_List (env_OwnerUserID e)) w2 = (Inr ks, w3)"
        "on_hs (hs_CreatePreAuthKey H (env_key_request (user_Slug u))) w3 = (Inr key, w4)"
        "on_db (TemplateByID (env_TemplateID e)) w4 = (Inr t, w5)" "streamFor (env_NodeID e) w5 = Some sid"
      and sent: "stream_Send sid (MsgCreateEnv
            \<lparr>ce_env_id = su_String X i, ce_image_ref = ti_ImageRef t,
             ce_sidecar_image_ref = dc_sidecarImage cfg, ce_hostname = env_Hostname e,
             ce_headscale_url = dc_headscaleClientURL cfg, ce_preauth_key = key,
             ce_tags = [env_tag (user_Slug u)], ce_authorized_keys = concatKeys ks,
             ce_gpu_request = env_GPURequest e, ce_default_cmd = ti_DefaultCmd t\<rparr>) w5 = (Inr x, w')"
      by (auto simp: dispatch_Create_def call_iffs with_state_def split: option.splits)
    note f = on_db_frame[OF c(1)] on_db_frame[OF c(2)] on_db_frame[OF c(3)] on_hs_frame[OF c(4)] on_db_frame[OF c(5)]
    obtain er where er: "er \<in> set (t_envs (store w))" "env_ID er = i" "e = Env.truncate er" and s1: "store w1 = drop_fault (store w)"
      using f envs_ByID_ok by blast
    obtain ur where ur: "ur \<in> set (t_users (store w))" "user_ID ur = env_OwnerUserID er" "user_Slug u = user_Slug ur"
      and s2: "store w2 = drop_fault (store w1)"
      using f users_ByID_ok[of "env_OwnerUserID e" "store w1" u "store w2"] s1 er by (auto simp: Env.defs)
    have ks: "ks = map Key.truncate (sort_key key_CreatedAt (select_rows (\<lambda>k. key_UserID k = env_OwnerUserID er) (t_ssh_keys (store w))))"
      and s3: "store w3 = drop_fault (store w2)"
      using f keys_List_ok[of "env_OwnerUserID e" "store w2" ks "store w3"] s1 s2 er by (auto simp: Env.defs)
    obtain tr where tr: "tr \<in> set (t_image_templates (store w))" "tpl_ID tr = env_TemplateID er" "tpl_Enabled tr"
        "ti_ImageRef t = tpl_ImageRef tr" "ti_DefaultCmd t = tpl_DefaultCmd tr"
      using f TemplateByID_ok[of "env_TemplateID e" "store w4" t "store w5"] s1 s2 s3 er by (auto simp: Env.defs)
    have "streams w5 = streams w" "outbox w5 = outbox w" using f by simp_all
    then have "streamFor (env_NodeID er) w = Some sid" and "outbox w' = outbox w @ [(sid, MsgCreateEnv
            \<lparr>ce_env_id = su_String X i, ce_image_ref = tpl_ImageRef tr,
             ce_sidecar_image_ref = dc_sidecarImage cfg, ce_hostname = env_Hostname er,
             ce_headscale_url = dc_headscaleClientURL cfg, ce_preauth_key = key,
             ce_tags = [env_tag (user_Slug ur)], ce_authorized_keys = concatKeys ks,
             ce_gpu_request = env_GPURequest er, ce_default_cmd = tpl_DefaultCmd tr\<rparr>)]"
      using sent c(6) er ur tr by (auto simp: stream_Send_def streamFor_def Env.defs split: if_splits)
    with Pair Inr er ur tr ks show ?thesis by auto
  qed
qed

text \<open>A create command reaches one agent and asks for the right thing. Dispatching the creation of an
  environment that succeeds has sent exactly one message, to the stream of the environment's node: a
  create command with the environment's id, hostname and device count, the image of its template,
  the owner's tag and exactly the owner's keys. A dispatch that fails has sent nothing.\<close>

theorem dispatch_Create_message:
  "case dispatch_Create X H cfg i w of
     (Inl e, w') \<Rightarrow> outbox w' = outbox w
   | (Inr _, w') \<Rightarrow> \<exists>e \<in> set (t_envs (store w)). \<exists>u \<in> set (t_users (store w)). \<exists>t \<in> set (t_image_templates (store w)).
       \<exists>sid key cmd. env_ID e = i \<and> user_ID u = env_OwnerUserID e \<and> tpl_ID t = env_TemplateID e \<and> tpl_Enabled t \<and>
       streamFor (env_NodeID e) w = Some sid \<and> outbox w' = outbox w @ [(sid, MsgCreateEnv cmd)] \<and>
       cmd = \<lparr>ce_env_id = su_String X i, ce_image_ref = tpl_ImageRef t, ce_sidecar_image_ref = dc_sidecarImage cfg,
              ce_hostname = env_Hostname e, ce_headscale_url = dc_headscaleClientURL cfg, ce_preauth_key = key,
              ce_tags = [env_tag (user_Slug u)],
              ce_authorized_keys = concatKeys (map Key.truncate (sort_key key_CreatedAt
                (select_rows (\<lambda>k. key_UserID k = env_OwnerUserID e) (t_ssh_keys (store w))))),
              ce_gpu_request = env_GPURequest e, ce_default_cmd = tpl_DefaultCmd t\<rparr>"
  by (rule dispatch_Create_sends)

definition names_env :: "stream_env \<Rightarrow> uuid \<Rightarrow> ControlMessage \<Rightarrow> bool" where
  "names_env X i msg \<longleftrightarrow>
     msg \<in> {MsgStopEnv (su_String X i), MsgDeleteEnv (su_String X i)} \<or>
     (\<exists>c. msg = MsgCreateEnv c \<and> ce_env_id c = su_String X i) \<or>
     (\<exists>c. msg = MsgStartEnv c \<and> se_env_id c = su_String X i)"

lemma ByID_row:
  assumes "on_db (envs_ByID i) w = (Inr e, w1)"
  shows "\<exists>er \<in> set (t_envs (store w)). env_ID er = i \<and> env_NodeID er = env_NodeID e \<and> env_OwnerUserID er = env_OwnerUserID e"
  using on_db_frame[OF assms] envs_ByID_ok[of i "store w" e "store w1"] by (auto simp: Env.defs)

text \<open>Look up the environment, then send one message to its node's stream or do something silent.\<close>

lemma send_to_env:
  assumes "\<And>e w. outbox (snd (off e w)) = outbox w" and "\<And>e. names_env X i (msg e)"
    and "and_then (on_db (envs_ByID i)) (\<lambda>env. with_state (\<lambda>w. case streamFor (env_NodeID env) w of
        None \<Rightarrow> off env | Some sid \<Rightarrow> stream_Send sid (msg env))) w = (r, w')"
  shows "outbox w' = outbox w \<or> (\<exists>e \<in> set (t_envs (store w)). \<exists>sid msg. env_ID e = i \<and>
       streamFor (env_NodeID e) w = Some sid \<and> outbox w' = outbox w @ [(sid, msg)] \<and> names_env X i msg)"
proof (cases "on_db (envs_ByID i) w")
  case (Pair r1 w1)
  note f = silent(1)[OF Pair]
  show ?thesis
  proof (cases r1)
    case (Inl e)
    with assms(3) Pair f show ?thesis by simp
  next
    case (Inr env)
    with Pair have "on_db (envs_ByID i) w = (Inr env, w1)" by simp
    from ByID_row[OF this] obtain er where er: "er \<in> set (t_envs (store w))" "env_ID er = i" "env_NodeID er = env_NodeID env"
      by blast
    show ?thesis
    proof (cases "streamFor (env_NodeID env) w1")
      case None
      with assms(3) Pair Inr have "w' = snd (off env w1)" by (simp add: with_state_def)
      then show ?thesis using assms(1) f by simp
    next
      case (Some sid)
      with assms(3) Pair Inr have "stream_Send sid (msg env) w1 = (r, w')" by (simp add: with_state_def)
      moreover have "streamFor (env_NodeID er) w = Some sid" using Some f er(3) by (simp add: streamFor_def)
      ultimately show ?thesis using er assms(2) f by (fastforce simp: stream_Send_def split: if_splits)
    qed
  qed
qed

lemma dispatch_Start_message:
  assumes "dispatch_Start X H i w = (r, w')"
  shows "outbox w' = outbox w \<or> (\<exists>e \<in> set (t_envs (store w)). \<exists>sid msg. env_ID e = i \<and>
       streamFor (env_NodeID e) w = Some sid \<and> outbox w' = outbox w @ [(sid, msg)] \<and> names_env X i msg)"
proof (cases r)
  case (Inl e)
  with assms have "outbox w' = outbox w" using quietD[OF dispatch_quiet(2)] by blast
  then show ?thesis by simp
next
  case (Inr x)
  with assms obtain e w1 u w2 ks w3 key w4 sid where
    c: "on_db (envs_ByID i) w = (Inr e, w1)" "on_db (users_ByID (env_OwnerUserID e)) w1 = (Inr u, w2)"
      "on_db (keys_List (env_OwnerUserID e)) w2 = (Inr ks, w3)"
      "on_hs (hs_CreatePreAuthKey H (env_key_request (user_Slug u))) w3 = (Inr key, w4)"
      "streamFor (env_NodeID e) w4 = Some sid"
    and sent: "stream_Send sid (MsgStartEnv \<lparr>se_env_id = su_String X i, se_preauth_key = key,
        se_authorized_keys = concatKeys ks\<rparr>) w4 = (Inr x, w')"
    by (auto simp: dispatch_Start_def call_iffs with_state_def split: option.splits)
  have "outbox w4 = outbox w \<and> streams w4 = streams w" using c by (auto dest!: silent)
  with ByID_row[OF c(1)] c(5) sent show ?thesis
    by (fastforce simp: stream_Send_def streamFor_def names_env_def split: if_splits)
qed

text \<open>What one command may do to the streams.\<close>

definition sends_one :: "stream_env \<Rightarrow> uuid \<Rightarrow> 'h cp \<Rightarrow> 'h cp \<Rightarrow> bool" where
  "sends_one X i w w' \<longleftrightarrow> outbox w' = outbox w \<or> (\<exists>e \<in> set (t_envs (store w)). \<exists>sid msg. env_ID e = i \<and>
     streamFor (env_NodeID e) w = Some sid \<and> outbox w' = outbox w @ [(sid, msg)] \<and> names_env X i msg)"

lemma dispatch_Create_one: "dispatch_Create X H cfg i w = (r, w') \<Longrightarrow> sends_one X i w w'"
  using dispatch_Create_sends[where X = X and H = H and cfg = cfg and i = i and w = w]
  by (cases r) (fastforce simp: names_env_def sends_one_def)+

lemma dispatch_Start_one: "dispatch_Start X H i w = (r, w') \<Longrightarrow> sends_one X i w w'"
  using dispatch_Start_message[of X H i w r w'] by (simp add: sends_one_def)

lemma dispatch_Stop_one: "dispatch_Stop X i w = (r, w') \<Longrightarrow> sends_one X i w w'"
  using send_to_env[where off = "\<lambda>_. give_error (NewError ''agent not connected'')" and
      msg = "\<lambda>_. MsgStopEnv (su_String X i)" and X = X and i = i and w = w and r = r and w' = w']
  by (simp add: dispatch_Stop_def names_env_def give_error_def sends_one_def)

lemma dispatch_Delete_one: "dispatch_Delete X i w = (r, w') \<Longrightarrow> sends_one X i w w'"
  using send_to_env[where off = "\<lambda>_. on_db (envs_Delete i)" and
      msg = "\<lambda>_. MsgDeleteEnv (su_String X i)" and X = X and i = i and w = w and r = r and w' = w']
  by (simp add: dispatch_Delete_def names_env_def on_db_eq sends_one_def)

lemma dispatch_Delete_sent_keeps:
  assumes "dispatch_Delete X i w = (r, w')" and "outbox w' \<noteq> outbox w"
  shows "t_envs (store w') = t_envs (store w)"
  using assms same_rowsD(6)[OF cp_readsD[OF cp_reads_calls(1)[OF service_reads(1)], of w i]]
  by (auto simp: dispatch_Delete_def and_then_def with_state_def stream_Send_def on_db_eq
      split: prod.splits sum.splits option.splits if_splits)

text \<open>C33: no command goes astray: whichever of the four commands is dispatched for an environment, at most
  one message is sent, it is a command for that environment, and it goes to the stream that was
  registered for the node of that environment. Only a delete with no agent connected touches a row.\<close>

theorem dispatch_reaches_env_node:
  assumes "f \<in> {dispatch_Create X H cfg, dispatch_Stop X, dispatch_Start X H, dispatch_Delete X}"
    and "f i w = (r, w')"
  shows "outbox w' = outbox w \<or>
    (\<exists>e \<in> set (t_envs (store w)). \<exists>sid msg. env_ID e = i \<and> streamFor (env_NodeID e) w = Some sid \<and>
       outbox w' = outbox w @ [(sid, msg)] \<and> t_envs (store w') = t_envs (store w) \<and>
       (msg \<in> {MsgStopEnv (su_String X i), MsgDeleteEnv (su_String X i)} \<or>
        (\<exists>c. msg = MsgCreateEnv c \<and> ce_env_id c = su_String X i) \<or>
        (\<exists>c. msg = MsgStartEnv c \<and> se_env_id c = su_String X i)))"
proof -
  have one: "sends_one X i w w'" using assms
    by (auto dest: dispatch_Create_one dispatch_Stop_one dispatch_Start_one dispatch_Delete_one)
  have "t_envs (store w') = t_envs (store w)" if "outbox w' \<noteq> outbox w"
    using assms that same_rowsD(6)[OF cp_readsD[OF dispatch_reads(1), of w X H cfg i]] same_rowsD(6)[OF cp_readsD[OF dispatch_reads(2), of w X i]]
      same_rowsD(6)[OF cp_readsD[OF dispatch_reads(3), of w X H i]]
    by (auto dest: dispatch_Delete_sent_keeps)
  with one show ?thesis unfolding sends_one_def names_env_def by fastforce
qed

definition demo_client :: "unit hs_client" where
  "demo_client = \<lparr>hs_ListUsers = (\<lambda>s. (Inr [], s)), hs_CreateUser = (\<lambda>n s. (Inl hs_ErrUserAlreadyExists, s)),
     hs_DeleteUser = (\<lambda>n s. (Inr (), s)), hs_SetPolicy = (\<lambda>p s. (Inr (), s)),
     hs_CreatePreAuthKey = (\<lambda>r s. (Inr ''key'', s)), hs_ListNodes = (\<lambda>u s. (Inr [], s)),
     hs_DeleteNode = (\<lambda>n s. (Inr (), s))\<rparr>"

definition demo_config :: dispatcher_config where
  "demo_config = \<lparr>dc_headscaleClientURL = ''http://hs'', dc_sidecarImage = ''sidecar''\<rparr>"

lemma dispatch_reaches_env_node_witness:
  "\<exists>msg. outbox (snd (dispatch_Stop demo_stream 7 demo_cp)) = [(1, msg)]"
proof -
  let ?r = "dispatch_Stop demo_stream 7 demo_cp"
  have out: "outbox (snd ?r) = outbox demo_cp \<or>
      (\<exists>e \<in> set (t_envs (store demo_cp)). \<exists>sid msg. env_ID e = 7 \<and> streamFor (env_NodeID e) demo_cp = Some sid \<and>
         outbox (snd ?r) = outbox demo_cp @ [(sid, msg)])"
    using dispatch_reaches_env_node[where f = "dispatch_Stop demo_stream" and X = demo_stream and H = demo_client
        and cfg = demo_config and i = 7 and w = demo_cp and r = "fst ?r" and w' = "snd ?r"] by auto
  have "map fst (outbox (snd ?r)) = [1]" by code_simp
  then show ?thesis using out by (auto simp: demo_cp_def)
qed

end
