(* ===== verification/EnvsProperties.thy ===== *)
theory EnvsProperties
  imports Envs
begin

text \<open>
  What the environment service promises: which requests create a row and what the row holds, the
  status invariant of the rows, and two gaps: the row left behind when the second statement of a
  creation fails, and hostnames that two users can share.
\<close>

subsection \<open>Creation\<close>

definition create_decision :: "(uuid \<Rightarrow> gostring) \<Rightarrow> CreateRequest \<Rightarrow> db \<Rightarrow> Env option" where
  "create_decision uuidString req d =
     (if \<not> envs_nameRe (cr_Name req) then None
      else case select_one (\<lambda>u. user_ID u = cr_OwnerUserID req) (t_users d) of
        None \<Rightarrow> None
      | Some u \<Rightarrow>
          if exists_row (\<lambda>e. env_OwnerUserID e = cr_OwnerUserID req \<and> env_Name e = cr_Name req) (t_envs d) \<or>
             \<not> exists_row (\<lambda>n. node_ID n = cr_NodeID req) (t_nodes d) \<or>
             \<not> exists_row (\<lambda>t. tpl_ID t = cr_TemplateID req) (t_image_templates d)
          then None
          else let i = db_uuid d (db_uuid_next d) in
            Some \<lparr>env_ID = i, env_OwnerUserID = cr_OwnerUserID req, env_NodeID = cr_NodeID req,
               env_TemplateID = cr_TemplateID req, env_Name = cr_Name req,
               env_Hostname = user_Slug u @ ''-'' @ cr_Name req,
               env_Status = ''creating'', env_StatusMessage = '''', env_SidecarContainerID = '''',
               env_DevContainerID = '''', env_GPURequest = cr_GPURequest req, env_GPUIndices = [],
               env_VolumeName = ''flex-env-'' @ uuidString i\<rparr>)"

lemma update_rows_append_new:
  "\<not> exists_row p t \<Longrightarrow> p r \<Longrightarrow> update_rows p f (t @ [r]) = t @ [f r]"
  using update_rows_None[of p t f] by (simp add: update_rows_def)

text \<open>With no failing statement and a fresh random id, a creation succeeds exactly when the name is
  well formed and not yet one of the owner's, and the owner, the node and the template exist. It then
  adds one row, which is what it returns: creating, without devices, with the hostname made of the
  owner's slug and the name and the volume made of the id. Otherwise the table stays as it is.\<close>

theorem envs_Create_decides:
  assumes ff: "fault_free d" and fresh: "\<forall>e \<in> set (t_envs d). env_ID e \<noteq> db_uuid d (db_uuid_next d)"
  shows "case envs_Create us req d of
      (Inr e, d') \<Rightarrow> create_decision us req d = Some e \<and>
        (\<exists>r. t_envs d' = t_envs d @ [r] \<and> Env.truncate r = e)
    | (Inl err, d') \<Rightarrow> create_decision us req d = None \<and> t_envs d' = t_envs d \<and>
        (err = envs_ErrInvalidName \<longleftrightarrow> \<not> envs_nameRe (cr_Name req))"
proof (cases "envs_nameRe (cr_Name req)")
  case False
  then show ?thesis by (simp add: envs_Create_def create_decision_def give_error_def)
next
  case name: True
  show ?thesis
  proof (cases "select_one (\<lambda>u. user_ID u = cr_OwnerUserID req) (t_users d)")
    case None
    then show ?thesis using name ff
      by (simp add: envs_Create_def create_decision_def stmt_fault_free query_row_def on_error_def and_then_def
          envs_ErrInvalidName_def)
  next
    case (Some u)
    have new: "\<not> exists_row (\<lambda>e. env_ID e = db_uuid d (db_uuid_next d)) (t_envs d)"
      using fresh by (simp add: exists_row_iff)
    have own: "exists_row (\<lambda>u. user_ID u = cr_OwnerUserID req) (t_users d)"
      using select_one_Some[OF Some] by (auto simp: exists_row_iff)
    show ?thesis using name Some ff new own
      by (simp add: envs_Create_def create_decision_def stmt_fault_free query_row_def on_error_def and_then_def
          envs_insert_def with_state_def gen_random_uuid_def insert_env_def give_def update_envs_def
          update_rows_append_new envs_ErrInvalidName_def envs_ErrNameTaken_def Let_def Env.defs is_unique_violation_def)
  qed
qed

text \<open>Two accounts, one node of the first, and the template of the migrations.\<close>

definition demo_store :: db where
  "demo_store = (empty_db (\<lambda>n. n + 100) 0)
     \<lparr>t_users :=
        [\<lparr>user_ID = 1, user_Email = ''a@x'', user_Slug = ''team'', user_PasswordHash = '''', user_CreatedAt = 0\<rparr>,
         \<lparr>user_ID = 2, user_Email = ''b@x'', user_Slug = ''team-a'', user_PasswordHash = '''', user_CreatedAt = 0\<rparr>],
      t_nodes :=
        [\<lparr>node_ID = 50, node_OwnerUserID = 1, node_Name = ''box'', node_AgentVersion = '''',
          node_GPUInfo = ''[]'', node_Status = ''online'', node_LastSeenAt = None, node_TokenHash = ''h''\<rparr>]\<rparr>"

definition demo_request :: "uuid \<Rightarrow> gostring \<Rightarrow> CreateRequest" where
  "demo_request owner name = \<lparr>cr_OwnerUserID = owner, cr_NodeID = 50, cr_TemplateID = ''cuda-base'',
     cr_Name = name, cr_GPURequest = 1\<rparr>"

lemma demo_store_simps [simp]: "t_envs demo_store = []" "fault_free demo_store"
  by (simp_all add: demo_store_def)

lemma envs_Create_decides_witness:
  "\<exists>e d'. envs_Create nat_dec (demo_request 1 ''dev'') demo_store = (Inr e, d') \<and>
     env_Hostname e = ''team-dev'' \<and> env_VolumeName e = ''flex-env-100'' \<and> map Env.truncate (t_envs d') = [e]"
proof -
  let ?r = "envs_Create nat_dec (demo_request 1 ''dev'') demo_store"
  have c: "map_option (\<lambda>e. (env_Hostname e, env_VolumeName e)) (create_decision nat_dec (demo_request 1 ''dev'') demo_store) =
      Some (''team-dev'', ''flex-env-100'')" by code_simp
  have "case ?r of
      (Inr e, d') \<Rightarrow> create_decision nat_dec (demo_request 1 ''dev'') demo_store = Some e \<and>
        (\<exists>r. t_envs d' = t_envs demo_store @ [r] \<and> Env.truncate r = e)
    | (Inl err, d') \<Rightarrow> create_decision nat_dec (demo_request 1 ''dev'') demo_store = None \<and> t_envs d' = t_envs demo_store \<and>
        (err = envs_ErrInvalidName \<longleftrightarrow> \<not> envs_nameRe (cr_Name (demo_request 1 ''dev'')))"
    by (rule envs_Create_decides) simp_all
  with c show ?thesis by (auto split: prod.splits sum.splits)
qed

subsection \<open>Two gaps\<close>

text \<open>When the second statement of a creation (the volume name) fails, the error is reported but the
  row of the first statement stays, without a volume; the name is taken from then on and a retry is
  refused as a duplicate.\<close>

theorem failed_volume_update_leaves_row:
  assumes "db_faults d = [None, None, Some e]" and "envs_nameRe (cr_Name req)"
    and "create_decision us req (d\<lparr>db_faults := []\<rparr>) = Some env"
    and "\<forall>x \<in> set (t_envs d). env_ID x \<noteq> db_uuid d (db_uuid_next d)"
  shows "\<exists>d' r. envs_Create us req d = (Inl (Wrap ''set volume: '' e), d') \<and>
    t_envs d' = t_envs d @ [r] \<and> env_Name r = cr_Name req \<and> env_VolumeName r = '''' \<and>
    fst (envs_Create us req d') = Inl envs_ErrNameTaken"
proof -
  from assms(2,3) obtain u where u: "select_one (\<lambda>u. user_ID u = cr_OwnerUserID req) (t_users d) = Some u"
    and ok: "\<not> exists_row (\<lambda>e. env_OwnerUserID e = cr_OwnerUserID req \<and> env_Name e = cr_Name req) (t_envs d)"
      "exists_row (\<lambda>n. node_ID n = cr_NodeID req) (t_nodes d)"
      "exists_row (\<lambda>t. tpl_ID t = cr_TemplateID req) (t_image_templates d)"
    by (auto simp: create_decision_def Let_def split: option.splits if_splits)
  have own: "exists_row (\<lambda>u. user_ID u = cr_OwnerUserID req) (t_users d)"
    using select_one_Some[OF u] by (auto simp: exists_row_iff)
  have new: "\<not> exists_row (\<lambda>x. env_ID x = db_uuid d (db_uuid_next d)) (t_envs d)"
    using assms(4) by (simp add: exists_row_iff)
  have taken: "exists_row (\<lambda>e. env_OwnerUserID e = o1 \<and> env_Name e = n1) (t @ [r])"
    if "env_OwnerUserID r = o1" "env_Name r = n1" for o1 n1 t and r :: Env_row
    using that by (simp add: exists_row_iff)
  let ?r = "\<lparr>env_ID = db_uuid d (db_uuid_next d), env_OwnerUserID = cr_OwnerUserID req, env_NodeID = cr_NodeID req,
        env_TemplateID = cr_TemplateID req, env_Name = cr_Name req, env_Hostname = user_Slug u @ ''-'' @ cr_Name req,
        env_Status = ''creating'', env_StatusMessage = '''', env_SidecarContainerID = '''',
        env_DevContainerID = '''', env_GPURequest = cr_GPURequest req, env_GPUIndices = [],
        env_VolumeName = '''', env_CreatedAt = db_now d, env_UpdatedAt = db_now d\<rparr>"
  let ?d = "d\<lparr>db_faults := [], db_uuid_next := Suc (db_uuid_next d), t_envs := t_envs d @ [?r]\<rparr>"
  have first: "envs_Create us req d = (Inl (Wrap ''set volume: '' e), ?d)"
    using assms(1,2) u ok own new
    by (simp add: envs_Create_def stmt_def query_row_def on_error_def and_then_def Let_def envs_insert_def
        with_state_def gen_random_uuid_def insert_env_def give_def)
  have "fst (envs_Create us req ?d) = Inl envs_ErrNameTaken"
    using assms(2) u taken[of ?r "cr_OwnerUserID req" "cr_Name req" "t_envs d"]
    by (simp add: envs_Create_def stmt_def query_row_def on_error_def and_then_def Let_def envs_insert_def
        with_state_def gen_random_uuid_def insert_env_def give_def)
  with first show ?thesis
    by (intro exI[of _ ?d] exI[of _ ?r]) simp
qed

lemma failed_volume_update_leaves_row_witness:
  "\<exists>d'. envs_Create nat_dec (demo_request 1 ''dev'') (demo_store\<lparr>db_faults := [None, None, Some (NewError ''reset'')]\<rparr>) =
     (Inl (Wrap ''set volume: '' (NewError ''reset'')), d') \<and>
   fst (envs_Create nat_dec (demo_request 1 ''dev'') d') = Inl envs_ErrNameTaken"
proof -
  let ?d = "demo_store\<lparr>db_faults := [None, None, Some (NewError ''reset'')]\<rparr>"
  have n: "envs_nameRe (cr_Name (demo_request 1 ''dev''))" by code_simp
  have "create_decision nat_dec (demo_request 1 ''dev'') (?d\<lparr>db_faults := []\<rparr>) \<noteq> None" by code_simp
  then obtain env where c: "create_decision nat_dec (demo_request 1 ''dev'') (?d\<lparr>db_faults := []\<rparr>) = Some env" by blast
  have f: "db_faults ?d = [None, None, Some (NewError ''reset'')]"
    and u: "\<forall>x \<in> set (t_envs ?d). env_ID x \<noteq> db_uuid ?d (db_uuid_next ?d)" by simp_all
  from failed_volume_update_leaves_row[OF f n c u] show ?thesis by blast
qed

text \<open>Environment hostnames are not unique: a slug that ends in a dash and a word, and an environment
  name that begins with it, give two users' environments the same hostname on the tailnet, and both
  creations succeed.\<close>

theorem hostnames_of_two_users_collide:
  "case envs_Create nat_dec (demo_request 1 ''a-dev'') demo_store of (r1, d1) \<Rightarrow>
   case envs_Create nat_dec (demo_request 2 ''dev'') d1 of (r2, d2) \<Rightarrow>
     map (\<lambda>e. (env_OwnerUserID e, env_Hostname e)) (t_envs d2) = [(1, ''team-a-dev''), (2, ''team-a-dev'')] \<and>
     \<not> isl r1 \<and> \<not> isl r2"
  by code_simp

subsection \<open>The status invariant\<close>

definition status_ok :: "Env_row \<Rightarrow> bool" where
  "status_ok e \<longleftrightarrow> env_Status e \<in> {''creating'', ''running'', ''stopped'', ''error''} \<and>
     (env_GPUIndices e \<noteq> [] \<longrightarrow> env_Status e = ''running'')"

definition env_status_ok :: "db \<Rightarrow> bool" where
  "env_status_ok d \<longleftrightarrow> (\<forall>e \<in> set (t_envs d). status_ok e)"

lemma keeps_status_update:
  assumes "\<And>e. status_ok e \<Longrightarrow> status_ok (f e)"
  shows "keeps env_status_ok (envs_update_row what i f)"
proof (rule keepsI)
  fix d assume ok: "env_status_ok d"
  have upd: "status_ok e \<Longrightarrow> status_ok ((f e)\<lparr>env_UpdatedAt := t\<rparr>)" for e t
    using assms[of e] by (simp add: status_ok_def)
  show "env_status_ok (snd (envs_update_row what i f d))"
    by (cases rule: stmt_cases[of "give () :: (db, unit) call" d])
      (use ok upd in \<open>auto simp: envs_update_row_result env_status_ok_def give_def set_update_rows\<close>)
qed

lemma stmt_keeps_status: "keeps env_status_ok f \<Longrightarrow> keeps env_status_ok (stmt f)"
  by (rule keeps_stmt_if) (simp_all add: env_status_ok_def)



end
