(* ===== verification/Policy.thy ===== *)
theory Policy
  imports CpState
begin

text \<open>
  \<open>policy/policy.go\<close>: the access policy follows the table of users. \<open>Refresh\<close> reads all slugs and
  pushes the policy generated from them; it runs at start-up and after each sign-up. The locale
  \<open>signup_policy\<close> is what sign-up relies on, the interface \<open>users.Policy\<close>.
\<close>

text \<open>The policy pushed while there is no user, line by line, quotes in between.\<close>

definition emptyPolicy :: gostring where
  "emptyPolicy = go_Join [CHR 0x0A]
     [''{'',
      go_Join [CHR 0x22] [''  '', ''tagOwners'', '': {''],
      go_Join [CHR 0x22] [''    '', ''tag:placeholder'', '': ['', ''control-plane'', '']''],
      ''  },'',
      go_Join [CHR 0x22] [''  '', ''acls'', '': [''],
      go_Join [CHR 0x22] [''    {'', ''action'', '': '', ''accept'', '', '', ''src'', '': ['',
        ''tag:placeholder'', ''], '', ''dst'', '': ['', ''tag:placeholder:0'', '']}''],
      ''  ]'',
      ''}'']"

definition allSlugs :: "(db, gostring list) call" where
  "allSlugs =
     and_then (on_error (Wrap ''query: '') (stmt (query_rows t_users (\<lambda>_. True))))
       (\<lambda>rows. give (map user_Slug (sort_key user_Slug rows)))"

definition Refresh :: "'h hs_client \<Rightarrow> ('h cp, unit) call" where
  "Refresh H =
     and_then (on_error (Wrap ''read slugs: '') (on_db allSlugs))
       (\<lambda>slugs. and_then
         (if slugs = [] then give emptyPolicy
          else (case GenerateACL slugs of
                  Inl err \<Rightarrow> give_error (Wrap ''generate acl: '' err)
                | Inr acl \<Rightarrow> give acl))
         (\<lambda>policyJSON. on_error (Wrap ''push policy: '') (on_hs (hs_SetPolicy H policyJSON))))"

text \<open>\<open>CreateUser\<close>, an existing user not being an error.\<close>

definition ensure_user :: "'h hs_client \<Rightarrow> (go_error \<Rightarrow> go_error) \<Rightarrow> gostring \<Rightarrow> ('h cp, unit) call" where
  "ensure_user H wrap name w =
     (case on_hs (hs_CreateUser H name) w of
        (Inl err, w) \<Rightarrow> if errors_Is err hs_ErrUserAlreadyExists then (Inr (), w) else (Inl (wrap err), w)
      | (Inr _, w) \<Rightarrow> (Inr (), w))"

definition Initialize :: "'h hs_client \<Rightarrow> ('h cp, unit) call" where
  "Initialize H =
     and_then (ensure_user H (Wrap ''create control-plane user: '') ''control-plane'') (\<lambda>_. Refresh H)"

definition OnUserCreated :: "'h hs_client \<Rightarrow> gostring \<Rightarrow> ('h cp, unit) call" where
  "OnUserCreated H slug =
     and_then (ensure_user H (Wrap (''create headscale user '' @ go_quote slug @ '': '')) slug)
       (\<lambda>_. on_error (Wrap ''refresh acl: '') (Refresh H))"

subsection \<open>The interface users.Policy\<close>

text \<open>
  What sign-up relies on: the hook may read the database and use Headscale, but it changes no table.
\<close>

locale signup_policy =
  fixes hook :: "gostring \<Rightarrow> ('h cp, unit) call"
  assumes hook_reads: "cp_reads (hook slug)"
begin

lemma hook_rows: "hook slug w = (r, w') \<Longrightarrow> same_rows (store w) (store w')"
  by (rule cp_readsD_eq[OF hook_reads])

text \<open>The account that a failed hook's compensation removes is removed for good, unless a statement fails.\<close>

lemma compensated:
  assumes "hook slug w = (r, w')" and "fault_free (store w)"
    and "\<not> exists_row (\<lambda>n. node_OwnerUserID n = u) (t_nodes (store w))"
  shows "t_users (snd (HardDelete u (store w'))) = delete_rows (\<lambda>x. user_ID x = u) (t_users (store w))"
proof -
  note same = same_rowsD[OF hook_rows[OF assms(1)]]
  have "\<not> exists_row (\<lambda>e. exists_row (\<lambda>n. node_OwnerUserID n = u \<and> node_ID n = env_NodeID e) (t_nodes (store w)))
      (t_envs (store w))"
    using assms(3) by (auto simp: exists_row_iff)
  then show ?thesis
    using same(8)[OF assms(2)] delete_rows_None[of "\<lambda>x. user_ID x = u" "t_users (store w)"]
    by (auto simp: HardDelete_def stmt_fault_free on_error_def and_then_def delete_user_def same(1,4,6)
        give_def give_error_def)
qed

end

lemma allSlugs_reads [reads_intros]: "db_reads allSlugs"
  unfolding allSlugs_def by (intro reads_intros)

lemma ensure_user_reads [reads_intros]: "cp_reads (ensure_user H f name)"
  by (auto simp: cp_reads_def ensure_user_def on_hs_eq split: prod.split sum.split)

lemma Refresh_reads [reads_intros]: "cp_reads (Refresh H)"
  unfolding Refresh_def by (intro reads_intros)

lemma policy_reads: "cp_reads (Initialize H)" "cp_reads (OnUserCreated H slug)"
  unfolding Initialize_def OnUserCreated_def by (intro reads_intros)+

interpretation headscale_policy: signup_policy "OnUserCreated H" for H :: "'h hs_client"
  by unfold_locales (rule policy_reads)

definition NoOpPolicy :: "gostring \<Rightarrow> ('h cp, unit) call" where
  "NoOpPolicy slug = give ()"

interpretation no_policy: signup_policy NoOpPolicy
  by unfold_locales (simp add: NoOpPolicy_def reads_intros)

subsection \<open>The pushed policy\<close>

text \<open>After a successful refresh the policy last pushed to Headscale is the one generated from the
  slugs of all accounts (the placeholder when there are none), and generating it cannot fail while
  every account's slug is well formed.\<close>

theorem Refresh_pushes_all_accounts:
  assumes "accounts_ok (store w)" and "fault_free (store w)"
  shows "\<exists>pol w1. hs w1 = hs w \<and> t_users (store w1) = t_users (store w) \<and>
    Refresh H w = on_error (Wrap ''push policy: '') (on_hs (hs_SetPolicy H pol)) w1 \<and>
    (if t_users (store w) = [] then pol = emptyPolicy
     else GenerateACL (map user_Slug (t_users (store w))) = Inr pol)"
proof -
  let ?slugs = "map user_Slug (sort_key user_Slug (t_users (store w)))"
  let ?w = "w\<lparr>store := drop_fault (store w)\<rparr>"
  have all: "on_db allSlugs w = (Inr ?slugs, ?w)"
    using assms(2) by (simp add: on_db_def allSlugs_def stmt_fault_free query_rows_def select_rows_def
        on_error_def and_then_def give_def)
  have "\<forall>s \<in> set ?slugs. slugRe s" using assms(1) by (auto simp: accounts_ok_def)
  moreover have "mset ?slugs = mset (map user_Slug (t_users (store w)))" by simp
  ultimately obtain pol where "GenerateACL ?slugs = Inr pol"
    and "GenerateACL (map user_Slug (t_users (store w))) = Inr pol"
    by (blast dest: GenerateACL_perm[THEN iffD2, rotated])
  moreover have em: "sort_key user_Slug t = [] \<longleftrightarrow> t = []" for t by (metis length_0_conv length_sort)
  ultimately show ?thesis
    by (cases "t_users (store w) = []")
      (auto simp: Refresh_def all and_then_def on_error_def give_def em
        intro!: exI[of _ ?w] exI[of _ pol] exI[of _ emptyPolicy] split: prod.splits)
qed

text \<open>A Headscale that remembers the policy it was given, and a store with two accounts.\<close>

definition demo_hs :: "gostring list hs_client" where
  "demo_hs = \<lparr>hs_ListUsers = (\<lambda>s. (Inr [], s)), hs_CreateUser = (\<lambda>n s. (Inl hs_ErrUserAlreadyExists, s)),
     hs_DeleteUser = (\<lambda>n s. (Inr (), s)), hs_SetPolicy = (\<lambda>p s. (Inr (), p # s)),
     hs_CreatePreAuthKey = (\<lambda>r s. (Inr ''key'', s)), hs_ListNodes = (\<lambda>u s. (Inr [], s)),
     hs_DeleteNode = (\<lambda>n s. (Inr (), s))\<rparr>"

definition demo_accounts :: "gostring list cp" where
  "demo_accounts = \<lparr>store = (empty_db (\<lambda>n. n + 100) 0)
     \<lparr>t_users := [\<lparr>user_ID = 1, user_Email = ''a@x'', user_Slug = ''team'', user_PasswordHash = '''', user_CreatedAt = 0\<rparr>,
        \<lparr>user_ID = 2, user_Email = ''b@x'', user_Slug = ''bob'', user_PasswordHash = '''', user_CreatedAt = 0\<rparr>]\<rparr>,
     hs = [], streams = [], outbox = [], broken = []\<rparr>"

lemma Refresh_pushes_all_accounts_witness:
  "\<exists>pol. hs (snd (Refresh demo_hs demo_accounts)) = [pol] \<and> GenerateACL [''team'', ''bob''] = Inr pol"
proof -
  have "\<forall>u \<in> set (t_users (store demo_accounts)). slugRe (user_Slug u) \<and> go_ToLower (user_Email u) = user_Email u"
    by code_simp
  then have "accounts_ok (store demo_accounts)" by (simp add: accounts_ok_def)
  moreover have "fault_free (store demo_accounts)" by (simp add: demo_accounts_def)
  ultimately obtain pol w1 where "hs w1 = hs demo_accounts"
    "Refresh demo_hs demo_accounts = on_error (Wrap ''push policy: '') (on_hs (hs_SetPolicy demo_hs pol)) w1"
    "(if t_users (store demo_accounts) = [] then pol = emptyPolicy
      else GenerateACL (map user_Slug (t_users (store demo_accounts))) = Inr pol)"
    using Refresh_pushes_all_accounts[of demo_accounts demo_hs] by blast
  moreover have "hs demo_accounts = []" "map user_Slug (t_users (store demo_accounts)) = [''team'', ''bob'']"
    by (simp_all add: demo_accounts_def)
  moreover from this(2) have "t_users (store demo_accounts) \<noteq> []" by auto
  moreover have "hs (snd (on_error f (on_hs (hs_SetPolicy demo_hs pol)) w1)) = pol # hs w1" for f
    by (simp add: on_hs_eq demo_hs_def)
  ultimately show ?thesis by auto
qed

end
