(* ===== verification/UsersHttp.thy ===== *)
theory UsersHttp
  imports Http Policy
begin

text \<open>
  \<open>users/handlers.go\<close>: sign-up, login, logout and the own account. The policy hook of sign-up is the
  interface \<open>signup_policy\<close>; the audit log is best effort, its errors are dropped.
\<close>

record signupReq =
  sr_Email :: gostring
  sr_Slug :: gostring
  sr_Password :: gostring

record loginReq =
  lr_Email :: gostring
  lr_Password :: gostring

record meResp =
  me_ID :: gostring
  me_Email :: gostring
  me_Slug :: gostring

definition me_of :: "http_env \<Rightarrow> User \<Rightarrow> meResp" where
  "me_of E u = \<lparr>me_ID = he_uuidString E (user_ID u), me_Email = user_Email u, me_Slug = user_Slug u\<rparr>"

definition remoteIP :: "http_env \<Rightarrow> http_request \<Rightarrow> gostring" where
  "remoteIP E rq = (case he_SplitHostPort E (rq_RemoteAddr rq) of None \<Rightarrow> rq_RemoteAddr rq | Some host \<Rightarrow> host)"

definition log_event ::
  "http_env \<Rightarrow> http_request \<Rightarrow> uuid option \<Rightarrow> gostring \<Rightarrow> gostring \<Rightarrow> (gostring, gostring) gomap option \<Rightarrow> 'h cp \<Rightarrow> 'h cp" where
  "log_event E rq uid action target meta w =
     snd (on_db (audit_Log (he_marshal E)
       \<lparr>ev_UserID = uid, ev_Action = action, ev_Target = target, ev_Metadata = meta,
        ev_IP = he_ParseIP E (remoteIP E rq)\<rparr>) w)"

definition users_me :: "http_env \<Rightarrow> uuid option \<Rightarrow> ('h cp, meResp) handler" where
  "users_me E uid =
     (case uid of
        None \<Rightarrow> refuse 401 ''unauthenticated''
      | Some i \<Rightarrow>
          serve (on_db (users_ByID i)) (err_response [(users_ErrNotFound, 401, ''user gone'')])
            (\<lambda>u. respond 200 (JsonBody (me_of E u))))"

definition sessionTTL :: int where
  "sessionTTL = 30 * 24 * 3600 * 1000000000"

definition issueSession :: "http_env \<Rightarrow> http_request \<Rightarrow> User \<Rightarrow> 'b response + cookie" where
  "issueSession E rq u =
     (let expires = rq_now rq + sessionTTL
      in case session_Encode (he_session E) \<lparr>sess_UserID = user_ID u, sess_ExpiresAt = expires\<rparr> of
           Inl err \<Rightarrow> Inl (httperr_Write 500 ''session encode'')
         | Inr token \<Rightarrow> Inr (SetSession token expires (rq_TLS rq)))"

definition admit_user :: "http_env \<Rightarrow> http_request \<Rightarrow> int \<Rightarrow> User \<Rightarrow> meResp response" where
  "admit_user E rq st u =
     (case issueSession E rq u of
        Inl resp \<Rightarrow> resp
      | Inr c \<Rightarrow> \<lparr>status = st, cookie = Some c, body = JsonBody (me_of E u)\<rparr>)"

definition users_login ::
  "http_env \<Rightarrow> users_env \<Rightarrow> http_request \<Rightarrow> loginReq option \<Rightarrow> ('h cp, meResp) handler" where
  "users_login E U rq req =
     (case req of
        None \<Rightarrow> refuse 400 ''invalid json''
      | Some r \<Rightarrow> (\<lambda>w.
          case on_db (Authenticate U (lr_Email r) (lr_Password r)) w of
            (Inl err, w) \<Rightarrow>
              if errors_Is err users_ErrBadCredentials
              then (httperr_Write 401 ''invalid credentials'',
                    log_event E rq None ''auth.login_failed'' (lr_Email r) None w)
              else (internal_error, w)
          | (Inr u, w) \<Rightarrow>
              (admit_user E rq 200 u, log_event E rq (Some (user_ID u)) ''auth.login'' (user_Slug u) None w)))"

definition users_logout :: "http_env \<Rightarrow> http_request \<Rightarrow> uuid option \<Rightarrow> ('h cp, unit) handler" where
  "users_logout E rq uid w =
     (\<lparr>status = 204, cookie = Some (ClearSession (rq_TLS rq)), body = NoBody\<rparr>,
      (case uid of None \<Rightarrow> w | Some u \<Rightarrow> log_event E rq (Some u) ''auth.logout'' '''' None w))"

definition signup_errors :: "(go_error \<times> int \<times> gostring) list" where
  "signup_errors =
     [(users_ErrEmailTaken, 409, ''email taken''), (users_ErrSlugTaken, 409, ''slug taken''),
      (users_ErrInvalidEmail, 400, ''invalid email''), (users_ErrInvalidSlug, 400, ''invalid slug''),
      (users_ErrPasswordTooShort, 400, ''password too short'')]"

text \<open>The account is committed, then the hook runs; if it fails the account is deleted again.\<close>

definition after_signup ::
  "http_env \<Rightarrow> (gostring \<Rightarrow> ('h cp, unit) call) \<Rightarrow> http_request \<Rightarrow> User \<Rightarrow> ('h cp, meResp) handler" where
  "after_signup E hook rq u w =
     (case hook (user_Slug u)
             (log_event E rq (Some (user_ID u)) ''user.signup'' (user_Slug u) (Some [(''email'', user_Email u)]) w) of
        (Inl err, w) \<Rightarrow> (httperr_Write 500 ''registration failed'', snd (on_db (HardDelete (user_ID u)) w))
      | (Inr _, w) \<Rightarrow> (admit_user E rq 201 u, w))"

definition users_signup ::
  "http_env \<Rightarrow> users_env \<Rightarrow> (gostring \<Rightarrow> ('h cp, unit) call) \<Rightarrow> http_request \<Rightarrow> signupReq option \<Rightarrow> ('h cp, meResp) handler" where
  "users_signup E U hook rq req =
     (case req of
        None \<Rightarrow> refuse 400 ''invalid json''
      | Some r \<Rightarrow>
          serve (on_db (Signup U (sr_Email r) (sr_Slug r) (sr_Password r))) (err_response signup_errors)
            (after_signup E hook rq))"

end
