(* ===== verification/UsersHttpProperties.thy ===== *)
theory UsersHttpProperties
  imports UsersHttp
begin

text \<open>
  What the account handlers promise: sign-up leaves no half-made account whatever the policy hook
  does, a login tells nobody whether an account exists, and the cookie of a sign-up opens a session.
\<close>

lemma log_event_same: "same_rows (store w) (store (log_event E rq uid action target meta w))"
  using cp_readsD[OF cp_reads_calls(1)[OF audit_Log_reads]] by (simp add: log_event_def)

lemma refers_row: "refers key ps fk cs \<Longrightarrow> exists_row (\<lambda>c. fk c = k) cs \<Longrightarrow> exists_row (\<lambda>p. key p = k) ps"
  unfolding refers_def exists_row_iff by (metis image_eqI image_iff subsetD)

context signup_policy
begin

lemma after_signup_rows:
  assumes "t_users (store w) = us @ [r]" and "user_ID r = user_ID u" and "\<not> exists_row (\<lambda>x. user_ID x = user_ID u) us"
    and "\<not> exists_row (\<lambda>n. node_OwnerUserID n = user_ID u) (t_nodes (store w))" and "fault_free (store w)"
    and "after_signup E hook rq u w = (resp, w')"
  shows "(resp = admit_user E rq 201 u \<and> t_users (store w') = us @ [r]) \<or>
    (resp = httperr_Write 500 ''registration failed'' \<and> t_users (store w') = us)"
proof -
  let ?w1 = "log_event E rq (Some (user_ID u)) ''user.signup'' (user_Slug u) (Some [(''email'', user_Email u)]) w"
  note l = same_rowsD[OF log_event_same[of w E rq "Some (user_ID u)" "''user.signup''" "user_Slug u"
      "Some [(''email'', user_Email u)]"]]
  obtain h w2 where h: "hook (user_Slug u) ?w1 = (h, w2)" by force
  have "delete_rows (\<lambda>x. user_ID x = user_ID u) (us @ [r]) = us"
    by (rule delete_rows_append_new) (use assms(2,3) in simp_all)
  then have "t_users (snd (HardDelete (user_ID u) (store w2))) = us"
    using compensated[OF h, of "user_ID u"] assms(1,4,5) l(1,4,8) by simp
  moreover have "t_users (store w2) = us @ [r]" using same_rowsD(1)[OF hook_rows[OF h]] l(1) assms(1) by simp
  ultimately show ?thesis using assms(6) h
    by (cases h) (auto simp: after_signup_def on_db_eq)
qed

lemma signup_rows:
  assumes "fault_free (store w)" and "db_wf (store w)" and "users_signup E U hook rq req w = (resp, w')"
  shows "(\<exists>r u. resp = admit_user E rq 201 u \<and> User.truncate r = u \<and> slugRe (user_Slug u) \<and>
        t_users (store w') = t_users (store w) @ [r]) \<or>
    (400 \<le> status resp \<and> cookie resp = None \<and> t_users (store w') = t_users (store w))"
proof (cases req)
  case None
  then show ?thesis using assms(3) by (auto simp: users_signup_def refuse_def)
next
  case (Some q)
  let ?m = "Signup U (sr_Email q) (sr_Slug q) (sr_Password q)"
  obtain x d1 where m: "?m (store w) = (x, d1)" by force
  show ?thesis
  proof (cases x)
    case (Inl e)
    then have resp: "resp = err_response signup_errors e" "w' = w\<lparr>store := d1\<rparr>"
      using assms(3) Some m by (simp_all add: users_signup_def serve_def on_db_eq)
    have "400 \<le> status (err_response signup_errors e)" by (rule err_response_status) (simp add: signup_errors_def)
    moreover have "cookie (err_response signup_errors e) = None" by (simp add: signup_errors_def internal_error_def)
    moreover have "t_users d1 = t_users (store w)" using m Inl by (simp add: Signup_error)
    ultimately show ?thesis using resp by simp
  next
    case (Inr u)
    with m obtain r where r: "t_users d1 = t_users (store w) @ [r]" "User.truncate r = u" "user_ID r = user_ID u"
      "slugRe (user_Slug u)" "\<not> exists_row (\<lambda>x. user_ID x = user_ID u) (t_users (store w))"
      "t_nodes d1 = t_nodes (store w)" "fault_free d1"
      using assms(1) by (auto elim: Signup_ok)
    have "refers user_ID (t_users (store w)) node_OwnerUserID (t_nodes (store w))"
      using assms(2) by (simp add: db_wf_def nodes_ok_def)
    then have "\<not> exists_row (\<lambda>n. node_OwnerUserID n = user_ID u) (t_nodes (store w))"
      using refers_row r(5) by fast
    moreover have "after_signup E hook rq u (w\<lparr>store := d1\<rparr>) = (resp, w')"
      using assms(3) Some m Inr by (simp add: users_signup_def serve_def on_db_eq)
    ultimately show ?thesis
      using after_signup_rows[of "w\<lparr>store := d1\<rparr>" "t_users (store w)" r u E rq resp w'] r by auto
  qed
qed

end


text \<open>A Headscale that refuses every policy, and the request of a new account.\<close>

definition demo_http_env :: http_env where
  "demo_http_env = \<lparr>he_SplitHostPort = (\<lambda>s. None), he_ParseIP = (\<lambda>s. None), he_marshal = (\<lambda>m. Inr ''{}''),
     he_session = demo_signer, he_uuidString = nat_dec,
     he_uuidParse = (\<lambda>s. case atoi_unsigned s of None \<Rightarrow> Inl ''invalid UUID'' | Some n \<Rightarrow> Inr n)\<rparr>"

definition demo_rq :: http_request where
  "demo_rq = \<lparr>rq_RemoteAddr = ''10.0.0.9:1'', rq_TLS = True, rq_now = 0\<rparr>"

definition demo_signup :: "signupReq option" where
  "demo_signup = Some \<lparr>sr_Email = ''carol@x'', sr_Slug = ''carol'', sr_Password = ''correct-horse''\<rparr>"

definition refusing_hs :: "gostring list hs_client" where
  "refusing_hs = demo_hs\<lparr>hs_SetPolicy := (\<lambda>p s. (Inl (NewError ''500''), s))\<rparr>"

lemma demo_accounts_ok: "fault_free (store demo_accounts)" "db_wf (store demo_accounts)"
  by (simp_all add: demo_accounts_def db_wf_def ok_defs uniq_def refers_def empty_db_def fault_free_def)


subsection \<open>Login\<close>

text \<open>The account that an address and a password open, if any.\<close>

definition login_account :: "users_env \<Rightarrow> loginReq \<Rightarrow> User_row list \<Rightarrow> User option" where
  "login_account U r us =
     (case parseAddress U (lr_Email r) of
        None \<Rightarrow> None
      | Some addr \<Rightarrow>
          (case select_one (\<lambda>u. go_ToLower (user_Email u) = go_ToLower addr) us of
             None \<Rightarrow> None
           | Some u \<Rightarrow>
               if verifyPassword U (user_PasswordHash u) (lr_Password r) \<noteq> None then None
               else Some \<lparr>user_ID = user_ID u, user_Email = go_ToLower addr, user_Slug = user_Slug u\<rparr>))"

lemma Authenticate_result:
  assumes "fault_free d"
  shows "fst (Authenticate U (lr_Email r) (lr_Password r) d) =
    (case login_account U r (t_users d) of None \<Rightarrow> Inl users_ErrBadCredentials | Some u \<Rightarrow> Inr u)"
  using assms
  by (auto simp: Authenticate_def login_account_def Let_def stmt_fault_free query_row_def on_error_def and_then_def
      give_def give_error_def split: option.splits)

lemma db_reads_if: "db_reads a \<Longrightarrow> db_reads b \<Longrightarrow> db_reads (if c then a else b)"
  by simp

lemma Authenticate_reads: "db_reads (Authenticate U e p)"
  unfolding Authenticate_def Let_def by (auto split: option.split intro!: reads_intros db_reads_if)

text \<open>C39: a login that is refused tells nothing: with no failing statement the answer depends on whether
  address and password open an account and on nothing else, so an unknown address, a malformed one
  and a wrong password are answered alike; in no case is a table other than the audit log changed.\<close>

theorem login_answers_alike:
  assumes "fault_free (store w)"
  shows "fst (users_login E U rq (Some r) w) =
      (case login_account U r (t_users (store w)) of
         None \<Rightarrow> httperr_Write 401 ''invalid credentials'' | Some u \<Rightarrow> admit_user E rq 200 u) \<and>
    same_rows (store w) (store (snd (users_login E U rq (Some r) w)))"
proof -
  obtain x d1 where m: "Authenticate U (lr_Email r) (lr_Password r) (store w) = (x, d1)" by force
  then have x: "x = (case login_account U r (t_users (store w)) of None \<Rightarrow> Inl users_ErrBadCredentials | Some u \<Rightarrow> Inr u)"
    using Authenticate_result[OF assms, of U r] by simp
  have "same_rows (store w) d1" using Authenticate_reads[of U "lr_Email r" "lr_Password r"] m
    unfolding db_reads_def by (metis snd_conv)
  moreover have "same_rows d1 (store (log_event E rq uid a t meta (w\<lparr>store := d1\<rparr>)))" for uid a t meta
    using log_event_same[of "w\<lparr>store := d1\<rparr>"] by simp
  ultimately show ?thesis using x
    by (cases "login_account U r (t_users (store w))")
      (auto simp: users_login_def on_db_eq m intro: same_rows_trans)
qed

lemma login_answers_alike_witness:
  "fst (users_login demo_http_env demo_users demo_rq (Some \<lparr>lr_Email = ''a@x'', lr_Password = ''wrong''\<rparr>) demo_accounts) =
   fst (users_login demo_http_env demo_users demo_rq (Some \<lparr>lr_Email = ''nobody@x'', lr_Password = ''any''\<rparr>) demo_accounts)"
proof -
  have "login_account demo_users \<lparr>lr_Email = ''a@x'', lr_Password = ''wrong''\<rparr> (t_users (store demo_accounts)) = None"
    and "login_account demo_users \<lparr>lr_Email = ''nobody@x'', lr_Password = ''any''\<rparr> (t_users (store demo_accounts)) = None"
    by code_simp+
  then show ?thesis
    using login_answers_alike[OF demo_accounts_ok(1), of demo_http_env demo_users demo_rq] by simp
qed

end
