(* ===== verification/EnvsHttpProperties.thy ===== *)
theory EnvsHttpProperties
  imports EnvsHttp AgentStreamProperties EnvsProperties UsersHttpProperties
begin

text \<open>
  What the environment routes promise, proved against the interface of the dispatcher and then used
  with the one that sends to the agents: who may act on an environment, that a failed creation leaves
  no row, and that no request touches the environments of another user.
\<close>

subsection \<open>The owner of the environment\<close>

lemma env_row_unique:
  assumes "db_wf d" and "x \<in> set (t_envs d)" and "y \<in> set (t_envs d)" and "env_ID x = env_ID y"
  shows "x = y"
proof -
  have "uniq env_ID (t_envs d)" using assms(1) by (simp add: db_wf_def envs_ok_def)
  from uniq_same[OF this assms(2-4)] show ?thesis .
qed

lemma envs_ByID_result:
  "fault_free d \<Longrightarrow> envs_ByID i d =
     ((case select_one (\<lambda>e. env_ID e = i) (t_envs d) of None \<Rightarrow> Inl envs_ErrNotFound | Some e \<Rightarrow> Inr (Env.truncate e)), drop_fault d)"
  by (simp add: envs_ByID_def stmt_fault_free query_row_def on_error_def and_then_def give_def split: option.split)

text \<open>Only the owner can act on an environment. With no failing statement, a stop, start or delete is
  handed to the dispatcher exactly when the id parses and one of the caller's own environments has
  it; an environment of somebody else and one that does not exist are answered alike, and then
  nothing happened beyond the one look-up.\<close>

theorem action_for_owner_only:
  assumes "fault_free (store w)" and "db_wf (store w)"
  shows "handle_envs_action E fn uid idText w =
    (case he_uuidParse E idText of
       Inl _ \<Rightarrow> (httperr_Write 400 ''invalid id'', w)
     | Inr i \<Rightarrow>
         let w1 = w\<lparr>store := drop_fault (store w)\<rparr>
         in if \<exists>e \<in> set (t_envs (store w)). env_ID e = i \<and> env_OwnerUserID e = uid_or_zero uid
            then (case fn i w1 of
                    (Inl _, w2) \<Rightarrow> (httperr_Write 500 ''dispatch failed'', w2)
                  | (Inr _, w2) \<Rightarrow> (\<lparr>status = 202, cookie = None, body = NoBody\<rparr>, w2))
            else (httperr_Write 404 ''not found'', w1))"
proof (cases "he_uuidParse E idText")
  case (Inl a)
  then show ?thesis by (simp add: handle_envs_action_def with_own_env_def refuse_def)
next
  case (Inr i)
  let ?own = "\<exists>e \<in> set (t_envs (store w)). env_ID e = i \<and> env_OwnerUserID e = uid_or_zero uid"
  let ?one = "select_one (\<lambda>e. env_ID e = i) (t_envs (store w))"
  have own: "?own \<longleftrightarrow> (case ?one of None \<Rightarrow> False | Some e \<Rightarrow> env_OwnerUserID e = uid_or_zero uid)"
  proof (cases ?one)
    case None
    then have "\<not> ?own" by (auto simp: select_one_None exists_row_iff)
    then show ?thesis by (simp add: None)
  next
    case (Some e)
    then have e: "e \<in> set (t_envs (store w))" "env_ID e = i" using select_one_Some[OF Some] by auto
    have "x = e" if "x \<in> set (t_envs (store w))" "env_ID x = i" for x
      by (rule env_row_unique[OF assms(2) that(1) e(1)]) (simp only: that(2) e(2))
    with e have "?own \<longleftrightarrow> env_OwnerUserID e = uid_or_zero uid" by blast
    then show ?thesis by (simp add: Some)
  qed
  have "on_db (envs_ByID i) w = ((case ?one of None \<Rightarrow> Inl envs_ErrNotFound | Some e \<Rightarrow> Inr (Env.truncate e)),
      w\<lparr>store := drop_fault (store w)\<rparr>)"
    by (simp add: on_db_eq envs_ByID_result assms(1))
  with Inr own show ?thesis
    by (cases ?one) (auto simp: handle_envs_action_def with_own_env_def serve_def refuse_def respond_def Let_def
        Env.defs split: prod.split sum.split)
qed

lemma action_for_owner_only_witness:
  "handle_envs_action demo_http_env (dispatch_Delete demo_stream) (Some 2) ''7'' demo_cp =
     (httperr_Write 404 ''not found'', demo_cp\<lparr>store := drop_fault (store demo_cp)\<rparr>)"
proof -
  have "he_uuidParse demo_http_env ''7'' = Inr 7" by code_simp
  moreover have "\<not> (\<exists>e \<in> set (t_envs (store demo_cp)). env_ID e = 7 \<and> env_OwnerUserID e = uid_or_zero (Some 2))"
    by (simp add: demo_cp_def demo_env_row_def uid_or_zero_def)
  moreover have "fault_free (store demo_cp)" by (simp add: demo_cp_def)
  ultimately show ?thesis
    using action_for_owner_only[OF _ demo_cp_wf, of demo_http_env "dispatch_Delete demo_stream" "Some 2" "''7''"]
    by (simp only: sum.case Let_def if_False)
qed

subsection \<open>Creation\<close>

definition new_env_row :: "CreateRequest \<Rightarrow> uuid \<Rightarrow> gostring \<Rightarrow> gostring \<Rightarrow> int \<Rightarrow> Env_row" where
  "new_env_row req i hostname volume c = \<lparr>env_ID = i, env_OwnerUserID = cr_OwnerUserID req,
     env_NodeID = cr_NodeID req, env_TemplateID = cr_TemplateID req, env_Name = cr_Name req,
     env_Hostname = hostname, env_Status = ''creating'', env_StatusMessage = '''', env_SidecarContainerID = '''',
     env_DevContainerID = '''', env_GPURequest = cr_GPURequest req, env_GPUIndices = [],
     env_VolumeName = volume, env_CreatedAt = c, env_UpdatedAt = c\<rparr>"

lemma envs_insert_ok:
  assumes "envs_insert req hostname d = (Inr i, d')"
  shows "t_envs d' = t_envs d @ [new_env_row req i hostname '''' (db_now d)] \<and>
    \<not> exists_row (\<lambda>x. env_ID x = i) (t_envs d) \<and> db_rows d' = db_rows d \<and> (fault_free d \<longrightarrow> fault_free d')"
  using assms
  by (auto simp: envs_insert_def with_state_def call_iffs gen_random_uuid_def insert_env_def db_rows_def
      new_env_row_def elim!: stmt_okE split: option.splits if_splits)

lemma envs_Create_ok:
  assumes "envs_Create us req d = (Inr e, d')"
  obtains r where "t_envs d' = t_envs d @ [r]" "Env.truncate r = e" "env_ID r = env_ID e"
    "env_OwnerUserID r = cr_OwnerUserID req" "env_GPUIndices r = []"
    "\<not> exists_row (\<lambda>x. env_ID x = env_ID e) (t_envs d)" "db_rows d' = db_rows d" "fault_free d \<Longrightarrow> fault_free d'"
proof -
  from assms obtain u d1 i d2 n where
    u: "on_error (Wrap ''compute hostname: '') (stmt (query_row t_users (\<lambda>u. user_ID u = cr_OwnerUserID req))) d = (Inr u, d1)"
    and ins: "envs_insert req (user_Slug u @ ''-'' @ cr_Name req) d1 = (Inr i, d2)"
    and upd: "stmt (update_envs (\<lambda>e. env_ID e = i) (env_VolumeName_update (\<lambda>_. ''flex-env-'' @ us i))) d2 = (Inr n, d')"
    and e: "e = Env.truncate (new_env_row req i (user_Slug u @ ''-'' @ cr_Name req) (''flex-env-'' @ us i) 0)"
    by (auto simp: envs_Create_def Let_def call_iffs new_env_row_def Env.defs split: if_splits)
  have d1: "d1 = drop_fault d" using u by (auto simp: call_iffs query_row_def elim!: stmt_okE split: option.splits)
  note d2 = envs_insert_ok[OF ins]
  from upd have d': "d' = (drop_fault d2)\<lparr>t_envs := update_rows (\<lambda>e. env_ID e = i)
      (env_VolumeName_update (\<lambda>_. ''flex-env-'' @ us i)) (t_envs d2)\<rparr>"
    by (auto simp: update_envs_def elim!: stmt_okE)
  have row: "env_VolumeName_update (\<lambda>_. v) (new_env_row req i h '''' c) = new_env_row req i h v c"
    "env_ID (new_env_row req i h v c) = i" "env_OwnerUserID (new_env_row req i h v c) = cr_OwnerUserID req"
    "env_GPUIndices (new_env_row req i h v c) = []"
    "Env.truncate (new_env_row req i h v c) = Env.truncate (new_env_row req i h v 0)" for h v c
    by (simp_all add: new_env_row_def Env.defs)
  have "t_envs d' = t_envs d @ [new_env_row req i (user_Slug u @ ''-'' @ cr_Name req) (''flex-env-'' @ us i) (db_now d)]"
    using d2 by (simp add: d' d1 update_rows_append_new row)
  moreover have "env_ID e = i" by (simp add: e new_env_row_def Env.defs)
  moreover have "db_rows d' = db_rows d" "fault_free d \<Longrightarrow> fault_free d'"
    using d2 by (simp_all add: d' d1 db_rows_def)
  moreover have "Env.truncate (new_env_row req i (user_Slug u @ ''-'' @ cr_Name req) (''flex-env-'' @ us i) (db_now d)) = e"
    unfolding e by (rule row(5))
  ultimately show ?thesis using d2 d1 row(2,3,4) by (intro that) simp_all
qed

lemma stmt_failed: "stmt f d = (Inl e, d') \<Longrightarrow> d' = drop_fault d \<or> f (drop_fault d) = (Inl e, d')"
  by (cases rule: stmt_cases[of f d]) auto

lemma envs_insert_failed: "envs_insert req hostname d = (Inl e, d') \<Longrightarrow> t_envs d' = t_envs d"
  unfolding envs_insert_def
  by (drule stmt_failed) (auto simp: with_state_def call_iffs gen_random_uuid_def insert_env_def split: option.splits)

lemma envs_Create_failed:
  assumes "envs_Create us req d = (Inl e, d')" and "fault_free d"
  shows "t_envs d' = t_envs d"
proof -
  have q: "stmt (query_row t_users p) d = (r, d1) \<Longrightarrow> d1 = drop_fault d" for p r d1
    using assms(2) by (auto simp: stmt_fault_free query_row_def split: option.splits)
  have i: "t_envs d3 = t_envs d" if "stmt (query_row t_users p) d = (r, d2)" and "envs_insert req h d2 = (Inl x, d3)"
    for p r d2 h x d3
    using envs_insert_failed[OF that(2)] q[OF that(1)] by simp
  have u: False if "envs_insert req h (drop_fault d) = (Inr i, d2)" and "stmt (update_envs p f) d2 = (Inl x, d3)"
    for p f d2 d3 x h i
    using envs_insert_ok[OF that(1)] that(2) assms(2) by (simp add: stmt_fault_free update_envs_def)
  from assms(1) show ?thesis
    by (auto simp: envs_Create_def Let_def and_then_Inl_iff on_error_Inl_iff on_error_Inr_iff
        dest: q u i split: if_splits)
qed

lemma envs_ListByOwner_reads: "db_reads (envs_ListByOwner u)"
  unfolding envs_ListByOwner_def by (intro reads_intros)

text \<open>Whatever statement of a creation fails, at most a row of the requesting user was added.\<close>

lemma envs_Create_rows:
  assumes "envs_Create us req d = (x, d')"
  shows "t_envs d' = t_envs d \<or> (\<exists>r. t_envs d' = t_envs d @ [r] \<and> env_OwnerUserID r = cr_OwnerUserID req \<and>
    env_GPUIndices r = [])"
proof (cases x)
  case (Inr e)
  with assms show ?thesis by (auto elim: envs_Create_ok)
next
  case (Inl e)
  have q: "stmt (query_row t_users p) d = (r, d1) \<Longrightarrow> t_envs d1 = t_envs d" for p r d1
    by (cases rule: stmt_cases[of "query_row t_users p" d]) (auto simp: query_row_def split: option.splits)
  have i: "t_envs d3 = t_envs d" if "stmt (query_row t_users p) d = (r, d2)" and "envs_insert req h d2 = (Inl y, d3)"
    for p r d2 h y d3
    using envs_insert_failed[OF that(2)] q[OF that(1)] by simp
  have u: "\<exists>r. t_envs d3 = t_envs d @ [r] \<and> env_OwnerUserID r = cr_OwnerUserID req \<and> env_GPUIndices r = []"
    if "stmt (query_row t_users p) d = (z, d1)" "envs_insert req h d1 = (Inr i, d2)" "stmt (update_envs q f) d2 = (Inl y, d3)"
    for p z d1 h i d2 q f y d3
    using envs_insert_ok[OF that(2)] q[OF that(1)] stmt_failed[OF that(3)]
    by (auto simp: update_envs_def new_env_row_def)
  from assms Inl show ?thesis
    by (auto simp: envs_Create_def Let_def and_then_Inl_iff on_error_Inl_iff on_error_Inr_iff
        dest: q i u split: if_splits)
qed

text \<open>The rows of everybody but one user.\<close>

definition others_rows :: "uuid \<Rightarrow> db \<Rightarrow> Env_row list" where
  "others_rows u d = filter (\<lambda>e. env_OwnerUserID e \<noteq> u) (t_envs d)"

lemma others_rows_same: "same_rows d d' \<Longrightarrow> others_rows u d' = others_rows u d"
  by (simp add: others_rows_def same_rowsD)

lemma others_rows_delete:
  assumes "\<And>e. e \<in> set (t_envs d) \<Longrightarrow> env_ID e = i \<Longrightarrow> env_OwnerUserID e = u"
    and "same_rows d d' \<or> same_rows (d\<lparr>t_envs := delete_rows (\<lambda>e. env_ID e = i) (t_envs d)\<rparr>) d'"
  shows "others_rows u d' = others_rows u d"
proof -
  have "filter (\<lambda>e. env_OwnerUserID e \<noteq> u) (delete_rows (\<lambda>e. env_ID e = i) (t_envs d)) =
      filter (\<lambda>e. env_OwnerUserID e \<noteq> u) (t_envs d)"
    using assms(1) by (auto simp: delete_rows_def intro!: filter_cong)
  with assms(2) show ?thesis by (auto simp: others_rows_def same_rowsD)
qed

context env_dispatcher
begin

lemma create_all_or_nothing:
  assumes "fault_free (store w)" and "handle_envs_create E create uid req w = (resp, w')"
  shows "(\<exists>r. resp = \<lparr>status = 202, cookie = None, body = JsonBody (One (toResp E (Env.truncate r)))\<rparr> \<and>
        t_envs (store w') = t_envs (store w) @ [r] \<and> env_OwnerUserID r = uid_or_zero uid) \<or>
    (400 \<le> status resp \<and> t_envs (store w') = t_envs (store w))"
proof (cases "\<exists>r nodeID. req = Some r \<and> he_uuidParse E (ec_NodeID r) = Inr nodeID \<and> 0 \<le> ec_GPURequest r")
  case False
  then show ?thesis using assms(2)
    by (auto simp: handle_envs_create_def refuse_def split: option.splits sum.splits if_splits)
next
  case True
  then obtain q nodeID where q: "req = Some q" "he_uuidParse E (ec_NodeID q) = Inr nodeID" "\<not> ec_GPURequest q < 0"
    by auto
  let ?req = "create_request (uid_or_zero uid) nodeID q"
  obtain x d1 where m: "envs_Create (he_uuidString E) ?req (store w) = (x, d1)" by force
  let ?w1 = "w\<lparr>store := d1\<rparr>"
  show ?thesis
  proof (cases x)
    case (Inl e)
    have "400 \<le> status (err_response [(envs_ErrInvalidName, 400, ''invalid env name''), (envs_ErrNameTaken, 409, ''env name taken'')] e)"
      by (rule err_response_status) simp
    with Inl m q assms show ?thesis
      by (auto simp: handle_envs_create_def on_db_eq serve_def dest: envs_Create_failed)
  next
    case (Inr env)
    with m obtain r where r: "t_envs d1 = t_envs (store w) @ [r]" "Env.truncate r = env" "env_ID r = env_ID env"
      "env_OwnerUserID r = cr_OwnerUserID ?req" "\<not> exists_row (\<lambda>x. env_ID x = env_ID env) (t_envs (store w))"
      "fault_free d1"
      using assms(1) by (auto elim: envs_Create_ok)
    have resp: "dispatch_created E create env ?w1 = (resp, w')"
      using assms(2) q m Inr by (simp add: handle_envs_create_def on_db_eq serve_def)
    obtain y w2 where c: "create (env_ID env) ?w1 = (y, w2)" by force
    note same = same_rowsD(6,8)[OF cp_readsD_eq[OF create_reads c]]
    show ?thesis
    proof (cases y)
      case (Inl e)
      have "delete_rows (\<lambda>e. env_ID e = env_ID env) (t_envs (store w) @ [r]) = t_envs (store w)"
        by (rule delete_rows_append_new) (use r in simp_all)
      then have "t_envs (snd (envs_Delete (env_ID env) (store w2))) = t_envs (store w)"
        using same r by (auto simp: envs_Delete_def stmt_fault_free on_error_def and_then_def delete_envs_def
            give_def give_error_def)
      with Inl c resp show ?thesis by (auto simp: dispatch_created_def on_db_eq)
    next
      case (Inr u)
      with c resp same r show ?thesis
        by (auto simp: dispatch_created_def respond_def create_request_def)
    qed
  qed
qed

lemma serve_envs_wf: "serves store_wf (serve_envs E create stop start delete uid route)"
proof -
  have del: "serves store_wf (\<lambda>w :: 'h cp. (resp, snd (on_db (envs_Delete i) w)))" for i and resp :: "envResp reply response"
  proof -
    have "keeps store_wf (on_db (envs_Delete i) :: ('h cp, unit) call)" by (intro keeps_intros)
    then show ?thesis by (simp add: serves_def keeps_def)
  qed
  have made: "serves store_wf (dispatch_created E create env)" for env
  proof (rule servesI)
    fix w :: "'h cp" assume "store_wf w"
    then have "store_wf (snd (create (env_ID env) w))" by (rule keepsD[OF cp_reads_wf[OF create_reads]])
    then show "store_wf (snd (dispatch_created E create env w))"
      using servesD[OF del] by (auto simp: dispatch_created_def split: prod.split sum.split)
  qed
  have fns: "keeps store_wf (stop i)" "keeps store_wf (start i)" "keeps store_wf (delete i)" for i
    using cp_reads_wf[OF stop_reads] cp_reads_wf[OF start_reads] delete_wf by (auto simp: keeps_def)
  show ?thesis
    by (cases route)
      (auto simp: handle_envs_create_def handle_envs_list_def handle_envs_get_def handle_envs_action_def with_own_env_def
        intro!: serves_intros keeps_intros made fns)
qed

text \<open>Whatever a user asks for, and whatever fails on the way, the rows of the other users stay.\<close>

lemma own_env_rows:
  assumes "db_wf (store w)" and "with_own_env E uid idText k w = (resp, w')"
    and k: "\<And>i e w1. he_uuidParse E idText = Inr i \<Longrightarrow> same_rows (store w) (store w1) \<Longrightarrow>
      e \<in> set (t_envs (store w)) \<Longrightarrow> env_ID e = i \<Longrightarrow> env_OwnerUserID e = uid_or_zero uid \<Longrightarrow>
      \<exists>env. k i env w1 = (resp, w') \<Longrightarrow> P (store w')"
    and none: "\<And>d. same_rows (store w) d \<Longrightarrow> P d"
  shows "P (store w')"
proof (cases "he_uuidParse E idText")
  case (Inl a)
  with assms(2) have "w' = w" by (simp add: with_own_env_def refuse_def)
  then show ?thesis using none by simp
next
  case (Inr i)
  obtain x w1 where r: "on_db (envs_ByID i) w = (x, w1)" by force
  have same: "same_rows (store w) (store w1)"
    using cp_readsD[OF cp_reads_calls(1)[OF service_reads(1)], of w i] r by simp
  show ?thesis
  proof (cases x)
    case (Inl e)
    with assms(2) Inr r have "w' = w1" by (simp add: with_own_env_def)
    then show ?thesis using none same by simp
  next
    case Inr2: (Inr env)
    with r obtain e where e: "e \<in> set (t_envs (store w))" "env_ID e = i" "env_OwnerUserID e = env_OwnerUserID env"
      using ByID_row[of i w env w1] by auto
    show ?thesis
    proof (cases "env_OwnerUserID env = uid_or_zero uid")
      case True
      with assms(2) Inr r Inr2 have "k i env w1 = (resp, w')" by (simp add: with_own_env_def)
      with k[OF Inr same e(1,2)] True e(3) show ?thesis by auto
    next
      case False
      with assms(2) Inr r Inr2 have "w' = w1" by (simp add: with_own_env_def refuse_def)
      then show ?thesis using none same by simp
    qed
  qed
qed

lemma created_others:
  assumes "db_wf (store w)" and "t_envs (store w) = ts @ [r]" and "env_ID r = env_ID env" and "env_OwnerUserID r = u"
    and "dispatch_created E create env w = (resp, w')"
  shows "others_rows u (store w') = others_rows u (store w)"
proof -
  obtain y w2 where c: "create (env_ID env) w = (y, w2)" by force
  note same = cp_readsD_eq[OF create_reads c]
  have "e \<in> set (t_envs (store w)) \<Longrightarrow> env_ID e = env_ID env \<Longrightarrow> env_OwnerUserID e = u" for e
    using env_row_unique[OF assms(1), of e r] assms(2-4) by auto
  then have "others_rows u (snd (envs_Delete (env_ID env) (store w2))) = others_rows u (store w2)"
    by (intro others_rows_delete[OF _ envs_Delete_rows]) (simp add: same_rowsD(6)[OF same])
  then show ?thesis
    using assms(5) c others_rows_same[OF same] by (cases y) (auto simp: dispatch_created_def on_db_eq respond_def)
qed

lemma others_kept:
  assumes "db_wf (store w)" and "serve_envs E create stop start delete uid route w = (resp, w')"
  shows "others_rows (uid_or_zero uid) (store w') = others_rows (uid_or_zero uid) (store w)"
proof -
  let ?u = "uid_or_zero uid"
  let ?P = "\<lambda>d. others_rows ?u d = others_rows ?u (store w)"
  have act: "?P (store w')" if "handle_envs_action E fn uid idText w = (resp, w')"
    and fn: "\<And>i v. same_rows (store v) (store (snd (fn i v))) \<or>
      same_rows ((store v)\<lparr>t_envs := delete_rows (\<lambda>e. env_ID e = i) (t_envs (store v))\<rparr>) (store (snd (fn i v)))"
    for fn idText
  proof (rule own_env_rows[OF assms(1) that(1)[unfolded handle_envs_action_def]])
    fix i e w1
    assume same: "same_rows (store w) (store w1)" and e: "e \<in> set (t_envs (store w))" "env_ID e = i" "env_OwnerUserID e = ?u"
      and "\<exists>env. serve (fn i) (\<lambda>_. httperr_Write 500 ''dispatch failed'') (\<lambda>_. respond 202 NoBody) w1 = (resp, w')"
    then have w': "w' = snd (fn i w1)" by (auto simp: serve_def respond_def split: prod.splits sum.splits)
    have "x \<in> set (t_envs (store w1)) \<Longrightarrow> env_ID x = i \<Longrightarrow> env_OwnerUserID x = ?u" for x
      using env_row_unique[OF assms(1) _ e(1), of x] e same by (simp add: same_rowsD)
    from others_rows_delete[OF this fn] show "?P (store w')" by (simp add: w' others_rows_same[OF same])
  qed (rule others_rows_same)
  show ?thesis
  proof (cases route)
    case (EnvCreate req)
    show ?thesis
    proof (cases "\<exists>q nodeID. req = Some q \<and> he_uuidParse E (ec_NodeID q) = Inr nodeID \<and> 0 \<le> ec_GPURequest q")
      case False
      with assms(2) EnvCreate show ?thesis
        by (auto simp: handle_envs_create_def refuse_def split: option.splits sum.splits if_splits)
    next
      case True
      then obtain q nodeID where q: "req = Some q" "he_uuidParse E (ec_NodeID q) = Inr nodeID" "\<not> ec_GPURequest q < 0"
        by auto
      let ?req = "create_request ?u nodeID q"
      obtain x d1 where m: "envs_Create (he_uuidString E) ?req (store w) = (x, d1)" by force
      then have wf: "db_wf d1" using keepsD[OF keeps_envs(1) assms(1), of "he_uuidString E" ?req] by simp
      show ?thesis
      proof (cases x)
        case (Inl e)
        with assms(2) EnvCreate q m envs_Create_rows[of "he_uuidString E" ?req "store w" x d1] show ?thesis
          by (auto simp: handle_envs_create_def on_db_eq serve_def others_rows_def create_request_def)
      next
        case (Inr env)
        with m obtain r where r: "t_envs d1 = t_envs (store w) @ [r]" "env_ID r = env_ID env" "env_OwnerUserID r = ?u"
          by (auto elim: envs_Create_ok simp: create_request_def)
        have "dispatch_created E create env (w\<lparr>store := d1\<rparr>) = (resp, w')"
          using assms(2) EnvCreate q m Inr by (simp add: handle_envs_create_def on_db_eq serve_def)
        from created_others[OF _ _ r(2,3) this] wf r show ?thesis by (simp add: others_rows_def)
      qed
    qed
  next
    case EnvList
    with assms(2) have "w' = snd (on_db (envs_ListByOwner ?u) w)"
      by (auto simp: handle_envs_list_def serve_def respond_def split: prod.splits sum.splits)
    then show ?thesis
      by (simp add: others_rows_same[OF cp_readsD[OF cp_reads_calls(1)[OF envs_ListByOwner_reads]]])
  next
    case (EnvGet idText)
    show ?thesis
      by (rule own_env_rows[OF assms(1) assms(2)[unfolded EnvGet serve_envs.simps handle_envs_get_def]])
        (auto simp: respond_def others_rows_same)
  next
    case (EnvStop idText)
    with assms(2) show ?thesis using act[of stop] cp_readsD[OF stop_reads] by simp
  next
    case (EnvStart idText)
    with assms(2) show ?thesis using act[of start] cp_readsD[OF start_reads] by simp
  next
    case (EnvDelete idText)
    with assms(2) show ?thesis using act[of delete, OF _ delete_rows_of] by simp
  qed
qed

end

subsection \<open>With the agents' dispatcher\<close>


definition demo_create_req :: "createReq option" where
  "demo_create_req = Some \<lparr>ec_NodeID = ''50'', ec_TemplateID = ''cuda-base'', ec_Name = ''four'', ec_GPURequest = 1\<rparr>"


text \<open>No request touches another user's environments: whichever of the environment routes a user calls
  with whatever body or id, and whatever statement, Headscale call or send fails on the way, the rows
  of all other users are the same afterwards, in the same order.\<close>

theorem env_requests_respect_owners:
  assumes "db_wf (store w)"
    and "serve_envs E (dispatch_Create X H cfg) (dispatch_Stop X) (dispatch_Start X H) (dispatch_Delete X) uid route w = (resp, w')"
  shows "others_rows (uid_or_zero uid) (store w') = others_rows (uid_or_zero uid) (store w)"
  using assms by (rule agent_dispatcher.others_kept)

lemma env_requests_respect_owners_witness:
  "others_rows 2 (store (snd (serve_envs demo_http_env (dispatch_Create demo_stream demo_client demo_config)
     (dispatch_Stop demo_stream) (dispatch_Start demo_stream demo_client) (dispatch_Delete demo_stream) (Some 2)
     (EnvDelete ''7'') demo_cp))) = t_envs (store demo_cp)"
proof -
  let ?r = "serve_envs demo_http_env (dispatch_Create demo_stream demo_client demo_config) (dispatch_Stop demo_stream)
     (dispatch_Start demo_stream demo_client) (dispatch_Delete demo_stream) (Some 2) (EnvDelete ''7'') demo_cp"
  have "others_rows (uid_or_zero (Some 2)) (store (snd ?r)) = others_rows (uid_or_zero (Some 2)) (store demo_cp)"
    using env_requests_respect_owners[OF demo_cp_wf, of demo_http_env demo_stream demo_client demo_config "Some 2"
        "EnvDelete ''7''" "fst ?r" "snd ?r"] by simp
  moreover have "others_rows 2 (store demo_cp) = t_envs (store demo_cp)"
    by (simp add: others_rows_def demo_cp_def demo_env_row_def)
  ultimately show ?thesis by (simp add: uid_or_zero_def)
qed

end
