(* ===== verification/System.thy ===== *)
theory System
  imports AgentProperties EnvsHttpProperties
begin

text \<open>
  The control plane and the agent of one node together. The agent handles commands; its messages
  reach the control plane in the order they were sent; the users' requests, the snapshots of
  reconnects and everything else the control plane does to other tables come in between.
\<close>

record ('h, 'd) flex_system =
  plane :: "'h cp"
  node_agent :: "'d agent_world"
  delivered :: nat

text \<open>The constants of a system: UUID package, agent, Headscale, configuration, node and stream.\<close>

record ('h, 'd) site =
  site_X :: stream_env
  site_dc :: "'d docker_client"
  site_E :: dispatch_env
  site_H :: "'h hs_client"
  site_cfg :: dispatcher_config
  site_http :: http_env
  site_node :: uuid
  site_stream :: nat

definition site_serve ::
  "('h, 'd) site \<Rightarrow> uuid option \<Rightarrow> env_route \<Rightarrow> ('h cp, envResp reply) handler" where
  "site_serve S = serve_envs (site_http S) (dispatch_Create (site_X S) (site_H S) (site_cfg S)) (dispatch_Stop (site_X S))
     (dispatch_Start (site_X S) (site_H S)) (dispatch_Delete (site_X S))"

definition site_message :: "('h, 'd) site \<Rightarrow> AgentMessage \<Rightarrow> 'h cp \<Rightarrow> 'h cp" where
  "site_message S = stream_message (site_X S) (site_node S) (site_stream S)"

inductive system_step :: "('h, 'd) site \<Rightarrow> ('h, 'd) flex_system \<Rightarrow> ('h, 'd) flex_system \<Rightarrow> bool" for S where
  agent: "agent_step (site_dc S) (site_E S) (node_agent s) a \<Longrightarrow> system_step S s (s\<lparr>node_agent := a\<rparr>)"
| deliver: "delivered s < length (sent (node_agent s)) \<Longrightarrow> fault_free (store (plane s)) \<Longrightarrow>
    system_step S s (s\<lparr>plane := site_message S (sent (node_agent s) ! delivered s) (plane s),
                      delivered := Suc (delivered s)\<rparr>)"
| snapshot: "system_step S s (s\<lparr>plane := site_message S (EnvSnapshot ids) (plane s)\<rparr>)"
| request: "site_serve S uid route (plane s) = (resp, w) \<Longrightarrow> system_step S s (s\<lparr>plane := w\<rparr>)"
| elsewhere: "t_envs (store w) = t_envs (store (plane s)) \<Longrightarrow> system_step S s (s\<lparr>plane := w\<rparr>)"

inductive_cases system_stepE: "system_step S s s'"

subsection \<open>The devices the rows show\<close>

definition gpus_within :: "(uuid \<Rightarrow> int set) \<Rightarrow> 'h cp \<Rightarrow> bool" where
  "gpus_within R w = (\<forall>e \<in> set (t_envs (store w)). set (env_GPUIndices e) \<subseteq> R (env_ID e))"

lemma gpus_within_reads: "cp_reads m \<Longrightarrow> keeps (gpus_within R) m"
  by (simp add: keeps_def gpus_within_def same_rowsD(6)[OF cp_readsD])

lemma gpus_within_delete:
  "gpus_within R w \<Longrightarrow> same_rows (store w) d \<or> same_rows ((store w)\<lparr>t_envs := delete_rows p (t_envs (store w))\<rparr>) d \<Longrightarrow>
   gpus_within R (w\<lparr>store := d\<rparr>)"
  by (auto simp: gpus_within_def same_rowsD set_delete_rows)

lemma gpus_within_Delete: "gpus_within R w \<Longrightarrow> gpus_within R (w\<lparr>store := snd (envs_Delete i (store w))\<rparr>)"
  using gpus_within_delete[OF _ envs_Delete_rows] .

lemma gpus_within_Create: "keeps (gpus_within R) (on_db (envs_Create us req))"
proof (rule keepsI)
  fix w assume "gpus_within R w"
  then show "gpus_within R (snd (on_db (envs_Create us req) w))"
    using envs_Create_rows[OF prod.collapse[symmetric], of us req "store w"]
    by (auto simp: gpus_within_def on_db_eq)
qed

lemma gpus_within_dispatch_Delete: "keeps (gpus_within R) (dispatch_Delete X i)"
proof (rule keepsI)
  fix w assume "gpus_within R w"
  from gpus_within_delete[OF this dispatch_Delete_rows] show "gpus_within R (snd (dispatch_Delete X i w))"
    by (simp add: gpus_within_def)
qed

lemma gpus_within_created:
  fixes H :: "'h hs_client"
  shows "serves (gpus_within R) (dispatch_created E (dispatch_Create X H cfg) env)"
proof (rule servesI)
  fix w :: "'h cp" assume "gpus_within R w"
  from keepsD[OF gpus_within_reads[OF dispatch_reads(1)] this, of X H cfg "env_ID env"]
  show "gpus_within R (snd (dispatch_created E (dispatch_Create X H cfg) env w))"
    using gpus_within_Delete by (auto simp: dispatch_created_def on_db_eq split: prod.split sum.split)
qed

lemma gpus_within_serve: "serves (gpus_within R) (site_serve S uid route)"
proof -
  have reads: "keeps (gpus_within R) (on_db (envs_ListByOwner u))" "keeps (gpus_within R) (on_db (envs_ByID i))"
    "keeps (gpus_within R) (dispatch_Stop X i)" "keeps (gpus_within R) (dispatch_Start X H i)" for u i X H
    by (intro gpus_within_reads reads_intros envs_ListByOwner_reads dispatch_reads)+
  show ?thesis unfolding site_serve_def
    by (cases route)
      (auto simp: handle_envs_create_def handle_envs_list_def handle_envs_get_def handle_envs_action_def with_own_env_def
        intro!: serves_intros gpus_within_Create gpus_within_created gpus_within_dispatch_Delete reads)
qed

subsection \<open>Messages\<close>

text \<open>Updating one row's devices, and the reports that clear them.\<close>

lemma update_row_gpus:
  assumes "fault_free d" and "\<And>e. env_ID (f e) = env_ID e"
  shows "t_envs (snd (envs_update_row what i f d)) =
    update_rows (\<lambda>e. env_ID e = i) (\<lambda>e. (f e)\<lparr>env_UpdatedAt := db_now d\<rparr>) (t_envs d)"
  using assms by (simp add: envs_update_row_result stmt_fault_free give_def)

definition says :: "dispatch_env \<Rightarrow> AgentMessage \<Rightarrow> (uuid \<Rightarrow> int set) \<Rightarrow> uuid \<Rightarrow> int set" where
  "says E m R u = (if about E u m then ready_devices m else R u)"

lemma mark_gpus:
  assumes "gpus_within R w" and "fault_free (store w)" and "\<And>e. env_ID (f e) = env_ID e"
    and "\<And>e. set (env_GPUIndices (f e)) \<subseteq> G"
  shows "gpus_within (\<lambda>u. if u = i then G else R u) (snd (on_db (envs_update_row what i f) w))"
  using assms(1,4) unfolding gpus_within_def on_db_eq
  by (auto simp: update_row_gpus[OF assms(2,3)] set_update_rows assms(3) dest!: subsetD[OF assms(4)])

lemma deliver_within:
  assumes "gpus_within R w" and "fault_free (store w)" and parse: "su_Parse X = uuidParse E"
    and ints: "\<And>u i. about E u m \<Longrightarrow> i \<in> ready_devices m \<Longrightarrow> fits_int 32 i" and "\<And>ids. m \<noteq> EnvSnapshot ids"
  shows "gpus_within (says E m R) (stream_message X n sid m w)"
proof -
  have one: "says E m R = (\<lambda>u. if u = i then ready_devices m else R u)"
    if "\<And>u. about E u m \<longleftrightarrow> uuidParse E envID = Inr u" and "uuidParse E envID = Inr i" for i envID
    using that by (auto simp: says_def fun_eq_iff)
  have none: "says E m R = R" if "\<And>u. \<not> about E u m" using that by (simp add: says_def fun_eq_iff)
  show ?thesis
  proof (cases m)
    case (EnvReady envID sc dev g)
    have "map to_int32 g = g" if "uuidParse E envID = Inr i" for i
      using ints[of i] that EnvReady by (intro map_to_int32_id) (auto simp: about_def ready_devices_def list_all_iff)
    with EnvReady assms(1,2) one[of envID] none show ?thesis
      by (auto simp: stream_message_def with_env_def parse about_def ready_devices_def envs_MarkRunning_def
          split: sum.split intro!: mark_gpus)
  next
    case (EnvStopped envID)
    with assms(1,2) one[of envID] none show ?thesis
      by (auto simp: stream_message_def with_env_def parse about_def ready_devices_def envs_MarkStopped_def
          split: sum.split intro!: mark_gpus)
  next
    case (EnvError envID stage detail)
    with assms(1,2) one[of envID] none show ?thesis
      by (auto simp: stream_message_def with_env_def parse about_def ready_devices_def envs_MarkError_def
          split: sum.split intro!: mark_gpus)
  next
    case (EnvDeleted envID)
    have "gpus_within (\<lambda>u. if u = i then ready_devices (EnvDeleted envID) else R u) (snd (on_db (envs_Delete i) w))" for i
      using assms(1,2) by (auto simp: gpus_within_def on_db_eq envs_Delete_def stmt_fault_free delete_envs_def
          on_error_def and_then_def give_def give_error_def set_delete_rows)
    with EnvDeleted assms(1,2) one[of envID] none show ?thesis
      by (auto simp: stream_message_def with_env_def parse about_def ready_devices_def split: sum.split)
  next
    case (Heartbeat t)
    have "t_envs (snd (RecordHeartbeat n d)) = t_envs d" for d
      by (cases rule: stmt_cases[of "with_state (\<lambda>d. update_nodes (\<lambda>n'. node_ID n' = n)
         (\<lambda>n. n\<lparr>node_Status := ''online'', node_LastSeenAt := Some (db_now d)\<rparr>))" d])
        (auto simp: RecordHeartbeat_def on_error_def and_then_def update_nodes_def with_state_def give_def give_error_def)
    with Heartbeat assms(1) none show ?thesis
      by (auto simp: stream_message_def about_def gpus_within_def on_db_eq stream_Send_def)
  qed (use assms none in \<open>auto simp: stream_message_def about_def\<close>)
qed

lemma gpus_within_MarkError: "keeps (gpus_within R) (on_db (envs_MarkError i stage detail))"
proof (rule keepsI)
  fix w assume ok: "gpus_within R w"
  let ?f = "\<lambda>e. e\<lparr>env_Status := ''error'', env_StatusMessage := ''['' @ stage @ ''] '' @ detail, env_GPUIndices := []\<rparr>"
  show "gpus_within R (snd (on_db (envs_MarkError i stage detail) w))"
    unfolding envs_MarkError_def on_db_eq envs_update_row_result
    using ok by (cases rule: stmt_cases[of "give ()" "store w"])
      (auto simp: gpus_within_def give_def set_update_rows)
qed

lemma gpus_within_snapshot:
  assumes "gpus_within R w"
  shows "gpus_within R (stream_message X n sid (EnvSnapshot ids) w)"
proof -
  have "gpus_within R (resync_rows X ids rows v)" if "gpus_within R v" for rows v
    using that unfolding resync_rows_def
    by (induction rows arbitrary: v) (auto intro: keepsD[OF gpus_within_MarkError])
  moreover have "db_reads (envs_ListRunningOnNode n)"
    unfolding envs_ListRunningOnNode_def by (intro reads_intros)
  then have "gpus_within R (snd (on_db (envs_ListRunningOnNode n) w))"
    using keepsD[OF gpus_within_reads[OF cp_reads_calls(1)] assms] by blast
  ultimately show ?thesis
    by (auto simp: stream_message_def split: prod.split sum.split)
qed

subsection \<open>Every prefix of the agent's messages\<close>

definition prefix_inv :: "dispatch_env \<Rightarrow> 'd agent_world \<Rightarrow> bool" where
  "prefix_inv E a \<longleftrightarrow> agent_inv E a \<and>
     (\<forall>n u v. u \<noteq> v \<longrightarrow> reported E u (take n (sent a)) \<inter> reported E v (take n (sent a)) = {}) \<and>
     (\<forall>n u. reported E u (take n (sent a)) \<subseteq> set (total_gpus (alloc a)))"

lemma agent_inv_now:
  assumes "agent_inv E a"
  shows "u \<noteq> v \<Longrightarrow> reported E u (sent a) \<inter> reported E v (sent a) = {}"
    and "reported E u (sent a) \<subseteq> set (total_gpus (alloc a))"
proof -
  have wf: "alloc_wf (alloc a)" and rep: "reported E u (sent a) \<subseteq> held (alloc a) u" for u
    using assms by (simp_all add: agent_inv_def)
  have "held (alloc a) u \<subseteq> set (total_gpus (alloc a))"
    using wf used_held[of "alloc a"] unfolding alloc_wf_def by blast
  with rep[of u] show "reported E u (sent a) \<subseteq> set (total_gpus (alloc a))" by blast
  assume "u \<noteq> v"
  from wf_exclusive[OF wf this] rep[of u] rep[of v] show "reported E u (sent a) \<inter> reported E v (sent a) = {}" by blast
qed

lemma agent_step_grows:
  assumes "agent_step dc E a a'" and "agent_inv E a"
  shows "total_gpus (alloc a') = total_gpus (alloc a) \<and> (sent a' = sent a \<or> (\<exists>m. sent a' = sent a @ [m]))"
  using assms(1)
proof (rule agent_stepE)
  fix msg assume "handle_command dc E msg a = (Returned, a')"
  moreover have "alloc_wf (alloc a)" "int32_devices (alloc a)" using assms(2) by (simp_all add: agent_inv_def)
  ultimately have "accounts E a a'" using command_accounts by blast
  then show ?thesis by (auto simp: accounts_def)
qed simp_all

lemma prefix_inv_step:
  assumes "agent_step dc E a a'" and "prefix_inv E a"
  shows "prefix_inv E a'"
proof -
  have inv: "agent_inv E a'" using agent_inv_step[OF assms(1)] assms(2) by (simp add: prefix_inv_def)
  have g: "total_gpus (alloc a') = total_gpus (alloc a)" and s: "sent a' = sent a \<or> (\<exists>m. sent a' = sent a @ [m])"
    using agent_step_grows[OF assms(1)] assms(2) by (auto simp: prefix_inv_def)
  have "take n (sent a') = sent a' \<or> take n (sent a') = take n (sent a)" for n
    using s by (cases "n \<le> length (sent a)") auto
  then show ?thesis
    using assms(2) inv agent_inv_now[OF inv] g unfolding prefix_inv_def by metis
qed

subsection \<open>Runs of the system\<close>

definition system_inv :: "('h, 'd) site \<Rightarrow> ('h, 'd) flex_system \<Rightarrow> bool" where
  "system_inv S s \<longleftrightarrow> prefix_inv (site_E S) (node_agent s) \<and> delivered s \<le> length (sent (node_agent s)) \<and>
     gpus_within (\<lambda>u. reported (site_E S) u (take (delivered s) (sent (node_agent s)))) (plane s)"

lemma deliver_step:
  assumes "system_inv S s" and "su_Parse (site_X S) = uuidParse (site_E S)"
    and "delivered s < length (sent (node_agent s))" and "fault_free (store (plane s))"
  shows "gpus_within (\<lambda>u. reported (site_E S) u (take (Suc (delivered s)) (sent (node_agent s))))
    (site_message S (sent (node_agent s) ! delivered s) (plane s))"
proof -
  let ?E = "site_E S" and ?ms = "sent (node_agent s)" and ?n = "delivered s"
  let ?m = "?ms ! ?n" and ?R = "\<lambda>u. reported (site_E S) u (take ?n ?ms)"
  have next_report: "reported ?E u (take (Suc ?n) ?ms) = says ?E ?m ?R u" for u
    using assms(3) by (simp add: take_Suc_conv_app_nth reported_snoc says_def)
  have ints: "fits_int 32 i" if "about ?E u ?m" "i \<in> ready_devices ?m" for u i
  proof -
    have "reported ?E u (take (Suc ?n) ?ms) \<subseteq> set (total_gpus (alloc (node_agent s)))"
      using assms(1) by (simp add: system_inv_def prefix_inv_def)
    moreover have "i \<in> reported ?E u (take (Suc ?n) ?ms)" using that next_report[of u] by (simp add: says_def)
    ultimately have "i \<in> set (total_gpus (alloc (node_agent s)))" by blast
    then show ?thesis using assms(1)
      by (auto simp: system_inv_def prefix_inv_def agent_inv_def int32_devices_def list_all_iff)
  qed
  have now: "gpus_within ?R (plane s)" using assms(1) by (simp add: system_inv_def)
  have "gpus_within (says ?E ?m ?R) (site_message S ?m (plane s))"
  proof (cases "\<exists>ids. ?m = EnvSnapshot ids")
    case True
    then obtain ids where m: "?m = EnvSnapshot ids" by blast
    then have "says ?E ?m ?R = ?R" by (simp add: says_def about_def fun_eq_iff)
    with m show ?thesis using gpus_within_snapshot[OF now] by (simp add: site_message_def)
  next
    case False
    then show ?thesis unfolding site_message_def
      using deliver_within[OF now assms(4,2)] ints by blast
  qed
  then show ?thesis by (simp only: next_report)
qed

lemma system_inv_step:
  assumes "system_step S s s'" and "system_inv S s" and "su_Parse (site_X S) = uuidParse (site_E S)"
  shows "system_inv S s'"
  using assms(1)
proof (rule system_stepE)
  fix a assume s': "s' = s\<lparr>node_agent := a\<rparr>" and step: "agent_step (site_dc S) (site_E S) (node_agent s) a"
  have inv: "agent_inv (site_E S) (node_agent s)" using assms(2) by (simp add: system_inv_def prefix_inv_def)
  have "delivered s \<le> length (sent (node_agent s))" using assms(2) by (simp add: system_inv_def)
  then have "take (delivered s) (sent a) = take (delivered s) (sent (node_agent s))"
    "delivered s \<le> length (sent a)" using agent_step_grows[OF step inv] by auto
  then show ?thesis using assms(2) prefix_inv_step[OF step] by (simp add: s' system_inv_def)
next
  fix ids assume "s' = s\<lparr>plane := site_message S (EnvSnapshot ids) (plane s)\<rparr>"
  then show ?thesis using assms(2) by (simp add: system_inv_def site_message_def gpus_within_snapshot)
next
  fix uid route resp w assume s': "s' = s\<lparr>plane := w\<rparr>" and r: "site_serve S uid route (plane s) = (resp, w)"
  let ?R = "\<lambda>u. reported (site_E S) u (take (delivered s) (sent (node_agent s)))"
  have "gpus_within ?R (snd (site_serve S uid route (plane s)))"
    using assms(2) by (intro servesD[OF gpus_within_serve]) (simp add: system_inv_def)
  then show ?thesis using assms(2) r by (simp add: s' system_inv_def)
next
  fix w assume "s' = s\<lparr>plane := w\<rparr>" "t_envs (store w) = t_envs (store (plane s))"
  then show ?thesis using assms(2) by (simp add: system_inv_def gpus_within_def)
next
  assume "s' = s\<lparr>plane := site_message S (sent (node_agent s) ! delivered s) (plane s), delivered := Suc (delivered s)\<rparr>"
    "delivered s < length (sent (node_agent s))" "fault_free (store (plane s))"
  then show ?thesis using assms(2) deliver_step[OF assms(2,3)] by (simp add: system_inv_def)
qed

lemma system_inv_run:
  "(system_step S)\<^sup>*\<^sup>* s s' \<Longrightarrow> su_Parse (site_X S) = uuidParse (site_E S) \<Longrightarrow> system_inv S s \<Longrightarrow> system_inv S s'"
  by (induction rule: rtranclp_induct) (auto dest: system_inv_step)

text \<open>The system as it starts: an agent with nothing allocated or sent, rows without devices.\<close>

definition starts :: "int list \<Rightarrow> ('h, 'd) flex_system \<Rightarrow> bool" where
  "starts idx s \<longleftrightarrow> alloc (node_agent s) = NewGPUAllocator idx \<and> sent (node_agent s) = [] \<and> delivered s = 0 \<and>
     list_all (\<lambda>e. env_GPUIndices e = []) (t_envs (store (plane s)))"


text \<open>A run: the agent creates two environments, then its two answers are delivered.\<close>

definition demo_site :: "(unit, MockDockerClient) site" where
  "demo_site = \<lparr>site_X = demo_stream\<lparr>su_Parse := uuidParse demo_env\<rparr>, site_dc = mock_client, site_E = demo_env,
     site_H = demo_client, site_cfg = demo_config, site_http = demo_http_env, site_node = 50, site_stream = 1\<rparr>"

definition demo_start_system :: "(unit, MockDockerClient) flex_system" where
  "demo_start_system = \<lparr>plane = demo_cp, node_agent = demo_world, delivered = 0\<rparr>"

definition agent_turn :: "ControlMessage \<Rightarrow> (unit, MockDockerClient) flex_system \<Rightarrow> (unit, MockDockerClient) flex_system" where
  "agent_turn c s = s\<lparr>node_agent := snd (handle_command mock_client demo_env c (node_agent s))\<rparr>"

definition delivery :: "(unit, MockDockerClient) flex_system \<Rightarrow> (unit, MockDockerClient) flex_system" where
  "delivery s = s\<lparr>plane := site_message demo_site (sent (node_agent s) ! delivered s) (plane s), delivered := Suc (delivered s)\<rparr>"

definition demo_mid :: "(unit, MockDockerClient) flex_system" where
  "demo_mid = agent_turn (MsgCreateEnv (demo_create ''8'' 1)) (agent_turn (MsgCreateEnv (demo_create ''7'' 1)) demo_start_system)"

lemma demo_run_steps: "(system_step demo_site)\<^sup>*\<^sup>* demo_start_system (delivery (delivery demo_mid))"
proof -
  have agent: "system_step demo_site s (agent_turn c s)"
    if "fst (handle_command mock_client demo_env c (node_agent s)) = Returned" for c s
  proof -
    have "handle_command mock_client demo_env c (node_agent s) = (Returned, snd (handle_command mock_client demo_env c (node_agent s)))"
      using that by (metis prod.collapse)
    then have "agent_step (site_dc demo_site) (site_E demo_site) (node_agent s) (snd (handle_command mock_client demo_env c (node_agent s)))"
      by (simp add: demo_site_def agent_step.command)
    then show ?thesis unfolding agent_turn_def by (rule system_step.agent)
  qed
  have deliver: "system_step demo_site s (delivery s)"
    if "delivered s < length (sent (node_agent s))" "list_all (\<lambda>f. f = None) (db_faults (store (plane s)))" for s
    unfolding delivery_def by (rule system_step.deliver) (use that in \<open>simp_all add: fault_free_def\<close>)
  have r: "fst (handle_command mock_client demo_env (MsgCreateEnv (demo_create ''7'' 1)) (node_agent demo_start_system)) = Returned"
    "fst (handle_command mock_client demo_env (MsgCreateEnv (demo_create ''8'' 1))
       (node_agent (agent_turn (MsgCreateEnv (demo_create ''7'' 1)) demo_start_system))) = Returned"
    by code_simp+
  have d: "delivered demo_mid < length (sent (node_agent demo_mid))"
    "list_all (\<lambda>f. f = None) (db_faults (store (plane demo_mid)))"
    "delivered (delivery demo_mid) < length (sent (node_agent (delivery demo_mid)))"
    "list_all (\<lambda>f. f = None) (db_faults (store (plane (delivery demo_mid))))"
    by code_simp+
  have "(system_step demo_site)\<^sup>*\<^sup>* demo_start_system demo_mid"
    unfolding demo_mid_def using agent[OF r(1)] agent[OF r(2)] by simp
  then show ?thesis using deliver[OF d(1,2)] deliver[OF d(3,4)] by (meson rtranclp.rtrancl_into_rtrancl)
qed

definition demo_rows :: "Env_row list" where
  "demo_rows = t_envs (store (plane (delivery (delivery demo_mid))))"


subsection \<open>From the request to the running environment\<close>

lemma marked_row:
  assumes "fault_free d" and "\<And>e. env_ID (f e) = env_ID e" and "e \<in> set (t_envs d)" and "env_ID e = i"
  shows "(f e)\<lparr>env_UpdatedAt := db_now d\<rparr> \<in> set (t_envs (snd (envs_update_row what i f d)))"
  using assms(3,4) by (auto simp: update_row_gpus[OF assms(1,2)] set_update_rows intro: rev_image_eqI)

text \<open>What a report about a creation makes of the row of its environment.\<close>

lemma error_report_marks_row:
  assumes "su_Parse X env = Inr i" "fault_free (store w)" "e \<in> set (t_envs (store w))" "env_ID e = i"
  shows "\<exists>e' \<in> set (t_envs (store (stream_message X n sid (EnvError env stage detail) w))).
    env_ID e' = i \<and> env_Status e' = ''error'' \<and> env_GPUIndices e' = []"
proof -
  let ?f = "\<lambda>e. e\<lparr>env_Status := ''error'', env_StatusMessage := ''['' @ stage @ ''] '' @ detail, env_GPUIndices := []\<rparr>"
  have "store (stream_message X n sid (EnvError env stage detail) w) = snd (envs_MarkError i stage detail (store w))"
    using assms(1) by (simp add: stream_message_def with_env_def on_db_eq)
  then show ?thesis using marked_row[OF assms(2) _ assms(3,4), of ?f "''mark error: ''"]
    by (intro bexI[of _ "(?f e)\<lparr>env_UpdatedAt := db_now (store w)\<rparr>"]) (simp_all add: envs_MarkError_def assms(4))
qed

lemma ready_report_marks_row:
  assumes "su_Parse X env = Inr i" "fault_free (store w)" "e \<in> set (t_envs (store w))" "env_ID e = i" "map to_int32 idx = idx"
  shows "\<exists>e' \<in> set (t_envs (store (stream_message X n sid (EnvReady env sc dev idx) w))).
    env_ID e' = i \<and> env_Status e' = ''running'' \<and> env_GPUIndices e' = idx"
proof -
  let ?f = "\<lambda>e. e\<lparr>env_Status := ''running'', env_StatusMessage := '''', env_SidecarContainerID := sc,
     env_DevContainerID := dev, env_GPUIndices := idx\<rparr>"
  have "store (stream_message X n sid (EnvReady env sc dev idx) w) = snd (envs_MarkRunning i sc dev idx (store w))"
    using assms(1) by (simp add: stream_message_def with_env_def on_db_eq)
  then have "(?f e)\<lparr>env_UpdatedAt := db_now (store w)\<rparr> \<in> set (t_envs (store (stream_message X n sid (EnvReady env sc dev idx) w)))"
    using marked_row[OF assms(2) _ assms(3,4), of ?f "''mark running: ''"] by (simp add: envs_MarkRunning_def assms(5))
  then show ?thesis by (intro bexI[of _ "(?f e)\<lparr>env_UpdatedAt := db_now (store w)\<rparr>"]) (simp_all add: assms(4))
qed


definition demo_dispatched :: "unit cp" where
  "demo_dispatched = snd (dispatch_Create (site_X demo_site) demo_client demo_config 7 demo_cp)"

definition demo_command :: CreateEnv where
  "demo_command = (case snd (last (outbox demo_dispatched)) of MsgCreateEnv c \<Rightarrow> c | _ \<Rightarrow> demo_create '''' 0)"

definition demo_answered :: "MockDockerClient agent_world" where
  "demo_answered = snd (handle_command mock_client demo_env (MsgCreateEnv demo_command) demo_world)"


end
