(* ===== verification/Devices.thy ===== *)
theory Devices
  imports CpState
begin

text \<open>
  \<open>devices/service.go\<close>: pairing a user's device (a row and a pre-auth key of Headscale), listing,
  and removal with the best-effort removal of the device's Headscale nodes.
\<close>

definition devices_ErrInvalidName :: go_error where
  "devices_ErrInvalidName = Sentinel ''invalid device name''"
definition devices_ErrConflict :: go_error where
  "devices_ErrConflict = Sentinel ''device hostname already taken''"
definition devices_ErrNotFound :: go_error where
  "devices_ErrNotFound = Sentinel ''device not found''"

record PairResult =
  pair_Device :: Device
  pair_PreauthKey :: gostring
  pair_HeadscaleURL :: gostring
  pair_TailnetDomain :: gostring

record ServiceConfig =
  HeadscaleClientURL :: gostring
  TailnetDomain :: gostring

definition device_hostname :: "gostring \<Rightarrow> gostring \<Rightarrow> gostring" where
  "device_hostname slug name = slug @ ''-device-'' @ name"

definition devices_upsert :: "uuid \<Rightarrow> gostring \<Rightarrow> gostring \<Rightarrow> (db, Device) call" where
  "devices_upsert userID name hostname = stmt (with_state (\<lambda>d. and_then gen_random_uuid (\<lambda>i.
     upsert_device \<lparr>dev_ID = i, dev_UserID = userID, dev_Name = name, dev_Hostname = hostname,
       dev_CreatedAt = db_now d, dev_LastSeenAt = None\<rparr>)))"

definition devices_Pair ::
  "'h hs_client \<Rightarrow> ServiceConfig \<Rightarrow> uuid \<Rightarrow> gostring \<Rightarrow> ('h cp, PairResult) call" where
  "devices_Pair H cfg userID name =
     (if \<not> devices_nameRe name then give_error devices_ErrInvalidName
      else and_then (on_error (Wrap ''user: '') (on_db (users_ByID userID)))
        (\<lambda>u. let hostname = device_hostname (user_Slug u) name in and_then
          (on_error (\<lambda>err. if is_unique_violation err then devices_ErrConflict else Wrap ''upsert device: '' err)
            (on_db (devices_upsert userID name hostname)))
          (\<lambda>d. and_then
            (on_error (Wrap ''preauthkey: '')
              (on_hs (hs_CreatePreAuthKey H
                \<lparr>pk_User = user_Slug u, pk_Reusable = False, pk_Ephemeral = False,
                 pk_Expiration = 10 * 60 * 1000000000, pk_ACLTags = [device_tag (user_Slug u)]\<rparr>)))
            (\<lambda>key. give \<lparr>pair_Device = d, pair_PreauthKey = key,
                        pair_HeadscaleURL = HeadscaleClientURL cfg,
                        pair_TailnetDomain = TailnetDomain cfg\<rparr>))))"

definition devices_List :: "uuid \<Rightarrow> (db, Device list) call" where
  "devices_List userID =
     and_then (on_error (Wrap ''query: '') (stmt (query_rows t_devices (\<lambda>x. dev_UserID x = userID))))
       (\<lambda>rows. give (sort_key dev_CreatedAt rows))"

definition devices_ByID :: "uuid \<Rightarrow> (db, Device) call" where
  "devices_ByID i =
     on_error (\<lambda>err. if errors_Is err NoRows then devices_ErrNotFound else Wrap ''select: '' err)
       (stmt (query_row t_devices (\<lambda>x. dev_ID x = i)))"

text \<open>The Headscale nodes that carry the device's hostname are removed, errors ignored.\<close>

definition drop_hs_nodes :: "'h hs_client \<Rightarrow> gostring \<Rightarrow> hs_Node list \<Rightarrow> 'h cp \<Rightarrow> 'h cp" where
  "drop_hs_nodes H hostname ns w =
     fold (\<lambda>n w. if hs_node_Name n = hostname \<or> hs_node_GivenName n = hostname
                 then snd (on_hs (hs_DeleteNode H (hs_node_ID n)) w) else w) ns w"

definition devices_Delete :: "'h hs_client \<Rightarrow> uuid \<Rightarrow> uuid \<Rightarrow> ('h cp, unit) call" where
  "devices_Delete H userID deviceID =
     and_then (on_db (devices_ByID deviceID))
       (\<lambda>d. if dev_UserID d \<noteq> userID then give_error devices_ErrNotFound
            else and_then (on_error (Wrap ''user: '') (on_db (users_ByID userID)))
              (\<lambda>u w. (case on_hs (hs_ListNodes H (user_Slug u)) w of
                 (r, w) \<Rightarrow>
                   let w = (case r of Inl _ \<Rightarrow> w | Inr ns \<Rightarrow> drop_hs_nodes H (dev_Hostname d) ns w)
                   in and_then
                        (on_error (Wrap ''delete: '')
                          (on_db (stmt (delete_devices (\<lambda>x. dev_ID x = deviceID \<and> dev_UserID x = userID)))))
                        (\<lambda>k. if k = 0 then give_error devices_ErrNotFound else give ()) w)))"

subsection \<open>The service keeps the schema's promises\<close>

lemma keeps_devices_upsert [keeps_intros]: "keeps db_wf (devices_upsert u n h)"
  unfolding devices_upsert_def by (intro keeps_intros)

lemma keeps_devices_reads [keeps_intros]: "keeps db_wf (devices_List u)" "keeps db_wf (devices_ByID i)"
  unfolding devices_List_def devices_ByID_def by (intro keeps_intros)+

lemma keeps_devices_Pair [keeps_intros]: "keeps store_wf (devices_Pair H cfg u name)"
  unfolding devices_Pair_def Let_def by (intro keeps_intros)

lemma drop_hs_nodes_frame:
  "store (drop_hs_nodes H h ns w) = store w \<and> streams (drop_hs_nodes H h ns w) = streams w \<and>
   outbox (drop_hs_nodes H h ns w) = outbox w"
  unfolding drop_hs_nodes_def by (induction ns arbitrary: w) (simp_all add: on_hs_eq)

end
