(* ===== verification/ResourcesHttp.thy ===== *)
theory ResourcesHttp
  imports Http Devices
begin

text \<open>
  The handlers of nodes, SSH keys, devices and image templates (\<open>nodes/handlers.go\<close>,
  \<open>sshkeys/handlers.go\<close>, \<open>devices/handlers.go\<close> and the template list of \<open>cmd/control-plane/main.go\<close>).
\<close>

subsection \<open>Nodes\<close>

record pairTokenResp =
  ptr_Token :: gostring
  ptr_ExpiresAt :: int

definition handle_createPairToken ::
  "(gostring \<Rightarrow> gostring) \<Rightarrow> (go_error + gostring) \<Rightarrow> int \<Rightarrow> int \<Rightarrow> uuid option \<Rightarrow> ('h cp, pairTokenResp) handler" where
  "handle_createPairToken hashToken rnd now later uid =
     (case uid of
        None \<Rightarrow> refuse 401 ''unauthenticated''
      | Some u \<Rightarrow>
          serve (on_db (CreatePairToken hashToken rnd now u)) (\<lambda>_. internal_error)
            (\<lambda>token. respond 201 (JsonBody \<lparr>ptr_Token = token, ptr_ExpiresAt = later + pairTokenTTL\<rparr>)))"

record pairReq =
  pq_Token :: gostring
  pq_Name :: gostring
  pq_GPUInfo :: gostring

record pairResp =
  pn_NodeID :: gostring
  pn_NodeToken :: gostring

definition handle_pair ::
  "http_env \<Rightarrow> (gostring \<Rightarrow> gostring) \<Rightarrow> (go_error + gostring) \<Rightarrow> int \<Rightarrow> pairReq option \<Rightarrow> ('h cp, pairResp) handler" where
  "handle_pair E hashToken rnd now req =
     (case req of
        None \<Rightarrow> refuse 400 ''invalid json''
      | Some r \<Rightarrow>
          if pq_Token r = '''' \<or> pq_Name r = '''' then refuse 400 ''token and name required''
          else serve
            (on_db (PairNode hashToken rnd now
               \<lparr>pr_Token = pq_Token r, pr_Name = pq_Name r, pr_GPUInfo = pq_GPUInfo r\<rparr>))
            (err_response [(nodes_ErrTokenInvalid, 401, ''invalid pair token''),
                           (nodes_ErrNodeNameTaken, 409, ''node name taken'')])
            (\<lambda>(node, nodeToken). respond 201
              (JsonBody \<lparr>pn_NodeID = he_uuidString E (node_ID node), pn_NodeToken = nodeToken\<rparr>)))"

subsection \<open>SSH keys\<close>

record addReq =
  ar_Name :: gostring
  ar_PublicKey :: gostring

record keyResp =
  kr_ID :: gostring
  kr_Name :: gostring
  kr_PublicKey :: gostring
  kr_Fingerprint :: gostring

definition key_resp :: "http_env \<Rightarrow> Key \<Rightarrow> keyResp" where
  "key_resp E k = \<lparr>kr_ID = he_uuidString E (key_ID k), kr_Name = key_Name k, kr_PublicKey = key_PublicKey k,
     kr_Fingerprint = key_Fingerprint k\<rparr>"

definition handle_keys_add ::
  "http_env \<Rightarrow> (gostring \<Rightarrow> gostring option) \<Rightarrow> uuid option \<Rightarrow> addReq option \<Rightarrow> ('h cp, keyResp reply) handler" where
  "handle_keys_add E fingerprint uid req =
     (case req of
        None \<Rightarrow> refuse 400 ''invalid json''
      | Some r \<Rightarrow>
          if ar_Name r = '''' then refuse 400 ''name required''
          else serve (on_db (keys_Add fingerprint (uid_or_zero uid) (ar_Name r) (ar_PublicKey r)))
            (err_response [(keys_ErrInvalidKey, 400, ''invalid public key''), (keys_ErrDuplicate, 409, ''duplicate key'')])
            (\<lambda>k. respond 201 (JsonBody (One (key_resp E k)))))"

definition handle_keys_list :: "http_env \<Rightarrow> uuid option \<Rightarrow> ('h cp, keyResp reply) handler" where
  "handle_keys_list E uid =
     serve (on_db (keys_List (uid_or_zero uid))) (\<lambda>_. internal_error) (\<lambda>ks. respond 200 (JsonBody (Many (map (key_resp E) ks))))"

definition handle_keys_delete :: "http_env \<Rightarrow> uuid option \<Rightarrow> gostring \<Rightarrow> ('h cp, keyResp reply) handler" where
  "handle_keys_delete E uid idText =
     (case he_uuidParse E idText of
        Inl _ \<Rightarrow> refuse 400 ''invalid id''
      | Inr i \<Rightarrow> serve (on_db (keys_Delete (uid_or_zero uid) i)) (err_response [(keys_ErrNotFound, 404, ''not found'')])
          (\<lambda>_. respond 204 NoBody))"

subsection \<open>Devices\<close>

record devicePairResp =
  dp_DeviceID :: gostring
  dp_Hostname :: gostring
  dp_PreauthKey :: gostring
  dp_HeadscaleURL :: gostring
  dp_TailnetDomain :: gostring

record deviceResp =
  dr_ID :: gostring
  dr_Name :: gostring
  dr_Hostname :: gostring
  dr_CreatedAt :: int
  dr_LastSeenAt :: "int option"

definition device_resp :: "http_env \<Rightarrow> Device \<Rightarrow> deviceResp" where
  "device_resp E d = \<lparr>dr_ID = he_uuidString E (dev_ID d), dr_Name = dev_Name d, dr_Hostname = dev_Hostname d,
     dr_CreatedAt = dev_CreatedAt d, dr_LastSeenAt = dev_LastSeenAt d\<rparr>"

text \<open>The request body of a pairing is the device's name.\<close>

definition handle_devices_pair ::
  "http_env \<Rightarrow> 'h hs_client \<Rightarrow> ServiceConfig \<Rightarrow> uuid option \<Rightarrow> gostring option \<Rightarrow> ('h cp, devicePairResp) handler" where
  "handle_devices_pair E H cfg uid req =
     (case req of
        None \<Rightarrow> refuse 400 ''invalid json''
      | Some name \<Rightarrow>
          serve (devices_Pair H cfg (uid_or_zero uid) name)
            (err_response [(devices_ErrInvalidName, 400, ''invalid device name''),
                           (devices_ErrConflict, 409, ''device hostname already taken'')])
            (\<lambda>res. respond 201 (JsonBody
              \<lparr>dp_DeviceID = he_uuidString E (dev_ID (pair_Device res)), dp_Hostname = dev_Hostname (pair_Device res),
               dp_PreauthKey = pair_PreauthKey res, dp_HeadscaleURL = pair_HeadscaleURL res,
               dp_TailnetDomain = pair_TailnetDomain res\<rparr>)))"

definition handle_devices_list :: "http_env \<Rightarrow> uuid option \<Rightarrow> ('h cp, deviceResp reply) handler" where
  "handle_devices_list E uid =
     serve (on_db (devices_List (uid_or_zero uid))) (\<lambda>_. internal_error)
       (\<lambda>got. respond 200 (JsonBody (Many (map (device_resp E) got))))"

definition handle_devices_delete ::
  "http_env \<Rightarrow> 'h hs_client \<Rightarrow> uuid option \<Rightarrow> gostring \<Rightarrow> ('h cp, deviceResp reply) handler" where
  "handle_devices_delete E H uid idText =
     (case he_uuidParse E idText of
        Inl _ \<Rightarrow> refuse 400 ''invalid id''
      | Inr i \<Rightarrow> serve (devices_Delete H (uid_or_zero uid) i) (err_response [(devices_ErrNotFound, 404, ''not found'')])
          (\<lambda>_. respond 204 NoBody))"

subsection \<open>Image templates\<close>

definition handle_templates :: "('h cp, Template list) handler" where
  "handle_templates = serve (on_db templates_List) (\<lambda>_. internal_error) (\<lambda>tpls. respond 200 (JsonBody tpls))"

subsection \<open>The handlers keep the schema's promises\<close>

lemma keeps_devices_Delete [keeps_intros]: "keeps store_wf (devices_Delete H u i)"
proof -
  have del: "keeps store_wf (and_then
      (on_error g (on_db (stmt (delete_devices p)))) (\<lambda>k. if k = (0::nat) then give_error e else give ()))" for g p e
    by (intro keeps_intros)
  have ls: "store_wf w \<Longrightarrow> on_hs f w = (r, w') \<Longrightarrow> store_wf (case r of Inl x \<Rightarrow> w' | Inr ns \<Rightarrow> drop_hs_nodes H h ns w')" for f w r w' h
    using drop_hs_nodes_frame[of H h _ w'] on_hs_frame[of f w r w'] by (cases r) (simp_all add: store_wf_def)
  have "keeps store_wf (\<lambda>w. (case on_hs f w of (r, w) \<Rightarrow>
      let w = (case r of Inl _ \<Rightarrow> w | Inr ns \<Rightarrow> drop_hs_nodes H h ns w)
      in and_then (on_error g (on_db (stmt (delete_devices p)))) (\<lambda>k. if k = (0::nat) then give_error e else give ()) w))"
    (is "keeps store_wf ?m") for f h g p e
  proof (rule keepsI)
    fix w :: "'a cp" assume wf: "store_wf w"
    obtain r w1 where l: "on_hs f w = (r, w1)" by force
    from keepsD[OF del ls[OF wf l]] show "store_wf (snd (?m w))" by (simp add: l Let_def)
  qed
  then show ?thesis unfolding devices_Delete_def by (intro keeps_intros)
qed

lemma serves_prod: "(\<And>a b. serves P (k a b)) \<Longrightarrow> serves P (case z of (a, b) \<Rightarrow> k a b)"
  by (cases z) simp

lemma resources_keep [serves_intros]:
  "serves store_wf (handle_createPairToken h rnd now later uid)" "serves store_wf (handle_pair E h rnd now req)"
  "serves store_wf (handle_keys_add E fp uid areq)" "serves store_wf (handle_keys_list E uid)"
  "serves store_wf (handle_keys_delete E uid i)" "serves store_wf (handle_devices_pair E H cfg uid name)"
  "serves store_wf (handle_devices_list E uid)" "serves store_wf (handle_devices_delete E H uid i)"
  "serves store_wf handle_templates"
  unfolding handle_createPairToken_def handle_pair_def handle_keys_add_def handle_keys_list_def handle_keys_delete_def
    handle_devices_pair_def handle_devices_list_def handle_devices_delete_def handle_templates_def
  by (intro serves_intros serves_prod keeps_intros)+

end
