(* ===== verification/ControlPlaneProperties.thy ===== *)
theory ControlPlaneProperties
  imports ControlPlane EnvsHttpProperties UsersHttpProperties
begin

text \<open>
  What the control plane keeps whatever it is asked: the schema's promises and the shape of the
  accounts hold in every state it reaches, and routes of the session's group need a session.
\<close>

subsection \<open>The accounts\<close>

text \<open>Every statement but the one that inserts an account leaves the accounts well shaped.\<close>

lemma accounts_stmt [keeps_intros]: "keeps accounts_ok f \<Longrightarrow> keeps accounts_ok (stmt f)"
  by (rule keeps_stmt_if) (simp_all add: accounts_ok_def)

lemma statement_users:
  "t_users (snd (query_row tab p d)) = t_users d" "t_users (snd (query_rows tab2 q d)) = t_users d"
  "t_users (snd (gen_random_uuid d)) = t_users d" "t_users (snd (jsonb_input j d)) = t_users d"
  "t_users (snd (insert_audit a d)) = t_users d" "t_users (snd (insert_ssh_key k d)) = t_users d"
  "t_users (snd (insert_pair_token t d)) = t_users d" "t_users (snd (insert_node n d)) = t_users d"
  "t_users (snd (insert_env e d)) = t_users d" "t_users (snd (upsert_device x d)) = t_users d"
  "t_users (snd (update_nodes pn fn d)) = t_users d" "t_users (snd (update_envs pe fe d)) = t_users d"
  "t_users (snd (update_pair_tokens pt ft d)) = t_users d" "t_users (snd (delete_ssh_keys pk d)) = t_users d"
  "t_users (snd (delete_envs pe2 d)) = t_users d" "t_users (snd (delete_devices pd d)) = t_users d"
  by (simp_all add: query_row_def query_rows_def gen_random_uuid_def jsonb_input_def insert_audit_def
      insert_ssh_key_def insert_pair_token_def insert_node_def insert_env_def upsert_device_def update_nodes_def
      update_envs_def update_pair_tokens_def delete_ssh_keys_def delete_envs_def delete_devices_def
      split: option.split del: violated.simps)

lemma same_users_accounts: "(\<And>d. t_users (snd (m d)) = t_users d) \<Longrightarrow> keeps accounts_ok m"
  by (simp add: keeps_def accounts_ok_def)

lemmas accounts_statements [keeps_intros] = statement_users[THEN same_users_accounts]

lemma accounts_delete_user [keeps_intros]: "keeps accounts_ok (delete_user u)"
proof (rule keepsI)
  fix d assume ok: "accounts_ok d"
  have "set (t_users (snd (delete_user u d))) \<subseteq> set (t_users d)"
    by (auto simp: delete_user_def set_delete_rows)
  with ok show "accounts_ok (snd (delete_user u d))" unfolding accounts_ok_def by blast
qed

lemma accounts_tx [keeps_intros]:
  assumes "keeps accounts_ok m"
  shows "keeps accounts_ok (in_tx m)"
proof (rule keepsI)
  fix d assume ok: "accounts_ok d"
  have give: "accounts_ok (snd (stmt (give ()) d'))" if "accounts_ok d'" for d'
    by (rule keepsD[OF accounts_stmt[OF keeps_give(1)] that])
  have roll: "accounts_ok (rollback d1 d2) = accounts_ok d1" for d1 d2
    by (simp add: rollback_def accounts_ok_def)
  obtain x d1 where b: "stmt (give ()) d = (x, d1)" by force
  then have ok1: "accounts_ok d1" using give[OF ok] by simp
  obtain y d2 where m: "m d1 = (y, d2)" by force
  then have ok2: "accounts_ok d2" using keepsD[OF assms ok1] by simp
  obtain z d3 where c: "stmt (give ()) d2 = (z, d3)" by force
  then have "accounts_ok d3" using give[OF ok2] by simp
  with b m c ok1 show "accounts_ok (snd (in_tx m d))"
    by (auto simp: in_tx_def roll split: sum.split)
qed

lemma accounts_services [keeps_intros]:
  "keeps accounts_ok (HardDelete u)" "keeps accounts_ok (CreatePairToken h rnd now u)"
  "keeps accounts_ok (keys_Add fp u nm pk)" "keeps accounts_ok (keys_List u)" "keeps accounts_ok (keys_Delete u k)"
  "keeps accounts_ok templates_List" "keeps accounts_ok (envs_insert creq hn)" "keeps accounts_ok (devices_ByID i)"
  "keeps accounts_ok (users_ByID u)" "keeps accounts_ok (devices_List u)" "keeps accounts_ok (devices_upsert u nm hn)"
  "keeps accounts_ok (envs_Delete i)" "keeps accounts_ok (AuthenticateNodeToken h tok)"
  "keeps accounts_ok (UpdateRegister nid v g)" "keeps accounts_ok (RecordHeartbeat nid)" "keeps accounts_ok (MarkOffline nid)"
  "keeps accounts_ok (envs_ListRunningOnNode nid)" "keeps accounts_ok (envs_ByID i)"
  unfolding envs_ByID_def HardDelete_def CreatePairToken_def keys_Add_def keys_List_def keys_Delete_def templates_List_def envs_insert_def
    devices_ByID_def users_ByID_def devices_List_def devices_upsert_def envs_Delete_def AuthenticateNodeToken_def
    UpdateRegister_def RecordHeartbeat_def MarkOffline_def envs_ListRunningOnNode_def Let_def
  by (auto split: option.split sum.split intro!: keeps_intros)

lemma accounts_services2 [keeps_intros]:
  "keeps accounts_ok (envs_Create us creq)" "keeps accounts_ok (PairNode h rnd now preq)"
  "keeps accounts_ok (envs_update_row what i f)"
  unfolding envs_Create_def PairNode_def pair_insert_node_def envs_update_row_def Let_def
  by (auto split: option.split sum.split prod.split intro!: keeps_intros)

subsection \<open>The invariant of the control plane\<close>

lemma keeps_both: "keeps P m \<Longrightarrow> keeps Q m \<Longrightarrow> keeps (\<lambda>d. P d \<and> Q d) m"
  by (simp add: keeps_def)

definition control_inv :: "'h cp \<Rightarrow> bool" where
  "control_inv w \<longleftrightarrow> store_wf w \<and> accounts_ok (store w)"

lemma control_reads: "cp_reads m \<Longrightarrow> keeps control_inv m"
  by (simp add: keeps_def control_inv_def store_wf_def same_rows_wf[OF cp_readsD] same_rows_accounts[OF cp_readsD])

lemma control_db [keeps_intros]: "keeps db_wf m \<Longrightarrow> keeps accounts_ok m \<Longrightarrow> keeps control_inv (on_db m)"
  by (simp add: keeps_def control_inv_def store_wf_def on_db_eq)

lemma control_hs [keeps_intros]: "keeps control_inv (on_hs g)"
  by (rule control_reads) (rule cp_reads_calls)

lemma keeps_option [keeps_intros]:
  "keeps P a \<Longrightarrow> (\<And>x. keeps P (b x)) \<Longrightarrow> keeps P (case z of None \<Rightarrow> a | Some x \<Rightarrow> b x)"
  by (cases z) simp_all

text \<open>A call's effect on the state with its result dropped.\<close>

lemma control_state: "keeps control_inv m \<Longrightarrow> control_inv w \<Longrightarrow> control_inv (snd (m w))"
  by (rule keepsD)

lemma control_log: "control_inv w \<Longrightarrow> control_inv (log_event E rq uid a t meta w)"
  unfolding log_event_def by (rule control_state[OF control_reads]) (intro reads_intros)+

lemma control_update [simp]:
  "control_inv (w\<lparr>streams := ss\<rparr>) = control_inv w" "control_inv (w\<lparr>outbox := ob\<rparr>) = control_inv w"
  "control_inv (w\<lparr>broken := br\<rparr>) = control_inv w"
  by (simp_all add: control_inv_def store_wf_def)

lemma control_Pair: "keeps control_inv (devices_Pair H cfg u name)"
  unfolding devices_Pair_def Let_def by (intro keeps_intros)

lemma control_device_Delete: "keeps control_inv (devices_Delete H u i)"
proof -
  have del: "keeps control_inv (and_then
      (on_error g (on_db (stmt (delete_devices p)))) (\<lambda>k. if k = (0::nat) then give_error e else give ()))" for g p e
    by (intro keeps_intros)
  have ls: "control_inv w \<Longrightarrow> on_hs f w = (r, w') \<Longrightarrow> control_inv (case r of Inl x \<Rightarrow> w' | Inr ns \<Rightarrow> drop_hs_nodes H h ns w')" for f w r w' h
    using drop_hs_nodes_frame[of H h _ w'] on_hs_frame[of f w r w'] by (cases r) (simp_all add: control_inv_def store_wf_def)
  have "keeps control_inv (\<lambda>w. (case on_hs f w of (r, w) \<Rightarrow>
      let w = (case r of Inl _ \<Rightarrow> w | Inr ns \<Rightarrow> drop_hs_nodes H h ns w)
      in and_then (on_error g (on_db (stmt (delete_devices p)))) (\<lambda>k. if k = (0::nat) then give_error e else give ()) w))"
    (is "keeps control_inv ?m") for f h g p e
  proof (rule keepsI)
    fix w :: "'a cp" assume inv: "control_inv w"
    obtain r w1 where l: "on_hs f w = (r, w1)" by force
    from keepsD[OF del ls[OF inv l]] show "control_inv (snd (?m w))" by (simp add: l Let_def)
  qed
  then show ?thesis unfolding devices_Delete_def by (intro keeps_intros)
qed

lemma control_resources [serves_intros]:
  "serves control_inv (handle_createPairToken h rnd now later uid)" "serves control_inv (handle_pair E h rnd now req)"
  "serves control_inv (handle_keys_add E fp uid areq)" "serves control_inv (handle_keys_list E uid)"
  "serves control_inv (handle_keys_delete E uid i)" "serves control_inv (handle_devices_pair E H cfg uid name)"
  "serves control_inv (handle_devices_list E uid)" "serves control_inv (handle_devices_delete E H uid i)"
  "serves control_inv handle_templates" "serves control_inv (users_me E uid)"
  unfolding handle_createPairToken_def handle_pair_def handle_keys_add_def handle_keys_list_def handle_keys_delete_def
    handle_devices_pair_def handle_devices_list_def handle_devices_delete_def handle_templates_def users_me_def
  by (intro serves_intros serves_prod control_Pair control_device_Delete control_db keeps_intros)+

lemma control_login: "serves control_inv (users_login E U rq req)"
proof (rule servesI)
  fix w assume inv: "control_inv w"
  have "control_inv (snd (on_db (Authenticate U e p) w))" for e p
    using control_state[OF control_reads[OF cp_reads_calls(1)[OF Authenticate_reads]] inv] .
  then have ok: "control_inv w1" if "on_db (Authenticate U e p) w = (x, w1)" for e p x w1
    using that by (metis snd_conv)
  show "control_inv (snd (users_login E U rq req w))"
    by (auto simp: users_login_def refuse_def inv split: option.split prod.split sum.split dest!: ok intro!: control_log)
qed

lemma control_logout: "serves control_inv (users_logout E rq uid)"
  by (auto simp: serves_def users_logout_def control_log split: option.split)

lemma control_signup: "serves control_inv (users_signup E U (OnUserCreated H) rq req)"
proof -
  have after: "serves control_inv (after_signup E (OnUserCreated H) rq u)" for u
  proof (rule servesI)
    fix w :: "'a cp" assume "control_inv w"
    then have "control_inv (snd (OnUserCreated H (user_Slug u)
        (log_event E rq (Some (user_ID u)) ''user.signup'' (user_Slug u) (Some [(''email'', user_Email u)]) w)))"
      by (intro control_state[OF control_reads[OF policy_reads(2)]] control_log)
    moreover have "control_inv v \<Longrightarrow> control_inv (snd (on_db (HardDelete i) v))" for v :: "'a cp" and i
      by (rule control_state[OF control_db]) (intro keeps_intros)+
    ultimately show "control_inv (snd (after_signup E (OnUserCreated H) rq u w))"
      by (auto simp: after_signup_def split: prod.split sum.split)
  qed
  show ?thesis unfolding users_signup_def
    by (intro serves_intros after control_db keeps_intros keeps_accounts_Signup)
qed

subsection \<open>What the environment routes keep\<close>

text \<open>
  An invariant of the tables that a new environment and a removed one keep is kept by every
  environment route: the dispatcher's other calls only read the tables.
\<close>

locale env_routes_keep =
  fixes P :: "db \<Rightarrow> bool"
  assumes same: "same_rows d d' \<Longrightarrow> P d' = P d"
    and create: "keeps P (envs_Create us req)"
    and delete: "keeps P (envs_Delete i)"
begin

abbreviation holds :: "'h cp \<Rightarrow> bool" where
  "holds w \<equiv> P (store w)"

lemma reads: "cp_reads m \<Longrightarrow> keeps holds m"
  by (simp add: keeps_def same[OF cp_readsD])

lemma on_db: "keeps P m \<Longrightarrow> keeps holds (on_db m)"
  by (simp add: keeps_def on_db_eq)

lemma created: "serves holds (dispatch_created E (dispatch_Create X (H :: 'h hs_client) cfg) env)"
proof (rule servesI)
  fix w :: "'h cp" assume "holds w"
  then have "holds (snd (dispatch_Create X H cfg (env_ID env) w))" by (rule keepsD[OF reads[OF dispatch_reads(1)]])
  moreover have "holds v \<Longrightarrow> holds (snd (on_db (envs_Delete i) v))" for v :: "'h cp" and i
    by (rule keepsD[OF on_db[OF delete]])
  ultimately show "holds (snd (dispatch_created E (dispatch_Create X H cfg) env w))"
    by (auto simp: dispatch_created_def split: prod.split sum.split)
qed

lemma dispatch_Delete: "keeps holds (dispatch_Delete X i)"
  unfolding dispatch_Delete_def
  by (intro keeps_and_then keeps_with_state keeps_option reads reads_intros on_db delete)

lemma routes: "serves holds (env_handler C uid r)"
proof -
  have calls: "keeps holds (on_db (envs_ListByOwner u))" "keeps holds (on_db (envs_ByID i))"
    "keeps holds (dispatch_Stop X i)" "keeps holds (dispatch_Start X H i)" for u i X H
    by (intro reads reads_intros envs_ListByOwner_reads dispatch_reads)+
  show ?thesis unfolding env_handler_def
    by (cases r)
      (auto simp: handle_envs_create_def handle_envs_list_def handle_envs_get_def handle_envs_action_def with_own_env_def
        intro!: serves_intros created on_db create dispatch_Delete calls)
qed

end

interpretation schema: env_routes_keep "\<lambda>d. db_wf d \<and> accounts_ok d"
proof
  show "keeps (\<lambda>d. db_wf d \<and> accounts_ok d) (envs_Create us req)" for us req
    by (rule keeps_both) (intro keeps_intros)+
  show "keeps (\<lambda>d. db_wf d \<and> accounts_ok d) (envs_Delete i)" for i
    by (rule keeps_both) (intro keeps_intros)+
qed (simp add: same_rows_wf same_rows_accounts)

lemma control_envs: "serves control_inv (env_handler C uid r)"
  using schema.routes by (simp add: control_inv_def store_wf_def[abs_def] serves_def)

subsection \<open>The whole\<close>

lemma serves_payload [serves_intros]: "serves P h \<Longrightarrow> serves P (as_payload f h)"
  by (fastforce simp: serves_def as_payload_def split: prod.split)

lemma control_health: "serves control_inv handle_health"
  unfolding handle_health_def by (intro serves_intros control_db keeps_intros)

lemma route_handler_inv: "serves control_inv (route_handler C q uid r)"
  by (cases r) (auto intro!: serves_intros control_signup control_login control_logout control_envs control_health)

lemma control_plane_inv: "serves control_inv (control_plane C q r)"
proof (rule servesI)
  fix w :: "'a cp" assume inv: "control_inv w"
  have "control_inv (snd (route_handler C q uid r w))" for uid by (rule servesD[OF route_handler_inv inv])
  then show "control_inv (snd (control_plane C q r w))"
    by (auto simp: control_plane_def RequireSession_def inv split: option.split sum.split)
qed

lemma control_after: "keeps control_inv m \<Longrightarrow> control_inv w \<Longrightarrow> m w = (r, w') \<Longrightarrow> control_inv w'"
  using keepsD[of control_inv m w] by simp

text \<open>A call and a continuation that both keep the invariant.\<close>

lemma control_case:
  assumes "keeps control_inv m" "control_inv w"
    and "\<And>e v. control_inv v \<Longrightarrow> control_inv (f e v)" "\<And>x v. control_inv v \<Longrightarrow> control_inv (g x v)"
  shows "control_inv (case m w of (Inl e, v) \<Rightarrow> f e v | (Inr x, v) \<Rightarrow> g x v)"
    and "control_inv (snd (case m w of (Inl e, v) \<Rightarrow> (h1 e v, f e v) | (Inr x, v) \<Rightarrow> (h2 x v, g x v)))"
proof -
  obtain r v where m: "m w = (r, v)" by force
  then have "control_inv v" using control_after[OF assms(1,2)] by simp
  with m show "control_inv (case m w of (Inl e, v) \<Rightarrow> f e v | (Inr x, v) \<Rightarrow> g x v)"
    and "control_inv (snd (case m w of (Inl e, v) \<Rightarrow> (h1 e v, f e v) | (Inr x, v) \<Rightarrow> (h2 x v, g x v)))"
    by (auto simp: assms(3,4) split: sum.split)
qed

lemma stream_statements:
  "keeps control_inv (on_db (AuthenticateNodeToken h tok))" "keeps control_inv (on_db (UpdateRegister n v g))"
  "keeps control_inv (on_db (RecordHeartbeat n))" "keeps control_inv (on_db (MarkOffline n))"
  "keeps control_inv (on_db (envs_ListRunningOnNode n))" "keeps control_inv (on_db (envs_Delete i))"
  by (intro control_db keeps_intros)+

lemma stream_open_inv: "control_inv w \<Longrightarrow> control_inv (snd (stream_open X metadata sid w))"
  unfolding stream_open_def
  by (auto split: option.split list.split simp: registerStream_def
      intro!: control_case(2)[OF stream_statements(1)])

lemma control_Send: "keeps control_inv (stream_Send sid msg)"
  by (rule control_reads[OF stream_Send_reads])

lemma stream_close_inv: "control_inv w \<Longrightarrow> control_inv (stream_close n w)"
  by (simp add: stream_close_def unregisterStream_def control_state[OF stream_statements(4)])

lemma stream_first_inv:
  assumes "control_inv w"
  shows "control_inv (snd (stream_first X n sid msg w))"
proof (cases msg)
  case (Register version gpus)
  obtain r w1 where u: "on_db (UpdateRegister n version (encodeGPUs gpus)) w = (r, w1)" by force
  then have "control_inv w1" using control_after[OF stream_statements(2) assms] by simp
  then have "control_inv (snd (stream_Send sid m w1))" for m by (rule control_state[OF control_Send])
  with u \<open>control_inv w1\<close> show ?thesis by (auto simp: stream_first_def Register split: sum.split prod.split) (metis snd_conv)+
qed (simp_all add: stream_first_def assms)

lemma Mark_keeps: "keeps accounts_ok (envs_MarkRunning i a b g)" "keeps accounts_ok (envs_MarkStopped i)"
  "keeps accounts_ok (envs_MarkError i s t)"
  unfolding envs_MarkRunning_def envs_MarkStopped_def envs_MarkError_def Let_def
  by (auto split: option.split sum.split prod.split intro!: keeps_intros)

lemma control_Mark: "keeps control_inv (on_db (envs_MarkRunning i a b g))" "keeps control_inv (on_db (envs_MarkStopped i))"
  "keeps control_inv (on_db (envs_MarkError i s t))"
  by (intro control_db keeps_intros Mark_keeps)+

lemma with_env_inv:
  "control_inv w \<Longrightarrow> (\<And>i. control_inv (f i w)) \<Longrightarrow> control_inv (with_env X envID f w)"
  by (simp add: with_env_def split: sum.split)

lemma resync_inv: "control_inv w \<Longrightarrow> control_inv (resync_rows X ids rows w)"
  unfolding resync_rows_def by (induction rows arbitrary: w) (simp_all add: control_state[OF control_Mark(3)])

lemma stream_message_inv:
  assumes "control_inv w"
  shows "control_inv (stream_message X n sid msg w)"
proof (cases msg)
  case (EnvSnapshot ids)
  obtain r w1 where u: "on_db (envs_ListRunningOnNode n) w = (r, w1)" by force
  then have "control_inv w1" using control_after[OF stream_statements(5) assms] by simp
  with u show ?thesis by (simp add: stream_message_def EnvSnapshot resync_inv split: sum.split)
qed (simp_all add: stream_message_def assms with_env_inv control_state[OF control_Mark(1)]
    control_state[OF control_Mark(2)] control_state[OF control_Mark(3)] control_state[OF stream_statements(6)]
    control_state[OF stream_statements(3)] control_state[OF control_Send])

lemma control_step_inv: "control_step C w w' \<Longrightarrow> control_inv w \<Longrightarrow> control_inv w'"
proof (induction rule: control_step.induct)
  case (request q r w resp w')
  then show ?case using servesD[OF control_plane_inv] by (metis snd_conv)
next
  case (opens metadata sid w x w')
  then show ?case using stream_open_inv by (metis snd_conv)
next
  case (registers n sid msg w y w')
  then show ?case using stream_first_inv by (metis snd_conv)
next
  case (breaks w b)
  then show ?case by simp
next
  case (time w t f)
  then show ?case by (simp add: control_inv_def store_wf_def db_wf_def ok_defs accounts_ok_def)
qed (simp_all add: stream_message_inv stream_close_inv)

text \<open>C4: the schema holds in every run: whatever requests are served and whatever streams open, send
  and close, in any order and with any statements failing, keys stay unique, references resolve,
  and every account keeps a valid slug of the documented length.\<close>

theorem control_plane_keeps_schema:
  assumes "(control_step C)\<^sup>*\<^sup>* w w'" "control_inv w"
  shows "db_wf (store w') \<and> accounts_ok (store w')"
proof -
  have "control_inv w'" using assms by (induction rule: rtranclp_induct) (auto intro: control_step_inv)
  then show ?thesis by (simp add: control_inv_def store_wf_def)
qed


subsection \<open>Users apart\<close>

text \<open>The keys, environments and devices of everyone but one user.\<close>

definition foreign_rows :: "uuid \<Rightarrow> db \<Rightarrow> Key_row list \<times> Env_row list \<times> Device list" where
  "foreign_rows u d = (filter (\<lambda>k. key_UserID k \<noteq> u) (t_ssh_keys d), others_rows u d,
     filter (\<lambda>x. dev_UserID x \<noteq> u) (t_devices d))"

definition leaves :: "uuid \<Rightarrow> Key_row list \<times> Env_row list \<times> Device list \<Rightarrow> db \<Rightarrow> bool" where
  "leaves u F d \<longleftrightarrow> foreign_rows u d = F"

lemma leaves_same: "same_rows d d' \<Longrightarrow> leaves u F d' = leaves u F d"
  by (simp add: leaves_def foreign_rows_def others_rows_same same_rowsD)

lemma leaves_stmt [keeps_intros]: "keeps (leaves u F) f \<Longrightarrow> keeps (leaves u F) (stmt f)"
  by (rule keeps_stmt_if) (simp_all add: leaves_def foreign_rows_def others_rows_def)

text \<open>Statements that touch none of the three tables, and those that touch only rows of the user.\<close>

lemma leaves_other_tables:
  "(\<And>d. t_ssh_keys (snd (m d)) = t_ssh_keys d \<and> t_envs (snd (m d)) = t_envs d \<and> t_devices (snd (m d)) = t_devices d) \<Longrightarrow>
   keeps (leaves u F) m"
  by (simp add: keeps_def leaves_def foreign_rows_def others_rows_def)

lemma leaves_statements [keeps_intros]:
  "keeps (leaves u F) (gen_random_uuid)" "keeps (leaves u F) (jsonb_input j)" "keeps (leaves u F) (insert_audit a)"
  "keeps (leaves u F) (insert_pair_token t)" "keeps (leaves u F) (insert_node n)" "keeps (leaves u F) (update_nodes pn fn)"
  "keeps (leaves u F) (update_pair_tokens pt ft)" "keeps (leaves u F) (query_row tab p)" "keeps (leaves u F) (query_rows tab2 q)"
  by (rule leaves_other_tables; simp add: query_row_def query_rows_def gen_random_uuid_def jsonb_input_def insert_audit_def
      insert_pair_token_def insert_node_def update_nodes_def update_pair_tokens_def split: option.split del: violated.simps)+

lemma leaves_own_rows [keeps_intros]:
  "key_UserID k = u \<Longrightarrow> keeps (leaves u F) (insert_ssh_key k)"
  "keeps (leaves u F) (delete_ssh_keys (\<lambda>k. key_ID k = i \<and> key_UserID k = u))"
  "keeps (leaves u F) (delete_devices (\<lambda>x. dev_ID x = j \<and> dev_UserID x = u))"
  by (simp_all add: keeps_def leaves_def foreign_rows_def others_rows_def insert_ssh_key_def delete_ssh_keys_def
      delete_devices_def delete_rows_def conj_commute cong: conj_cong split: option.split del: violated.simps)

lemma update_foreign: "(\<And>x. p x \<Longrightarrow> \<not> q x) \<Longrightarrow> (\<And>x. p x \<Longrightarrow> \<not> q (f x)) \<Longrightarrow> filter q (update_rows p f t) = filter q t"
  by (induction t) (auto simp: update_rows_def)

lemma touch_foreign:
  "filter (\<lambda>x. dev_UserID x \<noteq> v) (update_rows (\<lambda>x. dev_UserID x = v \<and> dev_Name x = nm) (dev_LastSeenAt_update g) t) =
   filter (\<lambda>x. dev_UserID x \<noteq> v) t"
  by (rule update_foreign) simp_all

lemma leaves_upsert [keeps_intros]: "dev_UserID r = u \<Longrightarrow> keeps (leaves u F) (upsert_device r)"
  by (auto simp: keeps_def leaves_def foreign_rows_def others_rows_def upsert_device_def touch_foreign
      split: option.split simp del: violated.simps)

lemma leaves_on_db [keeps_intros]: "keeps (leaves u F) m \<Longrightarrow> keeps (\<lambda>w. leaves u F (store w)) (on_db m)"
  by (simp add: keeps_def on_db_eq)

lemma leaves_on_hs [keeps_intros]: "keeps (\<lambda>w. leaves u F (store w)) (on_hs g)"
  by (simp add: keeps_def on_hs_eq)

lemma leaves_services [keeps_intros]:
  "keeps (leaves u F) (CreatePairToken h rnd now v)" "keeps (leaves u F) (keys_Add fp u nm pk)"
  "keeps (leaves u F) (keys_List v)" "keeps (leaves u F) (keys_Delete u k)" "keeps (leaves u F) templates_List"
  "keeps (leaves u F) (devices_ByID i)" "keeps (leaves u F) (users_ByID v)" "keeps (leaves u F) (devices_List v)"
  "keeps (leaves u F) (devices_upsert u nm hn)"
  unfolding CreatePairToken_def keys_Add_def keys_List_def keys_Delete_def templates_List_def devices_ByID_def
    users_ByID_def devices_List_def devices_upsert_def Let_def
  by (auto split: option.split sum.split intro!: keeps_intros)
abbreviation apart :: "uuid \<Rightarrow> Key_row list \<times> Env_row list \<times> Device list \<Rightarrow> 'h cp \<Rightarrow> bool" where
  "apart u F w \<equiv> leaves u F (store w)"

lemma apart_reads: "cp_reads m \<Longrightarrow> keeps (apart u F) m"
  by (simp add: keeps_def leaves_same[OF cp_readsD])

lemma apart_Pair: "keeps (apart u F) (devices_Pair H cfg u name)"
  unfolding devices_Pair_def Let_def by (intro keeps_intros)

lemma apart_Delete: "keeps (apart u F) (devices_Delete H u i)"
proof -
  have del: "keeps (apart u F) (and_then
      (on_error g (on_db (stmt (delete_devices (\<lambda>x. dev_ID x = i \<and> dev_UserID x = u)))))
      (\<lambda>k. if k = (0::nat) then give_error e else give ()))" for g e
    by (intro keeps_intros)
  have ls: "apart u F w \<Longrightarrow> on_hs f w = (r, w') \<Longrightarrow> apart u F (case r of Inl x \<Rightarrow> w' | Inr ns \<Rightarrow> drop_hs_nodes H h ns w')" for f w r w' h
    using drop_hs_nodes_frame[of H h _ w'] on_hs_frame[of f w r w'] by (cases r) simp_all
  have "keeps (apart u F) (\<lambda>w. (case on_hs f w of (r, w) \<Rightarrow>
      let w = (case r of Inl _ \<Rightarrow> w | Inr ns \<Rightarrow> drop_hs_nodes H h ns w)
      in and_then (on_error g (on_db (stmt (delete_devices (\<lambda>x. dev_ID x = i \<and> dev_UserID x = u)))))
           (\<lambda>k. if k = (0::nat) then give_error e else give ()) w))"
    (is "keeps _ ?m") for f h g e
  proof (rule keepsI)
    fix w :: "'a cp" assume a: "apart u F w"
    obtain r w1 where l: "on_hs f w = (r, w1)" by force
    from keepsD[OF del ls[OF a l]] show "apart u F (snd (?m w))" by (simp add: l Let_def)
  qed
  then show ?thesis unfolding devices_Delete_def by (intro keeps_intros)
qed

lemma apart_resources:
  "serves (apart u F) (handle_createPairToken h rnd now later (Some u))"
  "serves (apart u F) (handle_keys_add E fp (Some u) areq)" "serves (apart u F) (handle_keys_list E (Some u))"
  "serves (apart u F) (handle_keys_delete E (Some u) i)" "serves (apart u F) (handle_devices_pair E H cfg (Some u) name)"
  "serves (apart u F) (handle_devices_list E (Some u))" "serves (apart u F) (handle_devices_delete E H (Some u) i)"
  "serves (apart u F) handle_templates" "serves (apart u F) (users_me E (Some u))" "serves (apart u F) handle_health"
  unfolding handle_createPairToken_def handle_keys_add_def handle_keys_list_def handle_keys_delete_def
    handle_devices_pair_def handle_devices_list_def handle_devices_delete_def handle_templates_def users_me_def
    uid_or_zero_def option.case handle_health_def
  by (intro serves_intros serves_prod apart_Pair apart_Delete keeps_intros)+

lemma log_event_reads: "same_rows (store w) (store (log_event E rq uid a t meta w))"
  using cp_readsD[OF cp_reads_calls(1)[OF audit_Log_reads]] by (simp add: log_event_def)

lemma apart_logout: "serves (apart u F) (users_logout E rq uid)"
  by (auto simp: serves_def users_logout_def leaves_same[OF log_event_reads] split: option.split)

text \<open>The environment routes leave keys and devices alone.\<close>

interpretation side_tables: env_routes_keep "\<lambda>d. (t_ssh_keys d, t_devices d) = K" for K
proof
  have stmt: "keeps (\<lambda>d. (t_ssh_keys d, t_devices d) = K) f \<Longrightarrow> keeps (\<lambda>d. (t_ssh_keys d, t_devices d) = K) (stmt f)"
    for f :: "(db, 'x) call"
    by (rule keeps_stmt_if) simp_all
  have rows: "keeps (\<lambda>d. (t_ssh_keys d, t_devices d) = K) (query_row tab p)"
    "keeps (\<lambda>d. (t_ssh_keys d, t_devices d) = K) gen_random_uuid" "keeps (\<lambda>d. (t_ssh_keys d, t_devices d) = K) (insert_env e)"
    "keeps (\<lambda>d. (t_ssh_keys d, t_devices d) = K) (delete_envs q)"
    "keeps (\<lambda>d. (t_ssh_keys d, t_devices d) = K) (update_envs q f)" for tab :: "db \<Rightarrow> 'r list" and p e q f
    by (auto simp: keeps_def query_row_def gen_random_uuid_def insert_env_def delete_envs_def update_envs_def
        split: option.split simp del: violated.simps)
  show "keeps (\<lambda>d. (t_ssh_keys d, t_devices d) = K) (envs_Create us req)" for us req
    unfolding envs_Create_def envs_insert_def users_ByID_def Let_def
    by (intro keeps_intros stmt rows)
  show "keeps (\<lambda>d. (t_ssh_keys d, t_devices d) = K) (envs_Delete i)" for i
    unfolding envs_Delete_def by (intro keeps_intros stmt rows)
qed (simp add: same_rowsD)

lemma env_handler_apart:
  assumes "db_wf (store w)"
  shows "foreign_rows u (store (snd (env_handler C (Some u) r w))) = foreign_rows u (store w)"
proof -
  have "others_rows (uid_or_zero (Some u)) (store (snd (env_handler C (Some u) r w))) =
      others_rows (uid_or_zero (Some u)) (store w)"
    unfolding env_handler_def by (rule agent_dispatcher.others_kept[OF assms, where resp = "fst (serve_envs (co_http C)
      (dispatch_Create (co_stream C) (co_hs C) (co_dispatch C)) (dispatch_Stop (co_stream C))
      (dispatch_Start (co_stream C) (co_hs C)) (dispatch_Delete (co_stream C)) (Some u) r w)"]) simp
  then show ?thesis
    using servesD[OF side_tables.routes[of "(t_ssh_keys (store w), t_devices (store w))"], of w C "Some u" r]
    by (simp add: foreign_rows_def uid_or_zero_def)
qed

lemma session_route_apart:
  assumes "db_wf (store w)" "\<not> public_route r"
  shows "foreign_rows u (store (snd (route_handler C q (Some u) r w))) = foreign_rows u (store w)"
proof -
  let ?F = "foreign_rows u (store w)"
  have w: "apart u ?F (snd (as_payload f h w))" if "serves (apart u ?F) h" for f and h :: "('a cp, 'b) handler"
    using servesD[OF serves_payload[OF that], of w f] by (simp add: leaves_def)
  have "apart u ?F (snd (route_handler C q (Some u) r w))"
  proof (cases r)
    case (Env_route e)
    then show ?thesis using env_handler_apart[OF assms(1), of u C e]
      by (simp add: leaves_def as_payload_def case_prod_beta)
  qed (use assms(2) in \<open>auto intro!: w apart_resources apart_logout\<close>)
  then show ?thesis by (simp add: leaves_def)
qed

text \<open>C3: users are kept apart: a request to a route of the session's group either carries no session the
  signer accepts, and then it is answered 401 with nothing changed, or it acts for the user named in
  the session, and then the keys, environments and devices of every other user are the same
  afterwards, whatever the route, the body, the ids and the failures on the way.\<close>

theorem sessions_kept_apart:
  assumes "db_wf (store w)" "\<not> public_route r" "control_plane C q r w = (resp, w')"
  shows "(resp = httperr_Write 401 ''unauthenticated'' \<and> w' = w) \<or>
    (\<exists>token sess. re_cookie q = Some token \<and>
       session_Decode (he_session (co_http C)) (rq_now (re_http q)) token = Inr sess \<and>
       foreign_rows (sess_UserID sess) (store w') = foreign_rows (sess_UserID sess) (store w))"
proof (cases "RequireSession (he_session (co_http C)) (rq_now (re_http q))
    (\<lambda>u. route_handler C q (Some u) r w) (re_cookie q)")
  case Unauthenticated
  then show ?thesis using assms(2,3) by (simp add: control_plane_def)
next
  case (Handled x)
  then obtain token sess where "re_cookie q = Some token"
    "session_Decode (he_session (co_http C)) (rq_now (re_http q)) token = Inr sess"
    "x = route_handler C q (Some (sess_UserID sess)) r w"
    by (auto simp: RequireSession_def split: option.splits sum.splits)
  moreover have "x = (resp, w')" using Handled assms(2,3) by (simp add: control_plane_def)
  ultimately show ?thesis using session_route_apart[OF assms(1,2), of "sess_UserID sess" C q] by (metis snd_conv)
qed

subsection \<open>A concrete control plane\<close>

definition demo_control :: "'h hs_client \<Rightarrow> 'h control" where
  "demo_control H = \<lparr>co_http = demo_http_env, co_users = demo_users, co_hash = id, co_fingerprint = Some,
     co_stream = demo_stream, co_hs = H, co_dispatch = demo_config,
     co_devices = \<lparr>HeadscaleClientURL = ''http://hs'', TailnetDomain = ''flex''\<rparr>\<rparr>"

definition demo_call :: "gostring option \<Rightarrow> request" where
  "demo_call c = \<lparr>re_cookie = c, re_http = demo_rq, re_random = Inr ''entropy'', re_later = 5\<rparr>"

lemma demo_accounts_shape: "accounts_ok (store demo_accounts)"
  by code_simp

lemma control_plane_keeps_schema_witness:
  "length (t_users (store (snd (control_plane (demo_control refusing_hs) (demo_call None) (Signup_route demo_signup) demo_accounts)))) = 2 \<and>
   db_wf (store (snd (control_plane (demo_control refusing_hs) (demo_call None) (Signup_route demo_signup) demo_accounts))) \<and>
   accounts_ok (store (snd (control_plane (demo_control refusing_hs) (demo_call None) (Signup_route demo_signup) demo_accounts)))"
proof -
  let ?r = "control_plane (demo_control refusing_hs) (demo_call None) (Signup_route demo_signup) demo_accounts"
  have "control_step (demo_control refusing_hs) demo_accounts (snd ?r)" by (rule control_step.request[OF prod.collapse[symmetric]])
  then have "(control_step (demo_control refusing_hs))\<^sup>*\<^sup>* demo_accounts (snd ?r)" by simp
  from control_plane_keeps_schema[OF this]
  have "db_wf (store (snd ?r)) \<and> accounts_ok (store (snd ?r))"
    by (simp add: control_inv_def store_wf_def demo_accounts_ok(2) demo_accounts_shape del: split_paired_Ex)
  moreover have "length (t_users (store (snd ?r))) = 2" by code_simp
  ultimately show ?thesis by simp
qed

text \<open>User 2 asks for the removal of an environment of user 1.\<close>

definition demo_cookie :: gostring where
  "demo_cookie = projr (session_Encode demo_signer \<lparr>sess_UserID = 2, sess_ExpiresAt = 10\<rparr>)"

lemma sessions_kept_apart_witness:
  "status (fst (control_plane (demo_control demo_client) (demo_call (Some demo_cookie)) (Env_route (EnvDelete ''7'')) demo_cp)) = 404 \<and>
   foreign_rows 2 (store (snd (control_plane (demo_control demo_client) (demo_call (Some demo_cookie)) (Env_route (EnvDelete ''7'')) demo_cp))) =
   foreign_rows 2 (store demo_cp)"
proof -
  let ?r = "control_plane (demo_control demo_client) (demo_call (Some demo_cookie)) (Env_route (EnvDelete ''7'')) demo_cp"
  have st: "status (fst ?r) = 404" by code_simp
  have dec: "session_Decode (he_session (co_http (demo_control demo_client))) (rq_now (re_http (demo_call (Some demo_cookie))))
      demo_cookie = Inr \<lparr>sess_UserID = 2, sess_ExpiresAt = 10\<rparr>" by code_simp
  have "fst ?r \<noteq> httperr_Write 401 ''unauthenticated''" using st by auto
  with sessions_kept_apart[OF demo_cp_wf, of "Env_route (EnvDelete ''7'')" "demo_control demo_client"
      "demo_call (Some demo_cookie)" "fst ?r" "snd ?r"] dec
  have "foreign_rows 2 (store (snd ?r)) = foreign_rows 2 (store demo_cp)"
    by (auto simp: demo_call_def)
  with st show ?thesis by simp
qed

end
