(* ===== verification/NodesProperties.thy ===== *)
theory NodesProperties
  imports Nodes
begin

text \<open>
  What pairing promises: a pair token buys at most one node, a failed pairing changes no table,
  and the node token handed out authenticates as the new node and as no other.
\<close>

subsection \<open>The pairing transaction, read once\<close>

definition same_tables :: "db \<Rightarrow> db \<Rightarrow> bool" where
  "same_tables d d' \<longleftrightarrow> t_users d' = t_users d \<and> t_ssh_keys d' = t_ssh_keys d \<and> t_audit_log d' = t_audit_log d \<and>
     t_pair_tokens d' = t_pair_tokens d \<and> t_nodes d' = t_nodes d \<and>
     t_image_templates d' = t_image_templates d \<and> t_envs d' = t_envs d \<and> t_devices d' = t_devices d"

lemma same_tables_refl [simp]: "same_tables d d"
  by (simp add: same_tables_def)

lemma same_tables_drop [simp]: "same_tables d (drop_fault d)"
  by (simp add: same_tables_def)

lemma same_tables_rollback: "same_tables d d1 \<Longrightarrow> same_tables d (rollback d1 d2)"
  by (simp add: same_tables_def rollback_def)

lemma stmt_give: "stmt (give a) d = (r, d') \<Longrightarrow> d' = drop_fault d \<and> (\<forall>x. r = Inr x \<longrightarrow> x = a)"
  by (cases rule: stmt_cases[of "give a" d]) (auto simp: give_def)

lemma in_tx_error:
  assumes "in_tx m d = (Inl e, d')"
  shows "same_tables d d'"
proof -
  obtain r1 d1 where b: "stmt (give ()) d = (r1, d1)" by force
  obtain r2 d2 where m: "m d1 = (r2, d2)" by force
  obtain r3 d3 where c: "stmt (give ()) d2 = (r3, d3)" by force
  have "d1 = drop_fault d" using stmt_give[OF b] by simp
  then have begun: "same_tables d d1" by simp
  show ?thesis using assms begun same_tables_rollback[OF begun, of d2] same_tables_rollback[OF begun, of d3]
    by (cases r1; cases r2; cases r3) (simp_all add: in_tx_def b m c)
qed

lemma in_tx_ok:
  assumes "in_tx m d = (Inr a, d')"
  obtains d2 where "m (drop_fault d) = (Inr a, d2)" and "d' = drop_fault d2"
  using assms by (auto simp: in_tx_def split: prod.splits sum.splits dest!: stmt_give)

text \<open>A pairing that succeeds: which token row it used, and what the tables are afterwards.\<close>

lemma PairNode_ok:
  assumes "PairNode h rnd now req d = (Inr (n, tok), d')"
  obtains t raw u where "t \<in> set (t_pair_tokens d)" "pt_TokenHash t = h (pr_Token req)" "pt_UsedAt t = None"
    "now \<le> pt_ExpiresAt t" "rnd = Inr raw" "tok = b64_encode URLAlphabet raw"
    "t_pair_tokens d' = update_rows (\<lambda>t. pt_TokenHash t = h (pr_Token req)) (pt_UsedAt_update (\<lambda>_. Some u))
       (t_pair_tokens d)"
    "\<exists>r. t_nodes d' = t_nodes d @ [r] \<and> node_TokenHash r = h tok \<and> node_ID r = node_ID n \<and>
       node_OwnerUserID r = pt_UserID t \<and> node_Name r = pr_Name req \<and> node_Status r = ''offline''"
    "node_OwnerUserID n = pt_UserID t" "node_Name n = pr_Name req" "node_Status n = ''offline''"
    "t_users d' = t_users d" "t_envs d' = t_envs d"
proof -
  from in_tx_ok[OF assms[unfolded PairNode_def]] obtain d2 where
    m: "and_then
       (on_error (\<lambda>err. if errors_Is err NoRows then nodes_ErrTokenInvalid else Wrap ''select pair token: '' err)
         (stmt (query_row t_pair_tokens (\<lambda>t. pt_TokenHash t = h (pr_Token req)))))
       (\<lambda>t. if pt_UsedAt t \<noteq> None \<or> pt_ExpiresAt t < now then give_error nodes_ErrTokenInvalid
            else and_then
              (on_error (Wrap ''mark token used: '')
                (stmt (with_state (\<lambda>d. update_pair_tokens (\<lambda>t. pt_TokenHash t = h (pr_Token req))
                  (pt_UsedAt_update (\<lambda>_. Some (db_now d)))))))
              (\<lambda>_. case rnd of
                 Inl e \<Rightarrow> give_error (Wrap ''read random: '' e)
               | Inr raw \<Rightarrow>
                   let nodeToken = b64_encode URLAlphabet raw
                   in and_then (pair_insert_node h (pt_UserID t) req nodeToken)
                        (\<lambda>(i, gpuInfo). give
                          (\<lparr>node_ID = i, node_OwnerUserID = pt_UserID t, node_Name = pr_Name req,
                            node_AgentVersion = '''', node_GPUInfo = gpuInfo, node_Status = ''offline'',
                            node_LastSeenAt = None\<rparr>, nodeToken)))) (drop_fault d) = (Inr (n, tok), d2)"
    and d': "d' = drop_fault d2" by blast
  from m obtain t d3 k d4 raw i g d5 where
    q: "stmt (query_row t_pair_tokens (\<lambda>t. pt_TokenHash t = h (pr_Token req))) (drop_fault d) = (Inr t, d3)"
    and t: "pt_UsedAt t = None" "now \<le> pt_ExpiresAt t"
    and up: "stmt (with_state (\<lambda>d. update_pair_tokens (\<lambda>t. pt_TokenHash t = h (pr_Token req))
        (pt_UsedAt_update (\<lambda>_. Some (db_now d))))) d3 = (Inr k, d4)"
    and raw: "rnd = Inr raw"
    and ins: "pair_insert_node h (pt_UserID t) req (b64_encode URLAlphabet raw) d4 = (Inr (i, g), d5)"
    and res: "n = \<lparr>node_ID = i, node_OwnerUserID = pt_UserID t, node_Name = pr_Name req,
        node_AgentVersion = '''', node_GPUInfo = g, node_Status = ''offline'', node_LastSeenAt = None\<rparr>"
      "tok = b64_encode URLAlphabet raw" "d2 = d5"
    by (auto simp: call_iffs Let_def split: if_splits sum.splits)
  from q have q': "select_one (\<lambda>t. pt_TokenHash t = h (pr_Token req)) (t_pair_tokens d) = Some t"
    and d3: "d3 = drop_fault (drop_fault d)"
    by (auto elim!: stmt_okE simp: query_row_def split: option.splits)
  from up have d4: "d4 = (drop_fault d3)\<lparr>t_pair_tokens := update_rows (\<lambda>t. pt_TokenHash t = h (pr_Token req))
      (pt_UsedAt_update (\<lambda>_. Some (db_now d))) (t_pair_tokens d)\<rparr>"
    by (auto elim!: stmt_okE simp: with_state_def update_pair_tokens_def d3)
  from ins obtain r where r: "t_nodes d5 = t_nodes d @ [r]" "node_TokenHash r = h tok" "node_ID r = i"
      "node_OwnerUserID r = pt_UserID t" "node_Name r = pr_Name req" "node_Status r = ''offline''"
    and keep: "t_pair_tokens d5 = t_pair_tokens d4" "t_users d5 = t_users d4" "t_envs d5 = t_envs d4"
    by (auto simp: pair_insert_node_def Let_def call_iffs jsonb_input_def gen_random_uuid_def insert_node_def
        d4 d3 res split: option.splits elim!: stmt_okE)
  show ?thesis
    by (rule that[of t raw "db_now d"])
      (use select_one_Some[OF q'] t raw res r keep in \<open>auto simp: d' d4 d3\<close>)
qed

lemma failed_PairNode: "PairNode h rnd now req d = (Inl e, d') \<Longrightarrow> same_tables d d'"
  unfolding PairNode_def by (rule in_tx_error)


definition demo_db :: "db \<Rightarrow> db" where
  "demo_db d = d\<lparr>t_users := [\<lparr>user_ID = 1, user_Email = ''a@x'', user_Slug = ''alice'', user_PasswordHash = '''',
     user_CreatedAt = 0\<rparr>]\<rparr>"

definition demo_paired :: db where
  "demo_paired = snd (CreatePairToken id (Inr ''entropy'') 0 1 (demo_db (empty_db (\<lambda>n. n + 7) 0)))"

definition demo_token :: gostring where
  "demo_token = projr (fst (CreatePairToken id (Inr ''entropy'') 0 1 (demo_db (empty_db (\<lambda>n. n + 7) 0))))"

definition demo_req :: PairRequest where
  "demo_req = \<lparr>pr_Token = demo_token, pr_Name = ''box'', pr_GPUInfo = ''''\<rparr>"


subsection \<open>A pair token is good for one node\<close>

definition used_up :: "gostring \<Rightarrow> db \<Rightarrow> bool" where
  "used_up x d \<longleftrightarrow> (\<forall>t \<in> set (t_pair_tokens d). pt_TokenHash t = x \<longrightarrow> pt_UsedAt t \<noteq> None)"

lemma used_up_refused: "used_up (h (pr_Token req)) d \<Longrightarrow> PairNode h rnd now req d \<noteq> (Inr r, d')"
  by (cases r) (auto simp: used_up_def elim!: PairNode_ok)

lemma used_up_step: "PairNode h rnd now req d = (r, d') \<Longrightarrow> used_up x d \<Longrightarrow> used_up x d'"
proof (cases r)
  case (Inl e)
  moreover assume "PairNode h rnd now req d = (r, d')" and "used_up x d"
  ultimately show ?thesis using failed_PairNode[of h rnd now req d e d']
    by (simp add: used_up_def same_tables_def)
next
  case (Inr a)
  moreover assume "PairNode h rnd now req d = (r, d')" and "used_up x d"
  ultimately show ?thesis
    by (cases a) (auto simp: used_up_def set_update_rows elim!: PairNode_ok)
qed

lemma used_up_after: "PairNode h rnd now req d = (Inr a, d') \<Longrightarrow> used_up (h (pr_Token req)) d'"
  by (cases a) (auto simp: used_up_def set_update_rows elim!: PairNode_ok)

type_synonym pair_call = "(go_error + gostring) \<times> int \<times> PairRequest"

fun pair_all :: "(gostring \<Rightarrow> gostring) \<Rightarrow> pair_call list \<Rightarrow> db \<Rightarrow> (pair_call \<times> (go_error + Node \<times> gostring)) list" where
  "pair_all h [] d = []"
| "pair_all h ((rnd, now, req) # cs) d =
     (case PairNode h rnd now req d of (r, d') \<Rightarrow> ((rnd, now, req), r) # pair_all h cs d')"

definition nodes_bought :: "gostring \<Rightarrow> (pair_call \<times> (go_error + Node \<times> gostring)) list \<Rightarrow> nat" where
  "nodes_bought tok log = length (filter (\<lambda>((_, _, req), r). pr_Token req = tok \<and> \<not> isl r) log)"

lemma nodes_bought_used: "used_up (h tok) d \<Longrightarrow> nodes_bought tok (pair_all h cs d) = 0"
proof (induction cs arbitrary: d)
  case (Cons c cs)
  obtain rnd now req where c: "c = (rnd, now, req)" by (cases c)
  obtain r d' where p: "PairNode h rnd now req d = (r, d')" by force
  have "nodes_bought tok (pair_all h cs d') = 0"
    using Cons used_up_step[OF p] by simp
  moreover have "pr_Token req = tok \<Longrightarrow> isl r"
    using Cons.prems p used_up_refused[of h req d rnd now] by (cases r) auto
  ultimately show ?case by (auto simp: c p nodes_bought_def)
qed (simp add: nodes_bought_def)

text \<open>However many pairing requests arrive, with whatever names, times and failures of the database
  in between, a pair token buys at most one node.\<close>

theorem pair_token_buys_one_node:
  "nodes_bought tok (pair_all h cs d) \<le> 1"
proof (induction cs arbitrary: d)
  case (Cons c cs)
  obtain rnd now req where c: "c = (rnd, now, req)" by (cases c)
  obtain r d' where p: "PairNode h rnd now req d = (r, d')" by force
  show ?case
  proof (cases "pr_Token req = tok \<and> \<not> isl r")
    case True
    then have "used_up (h tok) d'" using p used_up_after[of h rnd now req d] by (cases r) auto
    then have "nodes_bought tok (pair_all h cs d') = 0" by (rule nodes_bought_used)
    then show ?thesis by (simp add: c p nodes_bought_def)
  next
    case False
    then show ?thesis using Cons[of d'] by (auto simp: c p nodes_bought_def)
  qed
qed (simp add: nodes_bought_def)

text \<open>A fresh pair token works until its ten minutes are over and not after: the request right after
  it makes a node of the token's user when it comes in time and is refused as invalid when it is late.\<close>

theorem pair_token_lifetime:
  assumes "CreatePairToken h (Inr raw) t u d = (Inr tok, d1)" and "fault_free d1"
    and "\<forall>x. db_jsonb d1 x = Inr x" and "\<forall>n \<in> set (t_nodes d). node_ID n \<noteq> db_uuid d1 (db_uuid_next d1)"
    and "\<forall>n \<in> set (t_nodes d). node_TokenHash n \<noteq> h (b64_encode URLAlphabet raw')"
    and "\<forall>n \<in> set (t_nodes d). node_OwnerUserID n = u \<longrightarrow> node_Name n \<noteq> name"
  shows "case fst (PairNode h (Inr raw') now \<lparr>pr_Token = tok, pr_Name = name, pr_GPUInfo = g\<rparr> d1) of
      Inr (n, _) \<Rightarrow> now \<le> t + pairTokenTTL \<and> node_OwnerUserID n = u \<and> node_Name n = name
    | Inl e \<Rightarrow> t + pairTokenTTL < now \<and> e = nodes_ErrTokenInvalid"
proof -
  let ?row = "\<lparr>pt_TokenHash = h tok, pt_UserID = u, pt_ExpiresAt = t + pairTokenTTL, pt_UsedAt = None\<rparr>"
  have ins: "t_pair_tokens d1 = t_pair_tokens d @ [?row]" "t_nodes d1 = t_nodes d" "t_users d1 = t_users d"
    and new: "\<not> exists_row (\<lambda>x. pt_TokenHash x = h tok) (t_pair_tokens d)"
    and usr: "exists_row (\<lambda>x. user_ID x = u) (t_users d)"
    using assms(1)
    by (auto simp: CreatePairToken_def Let_def call_iffs insert_pair_token_def violated_None
        elim!: stmt_okE split: option.splits if_splits)
  have sel: "select_one (\<lambda>x. pt_TokenHash x = h tok) (t_pair_tokens d1) = Some ?row"
    unfolding ins by (rule select_one_append_new[OF new]) simp
  show ?thesis
  proof (cases "now \<le> t + pairTokenTTL")
    case True
    then show ?thesis
      using assms(2-6) sel ins usr
      by (auto simp: PairNode_def in_tx_def stmt_fault_free query_row_def on_error_def and_then_def give_def
          with_state_def update_pair_tokens_def pair_insert_node_def Let_def jsonb_input_def gen_random_uuid_def
          insert_node_def exists_row_iff)
  next
    case False
    then show ?thesis
      using assms(2) sel
      by (auto simp: PairNode_def in_tx_def stmt_fault_free query_row_def on_error_def and_then_def give_def
          give_error_def)
  qed
qed

lemma demo_token_call: "CreatePairToken id (Inr ''entropy'') 0 1 (demo_db (empty_db (\<lambda>n. n + 7) 0)) = (Inr demo_token, demo_paired)"
proof -
  have "\<not> isl (fst (CreatePairToken id (Inr ''entropy'') 0 1 (demo_db (empty_db (\<lambda>n. n + 7) 0))))" by code_simp
  then show ?thesis by (simp add: demo_token_def demo_paired_def prod_eq_iff)
qed

lemma demo_paired_simps:
  "fault_free demo_paired" "db_jsonb demo_paired x = Inr x" "t_nodes (demo_db (empty_db (\<lambda>n. n + 7) 0)) = []"
  "t_nodes demo_paired = []"
proof -
  show "fault_free demo_paired" by code_simp
  show "t_nodes demo_paired = []" by code_simp
  show "t_nodes (demo_db (empty_db (\<lambda>n. n + 7) 0)) = []" by (simp add: demo_db_def)
  have "db_jsonb (snd (CreatePairToken id r t u d)) = db_jsonb d" for r t u d
    by (auto simp: CreatePairToken_def give_error_def give_def Let_def and_then_def on_error_def stmt_def
        insert_pair_token_def split: sum.split prod.split list.split option.split)
  then show "db_jsonb demo_paired x = Inr x" by (simp add: demo_paired_def demo_db_def empty_db_def)
qed

lemma pair_token_lifetime_witness:
  "isl (fst (PairNode id (Inr ''node'') (pairTokenTTL + 1) demo_req demo_paired)) \<and>
   \<not> isl (fst (PairNode id (Inr ''node'') pairTokenTTL demo_req demo_paired))"
proof -
  note life = pair_token_lifetime[OF demo_token_call demo_paired_simps(1), of "''node''" "''box''" _ "''''"]
  have "case fst (PairNode id (Inr ''node'') now \<lparr>pr_Token = demo_token, pr_Name = ''box'', pr_GPUInfo = ''''\<rparr> demo_paired) of
      Inr (n, _) \<Rightarrow> now \<le> 0 + pairTokenTTL \<and> node_OwnerUserID n = 1 \<and> node_Name n = ''box''
    | Inl e \<Rightarrow> 0 + pairTokenTTL < now \<and> e = nodes_ErrTokenInvalid" for now
    by (rule life) (simp_all add: demo_paired_simps)
  from this[of "pairTokenTTL + 1"] this[of pairTokenTTL] show ?thesis
    by (auto simp: demo_req_def isl_def split: sum.splits)
qed

subsection \<open>The node token\<close>

text \<open>C31: the node token that pairing hands out authenticates as the node just made: a stream that opens
  with it is the stream of that node of the token's user, offline until it registers.\<close>

theorem node_token_authenticates:
  assumes "PairNode h rnd now req d = (Inr (n, tok), d')" and "db_wf d" and "fault_free d'" and "tok \<noteq> ''''"
  shows "\<exists>m d''. AuthenticateNodeToken h tok d' = (Inr m, d'') \<and> node_ID m = node_ID n \<and>
    node_OwnerUserID m = node_OwnerUserID n \<and> node_Name m = pr_Name req \<and> node_Status m = ''offline''"
proof -
  have wf: "db_wf d'" using keepsD_eq[OF keeps_PairNode assms(1,2)] .
  from assms(1) obtain r where r: "t_nodes d' = t_nodes d @ [r]" "node_TokenHash r = h tok" "node_ID r = node_ID n"
      "node_OwnerUserID r = node_OwnerUserID n" "node_Name r = pr_Name req" "node_Status r = ''offline''"
    by (elim PairNode_ok) auto
  have "distinct (map node_TokenHash (t_nodes d'))" using wf by (simp add: db_wf_def nodes_ok_def uniq_def)
  then have "select_one (\<lambda>x. node_TokenHash x = node_TokenHash r) (t_nodes d') = Some r"
    by (rule select_one_key) (simp add: r(1))
  then show ?thesis using assms(3,4) r
    by (simp add: AuthenticateNodeToken_def stmt_fault_free query_row_def on_error_def and_then_def give_def Node.defs)
qed

lemma node_token_authenticates_witness:
  "\<exists>n tok d' m d''. PairNode id (Inr ''node'') 5 demo_req demo_paired = (Inr (n, tok), d') \<and>
     AuthenticateNodeToken id tok d' = (Inr m, d'') \<and> node_ID m = node_ID n"
proof -
  let ?r = "PairNode id (Inr ''node'') 5 demo_req demo_paired"
  have "fst ?r = Inr (\<lparr>node_ID = 7, node_OwnerUserID = 1, node_Name = ''box'', node_AgentVersion = '''',
      node_GPUInfo = ''[]'', node_Status = ''offline'', node_LastSeenAt = None\<rparr>, ''bm9kZQ'')"
    and ff: "fault_free (snd ?r)" by code_simp+
  then obtain n d' where r: "?r = (Inr (n, ''bm9kZQ''), d')" by (metis prod.collapse)
  have "db_wf (demo_db (empty_db (\<lambda>n. n + 7) 0))"
    by (simp add: demo_db_def db_wf_def ok_defs uniq_def refers_def)
  then have wf: "db_wf demo_paired"
    using keepsD[OF keeps_nodes(1), of _ id "Inr ''entropy''" 0 1] by (simp add: demo_paired_def)
  have "fault_free d'" using ff r by simp
  from node_token_authenticates[OF r wf this] r show ?thesis by auto
qed

end
