(* ===== verification/AgentRuntime.thy ===== *)
theory AgentRuntime
  imports AgentProperties
begin

text \<open>
  \<open>flexctlagent/agent.go\<close>: the configuration with its defaults, one connection of the agent to the
  control plane (registration, snapshot, heartbeats, commands), and the loop that reconnects with
  a doubling, jittered delay. What the transport does in a connection is a record of its outcomes
  and a list of the events of its main loop; the handlers of commands, goroutines in the source,
  run to their end in the order in which the commands arrive.
\<close>

subsection \<open>Configuration\<close>

record GPU =
  g_Index :: int
  g_Model :: gostring
  g_VRAMMB :: int

record Config =
  cfg_GRPCAddress :: gostring
  cfg_NodeToken :: gostring
  AgentVersion :: gostring
  HeartbeatInterval :: int
  BackoffInitial :: int
  BackoffMax :: int
  GPUDetector :: "GPU list option"
  cfg_Configured :: bool

text \<open>\<open>cfg_Configured\<close> tells that both a Docker client and an allocator are given.\<close>

definition New :: "Config \<Rightarrow> Config" where
  "New cfg =
     (let cfg = (if HeartbeatInterval cfg = 0 then cfg\<lparr>HeartbeatInterval := seconds 30\<rparr> else cfg);
          cfg = (if BackoffInitial cfg = 0 then cfg\<lparr>BackoffInitial := seconds 1\<rparr> else cfg)
      in (if BackoffMax cfg = 0 then cfg\<lparr>BackoffMax := seconds 60\<rparr> else cfg))"

definition detectGPUs :: "Config \<Rightarrow> pb_GPU list" where
  "detectGPUs cfg =
     (case GPUDetector cfg of
        None \<Rightarrow> []
      | Some gpus \<Rightarrow> map (\<lambda>g. \<lparr>gpu_index = g_Index g, gpu_model = g_Model g, gpu_vram_mb = g_VRAMMB g\<rparr>) gpus)"

subsection \<open>Delays\<close>

text \<open>Durations are of 64 bits; \<open>jitter\<close> is what \<open>rand.Int64N(quarter * 2)\<close> returns.\<close>

definition nextBackoff :: "int \<Rightarrow> int \<Rightarrow> int" where
  "nextBackoff cur mx = (let nxt = to_int64 (cur * 2) in if nxt > mx then mx else nxt)"

definition withJitter :: "(int \<Rightarrow> int) \<Rightarrow> int \<Rightarrow> int" where
  "withJitter rand d =
     (let quarter = d div 4
      in if quarter \<le> 0 then d else to_int64 (d + (rand (quarter * 2) - quarter)))"

text \<open>What the source relies on: a random number below the positive bound it asks for.\<close>

definition fair :: "(int \<Rightarrow> int) \<Rightarrow> bool" where
  "fair rand \<longleftrightarrow> (\<forall>n > 0. 0 \<le> rand n \<and> rand n < n)"

subsection \<open>One connection\<close>

datatype stream_event =
    Tick int "errtext option"
  | Received ControlMessage
  | StreamEnd "errtext option"
  | Cancelled errtext

text \<open>The client is made for an address, the stream opened with the node's token.\<close>

record connection =
  cn_NewClient :: "gostring \<Rightarrow> errtext option"
  cn_Stream :: "gostring \<Rightarrow> errtext option"
  cn_Register :: "errtext option"
  cn_Ack :: "errtext option"
  cn_Snapshot :: "errtext option"
  cn_events :: "stream_event list"

text \<open>A connection ends with an error or nil, is still open, or a handler has panicked.\<close>

datatype ending = Ended "errtext option" | StillOpen | Crashed

definition transmit :: "errtext option \<Rightarrow> AgentMessage \<Rightarrow> 'd agent_world \<Rightarrow> 'd agent_world" where
  "transmit err m w = (case err of None \<Rightarrow> w\<lparr>sent := sent w @ [m]\<rparr> | Some _ \<Rightarrow> w)"

fun stream_loop ::
  "'d docker_client \<Rightarrow> dispatch_env \<Rightarrow> bool \<Rightarrow> stream_event list \<Rightarrow> 'd agent_world \<Rightarrow> ending \<times> 'd agent_world" where
  "stream_loop dc E configured [] w = (StillOpen, w)"
| "stream_loop dc E configured (Tick at err # evs) w =
     (case err of
        Some e \<Rightarrow> (Ended (Some e), w)
      | None \<Rightarrow> stream_loop dc E configured evs (transmit None (Heartbeat at) w))"
| "stream_loop dc E configured (Received msg # evs) w =
     (if configured then
        (case handle_command dc E msg w of
           (Returned, w) \<Rightarrow> stream_loop dc E configured evs w
         | (Panicked, w) \<Rightarrow> (Crashed, w))
      else stream_loop dc E configured evs w)"
| "stream_loop dc E configured (StreamEnd err # evs) w = (Ended err, w)"
| "stream_loop dc E configured (Cancelled e # evs) w = (Ended (Some e), w)"

definition send_snapshot :: "'d docker_client \<Rightarrow> Config \<Rightarrow> errtext option \<Rightarrow> 'd agent_world \<Rightarrow> 'd agent_world" where
  "send_snapshot dc cfg err w =
     (if cfg_Configured cfg then
        (case BuildEnvStateSnapshot dc w of
           (Inl _, w) \<Rightarrow> w
         | (Inr envIDs, w) \<Rightarrow> transmit err (EnvSnapshot envIDs) w)
      else w)"

definition runOnce ::
  "'d docker_client \<Rightarrow> dispatch_env \<Rightarrow> Config \<Rightarrow> connection \<Rightarrow> 'd agent_world \<Rightarrow> ending \<times> 'd agent_world" where
  "runOnce dc E cfg c w =
     (case cn_NewClient c (cfg_GRPCAddress cfg) of
        Some e \<Rightarrow> (Ended (Some e), w)
      | None \<Rightarrow>
     (case cn_Stream c (cfg_NodeToken cfg) of
        Some e \<Rightarrow> (Ended (Some e), w)
      | None \<Rightarrow>
     (case cn_Register c of
        Some e \<Rightarrow> (Ended (Some e), w)
      | None \<Rightarrow>
          let w = transmit None (Register (AgentVersion cfg) (detectGPUs cfg)) w
          in case cn_Ack c of
               Some e \<Rightarrow> (Ended (Some e), w)
             | None \<Rightarrow> stream_loop dc E (cfg_Configured cfg) (cn_events c) (send_snapshot dc cfg (cn_Snapshot c) w))))"

subsection \<open>The loop\<close>

text \<open>
  The attempts made until the context is cancelled, each with the random source of the delay after
  it; the result lists the delays.
\<close>

fun Run_from ::
  "'d docker_client \<Rightarrow> dispatch_env \<Rightarrow> Config \<Rightarrow> int \<Rightarrow> (connection \<times> (int \<Rightarrow> int)) list \<Rightarrow> 'd agent_world
     \<Rightarrow> int list \<times> 'd agent_world" where
  "Run_from dc E cfg backoff [] w = ([], w)"
| "Run_from dc E cfg backoff ((c, rand) # attempts) w =
     (case runOnce dc E cfg c w of
        (Ended err, w) \<Rightarrow>
          let backoff' = (if err = None then BackoffInitial cfg else nextBackoff backoff (BackoffMax cfg))
          in case Run_from dc E cfg backoff' attempts w of
               (delays, w) \<Rightarrow> (withJitter rand backoff # delays, w)
      | (_, w) \<Rightarrow> ([], w))"

definition Run ::
  "'d docker_client \<Rightarrow> dispatch_env \<Rightarrow> Config \<Rightarrow> (connection \<times> (int \<Rightarrow> int)) list \<Rightarrow> 'd agent_world
     \<Rightarrow> int list \<times> 'd agent_world" where
  "Run dc E cfg attempts w = Run_from dc E cfg (BackoffInitial cfg) attempts w"

end
