(* ===== verification/AgentRuntimeProperties.thy ===== *)
theory AgentRuntimeProperties
  imports AgentRuntime
begin

text \<open>
  The agent's life over its connections: it is a run of agent steps, each connection registers
  first, and the delays between connections stay in their bounds.
\<close>

subsection \<open>The loop is a run of the agent\<close>

lemma transmit_step: "(\<And>u. \<not> about E u m) \<Longrightarrow> (agent_step dc E)\<^sup>*\<^sup>* w (transmit err m w)"
  by (cases err) (auto simp: transmit_def intro: agent_step.notice)

lemma BuildEnvStateSnapshot_step: "(agent_step dc E)\<^sup>*\<^sup>* w (snd (BuildEnvStateSnapshot dc w))"
proof -
  have "snd (BuildEnvStateSnapshot dc w) = snd (on_docker (ListContainers dc [(LabelRole, ''dev'')]) w)"
    by (auto simp: BuildEnvStateSnapshot_def split: prod.split sum.split)
  then show ?thesis using agent_step.engine[where w = w and t = "clock w" and dc = dc and E = E]
    by (simp add: on_docker_eq r_into_rtranclp)
qed

lemma send_snapshot_step: "(agent_step dc E)\<^sup>*\<^sup>* w (send_snapshot dc cfg err w)"
proof -
  obtain r v where b: "BuildEnvStateSnapshot dc w = (r, v)" by force
  then have v: "(agent_step dc E)\<^sup>*\<^sup>* w v" using BuildEnvStateSnapshot_step[of dc E w] by simp
  have "(agent_step dc E)\<^sup>*\<^sup>* v (transmit err (EnvSnapshot ids) v)" for ids
    by (rule transmit_step) (simp add: about_def)
  with v b show ?thesis by (auto simp: send_snapshot_def split: sum.split intro: rtranclp_trans)
qed

lemma stream_loop_steps: "(agent_step dc E)\<^sup>*\<^sup>* w (snd (stream_loop dc E configured evs w))"
proof (induction dc E configured evs w rule: stream_loop.induct)
  case (2 dc E configured at err evs w)
  have "(agent_step dc E)\<^sup>*\<^sup>* w (transmit None (Heartbeat at) w)"
    by (rule transmit_step) (simp add: about_def)
  with 2 show ?case by (auto split: option.split intro: rtranclp_trans)
next
  case (3 dc E configured msg evs w)
  show ?case
  proof (cases "handle_command dc E msg w")
    case (Pair r v)
    have p: "v = w" if "r = Panicked" using handler_outcome[where dc = dc and E = E and msg = msg and w = w] Pair that by simp
    have s: "agent_step dc E w v" if "r = Returned" using agent_step.command Pair that by blast
    show ?thesis
    proof (cases configured)
      case True
      then show ?thesis using 3(1)[OF True Pair[symmetric]] Pair p s
        by (cases r) (auto intro: converse_rtranclp_into_rtranclp)
    qed (use 3(2) in simp)
  qed
qed simp_all

lemma runOnce_steps: "(agent_step dc E)\<^sup>*\<^sup>* w (snd (runOnce dc E cfg c w))"
proof -
  let ?reg = "transmit None (Register (AgentVersion cfg) (detectGPUs cfg)) w"
  have r: "(agent_step dc E)\<^sup>*\<^sup>* w ?reg" by (rule transmit_step) (simp add: about_def)
  have s: "(agent_step dc E)\<^sup>*\<^sup>* ?reg (send_snapshot dc cfg (cn_Snapshot c) ?reg)" by (rule send_snapshot_step)
  show ?thesis
    using r rtranclp_trans[OF rtranclp_trans[OF r s] stream_loop_steps[of dc E _ "cfg_Configured cfg" "cn_events c"]]
    by (auto simp: runOnce_def Let_def split: option.split)
qed

lemma Run_from_steps: "(agent_step dc E)\<^sup>*\<^sup>* w (snd (Run_from dc E cfg backoff attempts w))"
proof (induction dc E cfg backoff attempts w rule: Run_from.induct)
  case (2 dc E cfg backoff c rand attempts w)
  obtain r v where o: "runOnce dc E cfg c w = (r, v)" by force
  then have "(agent_step dc E)\<^sup>*\<^sup>* w v" using runOnce_steps[of dc E w cfg c] by simp
  moreover have "(agent_step dc E)\<^sup>*\<^sup>* v (snd (Run_from dc E cfg b attempts v))"
    if "r = Ended err" "b = (if err = None then BackoffInitial cfg else nextBackoff backoff (BackoffMax cfg))" for err b
    using 2[OF o[symmetric] that] by simp
  ultimately show ?case
    by (cases r) (simp_all add: o Let_def case_prod_beta rtranclp_trans)
qed simp


subsection \<open>Registration\<close>

definition registration :: "Config \<Rightarrow> AgentMessage" where
  "registration cfg = Register (AgentVersion cfg) (detectGPUs cfg)"

lemma accounts_prefix: "handle_command dc E msg w = (r, w') \<Longrightarrow> \<exists>ms. sent w' = sent w @ ms \<and> (\<forall>m \<in> set ms. \<exists>env. is_reply_for env m)"
  using handler_outcome[where dc = dc and E = E and msg = msg and w = w] by (cases r) (auto split: option.splits)

text \<open>What a connection's main loop sends: heartbeats and answers, nothing else.\<close>

definition main_message :: "AgentMessage \<Rightarrow> bool" where
  "main_message m \<longleftrightarrow> (\<exists>at. m = Heartbeat at) \<or> (\<exists>env. is_reply_for env m)"

lemma stream_loop_sends: "\<exists>ms. sent (snd (stream_loop dc E configured evs w)) = sent w @ ms \<and> list_all main_message ms"
proof (induction dc E configured evs w rule: stream_loop.induct)
  case (2 dc E configured at err evs w)
  show ?case
  proof (cases err)
    case None
    then obtain ms where "sent (snd (stream_loop dc E configured evs (transmit None (Heartbeat at) w))) =
        sent (transmit None (Heartbeat at) w) @ ms" "list_all main_message ms" using 2 by blast
    then show ?thesis
      by (intro exI[of _ "Heartbeat at # ms"]) (auto simp: None transmit_def main_message_def list_all_iff)
  qed simp
next
  case (3 dc E configured msg evs w)
  show ?case
  proof (cases "handle_command dc E msg w")
    case (Pair r v)
    then obtain ns where ns: "sent v = sent w @ ns" "list_all main_message ns"
      using accounts_prefix unfolding main_message_def list_all_iff by metis
    show ?thesis
    proof (cases "configured \<and> r = Returned")
      case True
      then obtain ms where "sent (snd (stream_loop dc E configured evs v)) = sent v @ ms" "list_all main_message ms"
        using 3(1)[OF _ Pair[symmetric]] by blast
      then show ?thesis using ns True Pair by (intro exI[of _ "ns @ ms"]) simp
    next
      case False
      then show ?thesis using 3(2) Pair ns by (cases r) auto
    qed
  qed
qed simp_all

text \<open>C28: every connection speaks the protocol the server expects: the agent sends nothing unless its
  registration goes through; its first message is the registration, at most one snapshot of
  running environments follows once the server has acknowledged, and only heartbeats and answers
  to commands come after it.\<close>

theorem connection_registers_first:
  assumes "runOnce dc E cfg c w = (r, w')"
  shows "sent w' = sent w \<or>
    (\<exists>ms. sent w' = sent w @ registration cfg # ms \<and>
      (ms \<noteq> [] \<longrightarrow> cn_Ack c = None) \<and>
      (list_all main_message ms \<or> (\<exists>ids ms'. ms = EnvSnapshot ids # ms' \<and> list_all main_message ms')))"
proof -
  let ?reg = "transmit None (registration cfg) w"
  have build: "sent (snd (BuildEnvStateSnapshot dc v)) = sent v" for v
    by (auto simp: BuildEnvStateSnapshot_def on_docker_eq split: prod.split sum.split)
  have snap: "sent (send_snapshot dc cfg (cn_Snapshot c) ?reg) = sent ?reg \<or>
      (\<exists>ids. sent (send_snapshot dc cfg (cn_Snapshot c) ?reg) = sent ?reg @ [EnvSnapshot ids])"
    using build[of ?reg]
    by (cases "BuildEnvStateSnapshot dc ?reg")
      (auto simp: send_snapshot_def transmit_def split: sum.split option.split)
  obtain ms where "sent (snd (stream_loop dc E (cfg_Configured cfg) (cn_events c) (send_snapshot dc cfg (cn_Snapshot c) ?reg))) =
      sent (send_snapshot dc cfg (cn_Snapshot c) ?reg) @ ms" "list_all main_message ms"
    using stream_loop_sends by blast
  with snap assms show ?thesis
    by (auto simp: runOnce_def Let_def registration_def transmit_def split: option.splits)
qed

subsection \<open>Delays\<close>

lemma withJitter_bounds:
  assumes "fair rand" "0 < d" "d < 2 ^ 62"
  shows "d - d div 4 \<le> withJitter rand d \<and> withJitter rand d \<le> d + d div 4"
proof (cases "d div 4 \<le> 0")
  case True
  then have "d div 4 = 0" using assms(2) by auto
  with True show ?thesis by (simp add: withJitter_def)
next
  case False
  let ?q = "d div 4"
  have r: "0 \<le> rand (?q * 2)" "rand (?q * 2) < ?q * 2" using assms(1) False by (simp_all add: fair_def)
  have q: "?q \<le> d" using assms(2) by auto
  with r assms(3) False have "fits_int 64 (d + (rand (?q * 2) - ?q))" by (simp add: fits_int_def)
  with False r show ?thesis by (simp add: withJitter_def Let_def)
qed

lemma nextBackoff_eq: "0 < cur \<Longrightarrow> cur < 2 ^ 62 \<Longrightarrow> nextBackoff cur mx = min mx (cur * 2)"
  by (simp add: nextBackoff_def fits_int_def min_def Let_def)

text \<open>The delay before the jitter after a number of failures in a row.\<close>

definition base_delay :: "Config \<Rightarrow> nat \<Rightarrow> int" where
  "base_delay cfg n = min (BackoffMax cfg) (BackoffInitial cfg * 2 ^ n)"

lemma base_delay_0 [simp]: "BackoffInitial cfg \<le> BackoffMax cfg \<Longrightarrow> base_delay cfg 0 = BackoffInitial cfg"
  by (simp add: base_delay_def)

definition sound_delays :: "Config \<Rightarrow> bool" where
  "sound_delays cfg \<longleftrightarrow> 0 < BackoffInitial cfg \<and> BackoffInitial cfg \<le> BackoffMax cfg \<and> BackoffMax cfg < 2 ^ 62"

lemma base_delay_range:
  assumes "sound_delays cfg"
  shows "BackoffInitial cfg \<le> base_delay cfg n" "base_delay cfg n \<le> BackoffMax cfg"
  using assms mult_left_mono[of 1 "2 ^ n" "BackoffInitial cfg"] by (auto simp: base_delay_def sound_delays_def)

lemma base_delay_Suc:
  assumes "sound_delays cfg"
  shows "nextBackoff (base_delay cfg n) (BackoffMax cfg) = base_delay cfg (Suc n)"
proof -
  have "nextBackoff (base_delay cfg n) (BackoffMax cfg) = min (BackoffMax cfg) (base_delay cfg n * 2)"
    using base_delay_range[OF assms, of n] assms by (intro nextBackoff_eq) (auto simp: sound_delays_def)
  then show ?thesis using assms by (auto simp: base_delay_def sound_delays_def min_def)
qed

text \<open>A delay within a quarter of a base.\<close>

definition near :: "int \<Rightarrow> int \<Rightarrow> bool" where
  "near b d \<longleftrightarrow> b - b div 4 \<le> d \<and> d \<le> b + b div 4"

lemma near_base:
  assumes "sound_delays cfg" "near (base_delay cfg n) d"
  shows "BackoffInitial cfg - BackoffInitial cfg div 4 \<le> d" "d \<le> BackoffMax cfg + BackoffMax cfg div 4"
proof -
  have mono: "x - x div 4 \<le> y - y div 4" "x + x div 4 \<le> y + y div 4" if "x \<le> y" for x y :: int
    using that by presburger+
  show "BackoffInitial cfg - BackoffInitial cfg div 4 \<le> d" "d \<le> BackoffMax cfg + BackoffMax cfg div 4"
    using mono(1)[OF base_delay_range(1)[OF assms(1), of n]] mono(2)[OF base_delay_range(2)[OF assms(1), of n]] assms(2)
    by (simp_all add: near_def)
qed

lemma withJitter_near: "sound_delays cfg \<Longrightarrow> fair rand \<Longrightarrow> near (base_delay cfg n) (withJitter rand (base_delay cfg n))"
  using withJitter_bounds[of rand "base_delay cfg n"] base_delay_range[of cfg n]
  by (simp add: near_def sound_delays_def)

text \<open>The delays of a run that starts after \<open>n\<close> failures: each is near the base of a number of failures.\<close>

lemma Run_from_delays:
  assumes "sound_delays cfg" "list_all (\<lambda>(c, rand). fair rand) attempts"
    and "k < length (fst (Run_from dc E cfg (base_delay cfg n) attempts w))"
  shows "\<exists>m \<le> n + k. near (base_delay cfg m) (fst (Run_from dc E cfg (base_delay cfg n) attempts w) ! k)"
  using assms(2,3)
proof (induction attempts arbitrary: n k w)
  case (Cons a attempts)
  obtain c rand where a: "a = (c, rand)" by force
  obtain r v where o: "runOnce dc E cfg c w = (r, v)" by force
  obtain err where r: "r = Ended err" using Cons.prems(2) by (cases r) (auto simp: a o)
  define n' where "n' = (if err = None then 0 else Suc n)"
  have b: "(if err = None then BackoffInitial cfg else nextBackoff (base_delay cfg n) (BackoffMax cfg)) = base_delay cfg n'"
    using assms(1) by (simp add: n'_def base_delay_Suc) (simp add: sound_delays_def)
  have d: "fst (Run_from dc E cfg (base_delay cfg n) (a # attempts) w) =
      withJitter rand (base_delay cfg n) # fst (Run_from dc E cfg (base_delay cfg n') attempts v)"
    by (simp add: a o r Let_def b case_prod_beta del: if_cancel)
  show ?case
  proof (cases k)
    case 0
    then show ?thesis using withJitter_near[OF assms(1)] Cons.prems(1) unfolding d by (auto simp: a)
  next
    case (Suc j)
    then obtain m where "m \<le> n' + j" "near (base_delay cfg m) (fst (Run_from dc E cfg (base_delay cfg n') attempts v) ! j)"
      using Cons.IH[of j n' v] Cons.prems by (auto simp: d)
    then show ?thesis using Suc by (intro exI[of _ m]) (auto simp: d n'_def split: if_splits)
  qed
qed simp


subsection \<open>Examples\<close>

definition demo_agent_config :: Config where
  "demo_agent_config = New \<lparr>cfg_GRPCAddress = ''cp:9090'', cfg_NodeToken = ''nt'', AgentVersion = ''0.1.0'', HeartbeatInterval = 0, BackoffInitial = 0, BackoffMax = 0,
     GPUDetector = Some [\<lparr>g_Index = 0, g_Model = ''A100'', g_VRAMMB = 81920\<rparr>], cfg_Configured = True\<rparr>"

definition demo_connection :: "stream_event list \<Rightarrow> connection" where
  "demo_connection evs = \<lparr>cn_NewClient = (\<lambda>_. None), cn_Stream = (\<lambda>_. None), cn_Register = None, cn_Ack = None,
     cn_Snapshot = None, cn_events = evs\<rparr>"

text \<open>A create command, a heartbeat, a broken stream, an unreachable server, a second environment.\<close>

definition demo_attempts :: "(connection \<times> (int \<Rightarrow> int)) list" where
  "demo_attempts =
     [(demo_connection [Received (MsgCreateEnv (demo_create ''7'' 1)), Tick 5 None, StreamEnd (Some ''reset'')], \<lambda>n. 0),
      ((demo_connection [])\<lparr>cn_Stream := (\<lambda>_. Some ''unreachable'')\<rparr>, \<lambda>n. n - 1),
      (demo_connection [Received (MsgCreateEnv (demo_create ''8'' 1)), StreamEnd None], \<lambda>n. 0)]"

definition demo_life :: "int list \<times> MockDockerClient agent_world" where
  "demo_life = Run mock_client demo_env demo_agent_config demo_attempts demo_world"

lemma demo_life_run:
  "Run mock_client demo_env demo_agent_config demo_attempts demo_world = (fst demo_life, snd demo_life)"
  by (simp add: demo_life_def)


lemma connection_registers_first_witness:
  "\<exists>ms. sent (snd (runOnce mock_client demo_env demo_agent_config (demo_connection [Tick 5 None]) demo_world)) =
     registration demo_agent_config # ms \<and> ms = [EnvSnapshot [], Heartbeat 5]"
proof -
  let ?r = "runOnce mock_client demo_env demo_agent_config (demo_connection [Tick 5 None]) demo_world"
  have "sent (snd ?r) = [registration demo_agent_config, EnvSnapshot [], Heartbeat 5]" by code_simp
  moreover have "sent demo_world = []" by (simp add: demo_world_def)
  ultimately show ?thesis
    using connection_registers_first[of mock_client demo_env demo_agent_config "demo_connection [Tick 5 None]" demo_world
        "fst ?r" "snd ?r"] by simp
qed


end
