(* ===== verification/RealDocker.thy ===== *)
theory RealDocker
  imports AgentProperties
begin

text \<open>
  The Docker client of a real node (\<open>envdocker/client.go\<close>): every method of \<open>DockerClient\<close> as calls of
  the Docker SDK. The SDK is not part of the program: it is a record of its calls over an engine
  state. What the program adds is the translation of a container's description into a request and
  the context it puts around errors.
\<close>

subsection \<open>What the SDK is called with\<close>

record DeviceMapping =
  PathOnHost :: gostring
  PathInContainer :: gostring
  CgroupPermissions :: gostring

record DeviceRequest =
  Driver :: gostring
  Capabilities :: "gostring list list"
  DeviceIDs :: "gostring list"

record create_request =
  cr_Image :: gostring
  cr_Cmd :: "gostring list"
  cr_Labels :: "(gostring, gostring) gomap"
  cr_Env :: "gostring list"
  cr_NetworkMode :: gostring
  cr_CapAdd :: "gostring list"
  cr_Devices :: "DeviceMapping list"
  cr_Binds :: "gostring list"
  cr_DeviceRequests :: "DeviceRequest list"

record listed_container =
  lc_ID :: gostring
  lc_Names :: "gostring list"
  lc_State :: gostring
  lc_Labels :: "(gostring, gostring) gomap"

text \<open>
  An attached execution is what \<open>stdcopy.StdCopy\<close> reads from it, a pull what the copy of its
  progress reports.
\<close>

record 's sdk =
  ContainerCreate :: "create_request \<Rightarrow> gostring \<Rightarrow> 's \<Rightarrow> (errtext + gostring) \<times> 's"
  ContainerStart :: "gostring \<Rightarrow> 's \<Rightarrow> (errtext + unit) \<times> 's"
  ContainerStop :: "gostring \<Rightarrow> int \<Rightarrow> 's \<Rightarrow> (errtext + unit) \<times> 's"
  ContainerRemove :: "gostring \<Rightarrow> bool \<Rightarrow> 's \<Rightarrow> (errtext + unit) \<times> 's"
  ContainerInspect :: "gostring \<Rightarrow> 's \<Rightarrow> (errtext + ContainerInfo) \<times> 's"
  ContainerList :: "bool \<Rightarrow> gostring list \<Rightarrow> 's \<Rightarrow> (errtext + listed_container list) \<times> 's"
  ContainerExecCreate :: "gostring \<Rightarrow> gostring list \<Rightarrow> 's \<Rightarrow> (errtext + gostring) \<times> 's"
  ContainerExecAttach :: "gostring \<Rightarrow> 's \<Rightarrow> (errtext + (errtext + gostring \<times> gostring)) \<times> 's"
  ContainerExecInspect :: "gostring \<Rightarrow> 's \<Rightarrow> (errtext + int) \<times> 's"
  VolumeRemove :: "gostring \<Rightarrow> bool \<Rightarrow> 's \<Rightarrow> (errtext + unit) \<times> 's"
  ImagePull :: "gostring \<Rightarrow> 's \<Rightarrow> (errtext + errtext option) \<times> 's"

subsection \<open>RealDockerClient\<close>

definition device_mapping :: "gostring \<Rightarrow> DeviceMapping" where
  "device_mapping d = \<lparr>PathOnHost = d, PathInContainer = d, CgroupPermissions = ''rwm''\<rparr>"

definition gpu_request :: "int list \<Rightarrow> DeviceRequest list" where
  "gpu_request indices =
     (if length indices > 0
      then [\<lparr>Driver = ''nvidia'', Capabilities = [[''gpu'']], DeviceIDs = map go_Itoa indices\<rparr>]
      else [])"

definition request_of :: "ContainerSpec \<Rightarrow> create_request" where
  "request_of spec =
     \<lparr>cr_Image = spec_Image spec, cr_Cmd = spec_Cmd spec, cr_Labels = spec_Labels spec,
      cr_Env = envMapToSlice (spec_Env spec), cr_NetworkMode = spec_NetworkMode spec, cr_CapAdd = spec_CapAdd spec,
      cr_Devices = map device_mapping (spec_Devices spec),
      cr_Binds = map (\<lambda>m. Source m @ '':'' @ Target m) (spec_VolumeMounts spec),
      cr_DeviceRequests = gpu_request (spec_GPUIndices spec)\<rparr>"

text \<open>A call's error with some context in front of it.\<close>

definition context_of :: "errtext \<Rightarrow> (errtext + 'a) \<times> 's \<Rightarrow> (errtext + 'a) \<times> 's" where
  "context_of pre r = (case r of (Inl e, s) \<Rightarrow> (Inl (pre @ e), s) | (Inr a, s) \<Rightarrow> (Inr a, s))"

definition real_CreateContainer :: "'s sdk \<Rightarrow> ContainerSpec \<Rightarrow> 's \<Rightarrow> (errtext + gostring) \<times> 's" where
  "real_CreateContainer K spec s = context_of ''create: '' (ContainerCreate K (request_of spec) (spec_Name spec) s)"

text \<open>\<open>int(timeout.Seconds())\<close>, exact for the timeouts of the program (5 and 10 seconds).\<close>

definition whole_seconds :: "int \<Rightarrow> int" where
  "whole_seconds d = (if d < 0 then - (- d div seconds 1) else d div seconds 1)"

definition real_StopContainer :: "'s sdk \<Rightarrow> gostring \<Rightarrow> int \<Rightarrow> 's \<Rightarrow> (errtext + unit) \<times> 's" where
  "real_StopContainer K cid timeout s = ContainerStop K cid (whole_seconds timeout) s"

definition real_InspectContainer :: "'s sdk \<Rightarrow> gostring \<Rightarrow> 's \<Rightarrow> (errtext + ContainerInfo) \<times> 's" where
  "real_InspectContainer K cid s = context_of ''inspect: '' (ContainerInspect K cid s)"

definition listed_info :: "listed_container \<Rightarrow> ContainerInfo" where
  "listed_info c =
     \<lparr>info_ID = lc_ID c, info_Name = (case lc_Names c of [] \<Rightarrow> '''' | n # _ \<Rightarrow> n), info_State = lc_State c,
      info_Labels = lc_Labels c, info_Env = []\<rparr>"

definition real_ListContainers :: "'s sdk \<Rightarrow> (gostring, gostring) gomap \<Rightarrow> 's \<Rightarrow> (errtext + ContainerInfo list) \<times> 's" where
  "real_ListContainers K labelFilter s =
     (case context_of ''list: '' (ContainerList K True (map (\<lambda>(k, v). k @ ''='' @ v) labelFilter) s) of
        (Inl e, s) \<Rightarrow> (Inl e, s)
      | (Inr cs, s) \<Rightarrow> (Inr (map listed_info cs), s))"

definition real_Exec :: "'s sdk \<Rightarrow> gostring \<Rightarrow> gostring list \<Rightarrow> 's \<Rightarrow> (errtext + (gostring \<times> gostring \<times> int)) \<times> 's" where
  "real_Exec K cid cmd s =
     (case context_of ''exec create: '' (ContainerExecCreate K cid cmd s) of
        (Inl e, s) \<Rightarrow> (Inl e, s)
      | (Inr ex, s) \<Rightarrow>
     (case context_of ''exec attach: '' (ContainerExecAttach K ex s) of
        (Inl e, s) \<Rightarrow> (Inl e, s)
      | (Inr (Inl e), s) \<Rightarrow> (Inl (''read exec output: '' @ e), s)
      | (Inr (Inr (stdout, stderr)), s) \<Rightarrow>
     (case context_of ''exec inspect: '' (ContainerExecInspect K ex s) of
        (Inl e, s) \<Rightarrow> (Inl e, s)
      | (Inr code, s) \<Rightarrow> (Inr (stdout, stderr, code), s))))"

definition real_PullImage :: "'s sdk \<Rightarrow> gostring \<Rightarrow> 's \<Rightarrow> (errtext + unit) \<times> 's" where
  "real_PullImage K ref s =
     (case context_of ''pull: '' (ImagePull K ref s) of
        (Inl e, s) \<Rightarrow> (Inl e, s)
      | (Inr (Some e), s) \<Rightarrow> (Inl e, s)
      | (Inr None, s) \<Rightarrow> (Inr (), s))"

definition RealDockerClient :: "'s sdk \<Rightarrow> 's docker_client" where
  "RealDockerClient K =
     \<lparr>CreateContainer = real_CreateContainer K, StartContainer = ContainerStart K, StopContainer = real_StopContainer K,
      RemoveContainer = ContainerRemove K, InspectContainer = real_InspectContainer K,
      ListContainers = real_ListContainers K, Exec = real_Exec K, RemoveVolume = (\<lambda>name. VolumeRemove K name False),
      PullImage = real_PullImage K\<rparr>"

definition NewRealDockerClient :: "errtext + 's sdk \<Rightarrow> errtext + 's docker_client" where
  "NewRealDockerClient r = (case r of Inl e \<Rightarrow> Inl (''docker client: '' @ e) | Inr K \<Rightarrow> Inr (RealDockerClient K))"

subsection \<open>What Docker is asked for\<close>

text \<open>An engine that keeps the requests it gets beside its state.\<close>

definition logged :: "('s \<Rightarrow> 'r \<times> 's) \<Rightarrow> 's \<times> create_request list \<Rightarrow> 'r \<times> 's \<times> create_request list" where
  "logged f = (\<lambda>(s, reqs). case f s of (r, s) \<Rightarrow> (r, s, reqs))"

definition recording :: "'s sdk \<Rightarrow> ('s \<times> create_request list) sdk" where
  "recording K =
     \<lparr>ContainerCreate = (\<lambda>req name (s, reqs). case ContainerCreate K req name s of (r, s) \<Rightarrow> (r, s, reqs @ [req])),
      ContainerStart = (\<lambda>cid. logged (ContainerStart K cid)),
      ContainerStop = (\<lambda>cid t. logged (ContainerStop K cid t)),
      ContainerRemove = (\<lambda>cid force. logged (ContainerRemove K cid force)),
      ContainerInspect = (\<lambda>cid. logged (ContainerInspect K cid)),
      ContainerList = (\<lambda>everything flt. logged (ContainerList K everything flt)),
      ContainerExecCreate = (\<lambda>cid cmd. logged (ContainerExecCreate K cid cmd)),
      ContainerExecAttach = (\<lambda>ex. logged (ContainerExecAttach K ex)),
      ContainerExecInspect = (\<lambda>ex. logged (ContainerExecInspect K ex)),
      VolumeRemove = (\<lambda>name force. logged (VolumeRemove K name force)),
      ImagePull = (\<lambda>ref. logged (ImagePull K ref))\<rparr>"

lemma snd_context_of [simp]: "snd (context_of pre r) = snd r"
  by (auto simp: context_of_def split: prod.split sum.split)

lemma logged_log [simp]: "snd (snd (logged f d)) = snd d"
  by (simp add: logged_def split: prod.split)

lemma logged_logD: "snd (logged f d) = (s, reqs) \<Longrightarrow> reqs = snd d"
  by (metis logged_log snd_conv)

lemma context_ofD: "context_of pre r = (x, s) \<Longrightarrow> snd r = s"
  by (metis snd_context_of snd_conv)

abbreviation recorder :: "'s sdk \<Rightarrow> ('s \<times> create_request list) docker_client" where
  "recorder K \<equiv> RealDockerClient (recording K)"

lemma Exec_log [simp]: "snd (snd (Exec (recorder K) cid cmd d)) = snd d"
  by (auto simp: RealDockerClient_def real_Exec_def recording_def split: prod.split sum.split dest!: context_ofD logged_logD)

lemma other_logs [simp]:
  "snd (snd (StartContainer (recorder K) cid d)) = snd d" "snd (snd (StopContainer (recorder K) cid t d)) = snd d"
  "snd (snd (RemoveContainer (recorder K) cid force d)) = snd d"
  by (simp_all add: RealDockerClient_def real_StopContainer_def recording_def)

lemma create_log [simp]: "snd (snd (CreateContainer (recorder K) spec d)) = snd d @ [request_of spec]"
  by (simp add: RealDockerClient_def real_CreateContainer_def recording_def split: prod.split)

lemma wait_log: "waitSidecarHealth (recorder K) E sid w = (r, w') \<Longrightarrow> snd (docker w') = snd (docker w)"
  using wait_loop_engine[where P = "\<lambda>d. snd d = snd (docker w)" and dc = "recorder K" and sid = sid and w = w and E = E
      and dl = "clock w + healthTimeout E"]
  by (simp add: waitSidecarHealth_def)

lemma on_docker_log: "on_docker f w = (r, w') \<Longrightarrow> docker w' = snd (f (docker w)) \<and> alloc w' = alloc w"
  by (auto simp: on_docker_eq)

lemma create_sidecar_log:
  "create_sidecar (recorder K) E cmd w = (Inr sid, w') \<Longrightarrow>
     snd (docker w') = snd (docker w) @ [request_of (sidecar_spec cmd)]"
  by (auto simp: create_sidecar_def split: prod.splits sum.splits dest!: on_docker_log wait_log)

lemma create_dev_log:
  "create_dev (recorder K) cmd idx sid w = (Inr did, w') \<Longrightarrow>
     snd (docker w') = snd (docker w) @ [request_of (dev_spec cmd idx)]"
  by (auto simp: create_dev_def split: prod.splits sum.splits dest!: on_docker_log)

text \<open>C14: what an environment is reported to hold is what Docker was asked to give it. When a create command
  ends ready on a real client, whatever the engine did, Docker has been asked for exactly two
  containers: a sidecar without devices of a GPU, and the environment's container in the sidecar's
  network, with its own volume, for which exactly the indices reserved in the allocator are
  requested, and none at all when none are reserved.\<close>

theorem docker_is_asked_for_reserved_gpus:
  assumes "HandleCreate (RealDockerClient (recording K)) E cmd w = (Returned, w')"
    and "last (sent w') = EnvReady (ce_env_id cmd) sid did ids"
  shows "\<exists>u idx sreq dreq. uuidParse E (ce_env_id cmd) = Inr u \<and>
    Allocate u (ce_gpu_request cmd) (alloc w) = (AllocOk idx, alloc w') \<and> ids = map to_int32 idx \<and>
    snd (docker w') = snd (docker w) @ [sreq, dreq] \<and> cr_DeviceRequests sreq = [] \<and>
    concat (map DeviceIDs (cr_DeviceRequests dreq)) = map go_Itoa idx \<and> (cr_DeviceRequests dreq = [] \<longleftrightarrow> idx = []) \<and>
    cr_NetworkMode dreq = ''container:flex-net-'' @ ce_env_id cmd \<and> cr_Binds dreq = [''flex-env-'' @ ce_env_id cmd @ '':/home/dev'']"
proof -
  obtain u where u: "uuidParse E (ce_env_id cmd) = Inr u"
    using assms by (cases "uuidParse E (ce_env_id cmd)") (auto simp: HandleCreate_def sendError_def)
  obtain idx a where al: "Allocate u (ce_gpu_request cmd) (alloc w) = (AllocOk idx, a)"
    using assms u by (cases "Allocate u (ce_gpu_request cmd) (alloc w)")
      (auto simp: HandleCreate_def sendError_def split: alloc_result.splits)
  obtain r1 w1 where s: "create_sidecar (recorder K) E cmd (w\<lparr>alloc := a\<rparr>) = (r1, w1)" by force
  then obtain sid' where r1: "r1 = Inr sid'"
    using assms u al by (cases r1) (auto simp: HandleCreate_def sendError_def)
  obtain r2 w2 where d: "create_dev (recorder K) cmd idx sid' w1 = (r2, w2)" by force
  then obtain did' where r2: "r2 = Inr did'"
    using assms u al s r1 by (cases r2) (auto simp: HandleCreate_def sendError_def)
  have w': "w' = sendReady (ce_env_id cmd) sid' did' idx w2"
    using assms(1) u al s r1 d r2 by (simp add: HandleCreate_def)
  then have "alloc w' = a" "docker w' = docker w2" "ids = map to_int32 idx"
    using create_sidecar_frame[OF s] create_dev_frame[OF d] assms(2) by (auto simp: sendReady_def)
  moreover have "snd (docker w2) = snd (docker w) @ [request_of (sidecar_spec cmd), request_of (dev_spec cmd idx)]"
    using create_sidecar_log[OF s[unfolded r1]] create_dev_log[OF d[unfolded r2]] by simp
  moreover have "cr_DeviceRequests (request_of (sidecar_spec cmd)) = []"
    "concat (map DeviceIDs (cr_DeviceRequests (request_of (dev_spec cmd idx)))) = map go_Itoa idx"
    "cr_DeviceRequests (request_of (dev_spec cmd idx)) = [] \<longleftrightarrow> idx = []"
    "cr_NetworkMode (request_of (dev_spec cmd idx)) = ''container:flex-net-'' @ ce_env_id cmd"
    "cr_Binds (request_of (dev_spec cmd idx)) = [''flex-env-'' @ ce_env_id cmd @ '':/home/dev'']"
    by (simp_all add: request_of_def sidecar_spec_def dev_spec_def gpu_request_def net_name_def)
  ultimately show ?thesis using u al
    by (intro exI[of _ u] exI[of _ idx] exI[of _ "request_of (sidecar_spec cmd)"] exI[of _ "request_of (dev_spec cmd idx)"]) simp
qed

text \<open>An engine on which everything succeeds.\<close>

definition demo_sdk :: "unit sdk" where
  "demo_sdk =
     \<lparr>ContainerCreate = (\<lambda>req name s. (Inr (''id-'' @ name), s)), ContainerStart = (\<lambda>_ s. (Inr (), s)),
      ContainerStop = (\<lambda>_ _ s. (Inr (), s)), ContainerRemove = (\<lambda>_ _ s. (Inr (), s)),
      ContainerInspect = (\<lambda>_ s. (Inl ''none'', s)), ContainerList = (\<lambda>_ _ s. (Inr [], s)),
      ContainerExecCreate = (\<lambda>_ _ s. (Inr ''x'', s)), ContainerExecAttach = (\<lambda>_ s. (Inr (Inr (''100.64.0.7'', '''')), s)),
      ContainerExecInspect = (\<lambda>_ s. (Inr 0, s)), VolumeRemove = (\<lambda>_ _ s. (Inr (), s)), ImagePull = (\<lambda>_ s. (Inr None, s))\<rparr>"

definition demo_node :: "(unit \<times> create_request list) agent_world" where
  "demo_node = \<lparr>docker = ((), []), alloc = NewGPUAllocator [0, 1], sent = [], clock = 0\<rparr>"

lemma docker_is_asked_for_reserved_gpus_witness:
  "map (\<lambda>r. concat (map DeviceIDs (cr_DeviceRequests r)))
     (snd (docker (snd (HandleCreate (RealDockerClient (recording demo_sdk)) demo_env (demo_create ''7'' 2) demo_node)))) =
   [[], [''0'', ''1'']]"
proof -
  let ?w' = "snd (HandleCreate (RealDockerClient (recording demo_sdk)) demo_env (demo_create ''7'' 2) demo_node)"
  have run: "HandleCreate (RealDockerClient (recording demo_sdk)) demo_env (demo_create ''7'' 2) demo_node = (Returned, ?w')"
    by (rule prod_eqI) (simp, code_simp, simp)
  have ready: "last (sent ?w') = EnvReady (ce_env_id (demo_create ''7'' 2)) ''id-flex-net-7'' ''id-flex-env-7'' [0, 1]"
    by code_simp
  obtain u idx sreq dreq where u: "uuidParse demo_env (ce_env_id (demo_create ''7'' 2)) = Inr u"
    and al: "Allocate u (ce_gpu_request (demo_create ''7'' 2)) (alloc demo_node) = (AllocOk idx, alloc ?w')"
    and reqs: "snd (docker ?w') = snd (docker demo_node) @ [sreq, dreq]" "cr_DeviceRequests sreq = []"
      "concat (map DeviceIDs (cr_DeviceRequests dreq)) = map go_Itoa idx"
    using docker_is_asked_for_reserved_gpus[OF run ready] by blast
  have "uuidParse demo_env (ce_env_id (demo_create ''7'' 2)) = Inr 7" by code_simp
  with u have "u = 7" by simp
  moreover have "fst (Allocate 7 (ce_gpu_request (demo_create ''7'' 2)) (alloc demo_node)) = AllocOk [0, 1]" by code_simp
  ultimately have "idx = [0, 1]" using al by simp
  moreover have "snd (docker demo_node) = []" by (simp add: demo_node_def)
  moreover have "map go_Itoa [0, 1] = [''0'', ''1'']" by code_simp
  ultimately show ?thesis using reqs by simp
qed

end
