(* ===== verification/GoFiles.thy ===== *)
theory GoFiles
  imports GoErrors
begin

text \<open>
  What the client programs use of the operating system: a machine with its environment variables,
  the home directory, the host name and the path of the running program, and a world with the
  files, the output so far, the server at the other end and the time. An operation on a path can
  fail; the machine says with which error. \<open>path/filepath\<close> is modelled for Unix.
\<close>

record machine =
  m_getenv :: "gostring \<Rightarrow> gostring"
  m_home :: gostring
  m_hostname :: gostring
  m_executable :: gostring
  m_fault :: "gostring \<Rightarrow> gostring \<Rightarrow> errtext option"

record 's client_world =
  files :: "(gostring, gostring) gomap"
  printed :: "gostring list"
  server :: 's
  unix_time :: int

definition os_ErrNotExist :: go_error where
  "os_ErrNotExist = Sentinel ''no such file or directory''"

text \<open>A write that fails leaves the file as it was: it fails before it starts.\<close>

definition ReadFile :: "machine \<Rightarrow> gostring \<Rightarrow> ('s client_world, gostring) call" where
  "ReadFile M path w =
     (case m_fault M ''read'' path of
        Some e \<Rightarrow> (Inl (NewError e), w)
      | None \<Rightarrow> (case map_of (files w) path of None \<Rightarrow> (Inl os_ErrNotExist, w) | Some c \<Rightarrow> (Inr c, w)))"

definition WriteFile :: "machine \<Rightarrow> gostring \<Rightarrow> gostring \<Rightarrow> ('s client_world, unit) call" where
  "WriteFile M path contents w =
     (case m_fault M ''write'' path of
        Some e \<Rightarrow> (Inl (NewError e), w)
      | None \<Rightarrow> (Inr (), w\<lparr>files := AList.update path contents (files w)\<rparr>))"

definition MkdirAll :: "machine \<Rightarrow> gostring \<Rightarrow> ('s client_world, unit) call" where
  "MkdirAll M dir w = (case m_fault M ''mkdir'' dir of Some e \<Rightarrow> (Inl (NewError e), w) | None \<Rightarrow> (Inr (), w))"

definition os_Remove :: "machine \<Rightarrow> gostring \<Rightarrow> ('s client_world, unit) call" where
  "os_Remove M path w =
     (case m_fault M ''remove'' path of
        Some e \<Rightarrow> (Inl (NewError e), w)
      | None \<Rightarrow>
          if map_of (files w) path = None then (Inl os_ErrNotExist, w)
          else (Inr (), w\<lparr>files := AList.delete path (files w)\<rparr>))"

text \<open>Everything below a directory goes.\<close>

definition RemoveAll :: "machine \<Rightarrow> gostring \<Rightarrow> ('s client_world, unit) call" where
  "RemoveAll M path w =
     (case m_fault M ''remove'' path of
        Some e \<Rightarrow> (Inl (NewError e), w)
      | None \<Rightarrow> (Inr (), w\<lparr>files := filter (\<lambda>(p, _). p \<noteq> path \<and> \<not> has_prefix p (path @ ''/'')) (files w)\<rparr>))"

definition print_line :: "gostring \<Rightarrow> 's client_world \<Rightarrow> 's client_world" where
  "print_line s w = w\<lparr>printed := printed w @ [s]\<rparr>"

definition say :: "gostring \<Rightarrow> ('s client_world, unit) call" where
  "say s w = (Inr (), print_line s w)"

subsection \<open>Paths\<close>

text \<open>\<open>filepath.Clean\<close> on the parts between slashes; \<open>acc\<close> holds the parts kept, last first.\<close>

fun clean_parts :: "bool \<Rightarrow> gostring list \<Rightarrow> gostring list \<Rightarrow> gostring list" where
  "clean_parts rooted [] acc = rev acc"
| "clean_parts rooted (p # ps) acc =
     (if p = '''' \<or> p = ''.'' then clean_parts rooted ps acc
      else if p = ''..'' then
        (case acc of
           a # as \<Rightarrow> if a = ''..'' then clean_parts rooted ps (p # acc) else clean_parts rooted ps as
         | [] \<Rightarrow> clean_parts rooted ps (if rooted then [] else [p]))
      else clean_parts rooted ps (p # acc))"

definition path_Clean :: "gostring \<Rightarrow> gostring" where
  "path_Clean p =
     (let rooted = has_prefix p ''/'';
          s = go_Join ''/'' (clean_parts rooted (go_Split (CHR ''/'') p) [])
      in if rooted then ''/'' @ s else if s = '''' then ''.'' else s)"

definition path_Join :: "gostring list \<Rightarrow> gostring" where
  "path_Join es =
     (case dropWhile (\<lambda>e. e = '''') es of [] \<Rightarrow> '''' | e # rest \<Rightarrow> path_Clean (go_Join ''/'' (e # rest)))"

definition path_Dir :: "gostring \<Rightarrow> gostring" where
  "path_Dir p = path_Clean (trim_right (\<lambda>c. c \<noteq> CHR ''/'') p)"

definition path_Base :: "gostring \<Rightarrow> gostring" where
  "path_Base p =
     (if p = '''' then ''.''
      else let q = trim_right (\<lambda>c. c = CHR ''/'') p
           in if q = '''' then ''/'' else last (go_Split (CHR ''/'') q))"

lemma path_examples:
  "path_Join [''/home/a'', ''.ssh'', ''config''] = ''/home/a/.ssh/config''" "path_Join ['''', ''.ssh'', ''config''] = ''.ssh/config''"
  "path_Dir ''/home/a/.ssh/config'' = ''/home/a/.ssh''" "path_Base ''/home/a/.ssh/id_rsa.pub'' = ''id_rsa.pub''"
  "path_Clean ''/a/../../b//./c/..'' = ''/b''" "path_Clean ''../x/..'' = ''..''" "path_Dir ''config'' = ''.''"
  by code_simp+

subsection \<open>Lines\<close>

text \<open>
  \<open>bufio.Scanner\<close> with its default buffer: lines end at a newline, one carriage return before it is
  dropped, an empty last line is none, and a line of 65536 bytes or more ends the scan with an error.
\<close>

definition drop_cr :: "gostring \<Rightarrow> gostring" where
  "drop_cr s = (if has_suffix s [CHR 0x0D] then butlast s else s)"

definition bufio_ErrTooLong :: go_error where
  "bufio_ErrTooLong = Sentinel ''bufio.Scanner: token too long''"

fun scan_tokens :: "gostring list \<Rightarrow> gostring list \<times> go_error option" where
  "scan_tokens [] = ([], None)"
| "scan_tokens [l] =
     (if length l \<ge> 65536 then ([], Some bufio_ErrTooLong) else if l = '''' then ([], None) else ([drop_cr l], None))"
| "scan_tokens (l # m # ls) =
     (if length l \<ge> 65536 then ([], Some bufio_ErrTooLong)
      else (case scan_tokens (m # ls) of (ts, err) \<Rightarrow> (drop_cr l # ts, err)))"

definition scan_lines :: "gostring \<Rightarrow> gostring list \<times> go_error option" where
  "scan_lines s = scan_tokens (go_Split (CHR 0x0A) s)"

text \<open>A text of lines that all end in a newline.\<close>

definition text_of :: "gostring list \<Rightarrow> gostring" where
  "text_of ls = concat (map (\<lambda>l. l @ [CHR 0x0A]) ls)"

lemma text_of_simps [simp]: "text_of [] = []" "text_of (l # ls) = l @ CHR 0x0A # text_of ls"
  by (simp_all add: text_of_def)

definition line_ok :: "gostring \<Rightarrow> bool" where
  "line_ok l \<longleftrightarrow> CHR 0x0A \<notin> set l \<and> CHR 0x0D \<notin> set l \<and> length l < 65536"

lemma split_text_of: "list_all line_ok ls \<Longrightarrow> go_Split (CHR 0x0A) (text_of ls) = ls @ [[]]"
  by (induction ls) (auto simp: go_Split_sep line_ok_def)

lemma drop_cr_ok: "line_ok l \<Longrightarrow> drop_cr l = l"
  by (auto simp: drop_cr_def has_suffix_iff line_ok_def)

lemma scan_text_of:
  assumes "list_all line_ok ls"
  shows "scan_lines (text_of ls) = (ls, None)"
proof -
  have "scan_tokens (ls @ [[]]) = (ls, None)" using assms
  proof (induction ls)
    case (Cons l ls)
    then show ?case by (cases ls) (auto simp: drop_cr_ok line_ok_def)
  qed simp
  then show ?thesis by (simp add: scan_lines_def split_text_of[OF assms])
qed

subsection \<open>An example\<close>

definition demo_machine :: machine where
  "demo_machine = \<lparr>m_getenv = (\<lambda>_. ''''), m_home = ''/home/ann'', m_hostname = ''Ann-PC'',
     m_executable = ''/usr/bin/flexctl'', m_fault = (\<lambda>_ _. None)\<rparr>"

definition demo_disk :: "(gostring, gostring) gomap \<Rightarrow> unit client_world" where
  "demo_disk fs = \<lparr>files = fs, printed = [], server = (), unix_time = 1700000000\<rparr>"

end
