(* ===== verification/Quoting.thy ===== *)
theory Quoting
  imports Json
begin

text \<open>
  \<open>strconv.Unquote\<close>, the reader of what \<open>%q\<close> writes: double-quoted, single-quoted and raw literals
  with Go's escapes. Bytes of 128 and more stand for themselves, as in \<open>go_quote\<close>.
\<close>

definition hex_val :: "char \<Rightarrow> nat option" where
  "hex_val c =
     (let b = byte_of c in
      if 48 \<le> b \<and> b \<le> 57 then Some (b - 48)
      else if 97 \<le> b \<and> b \<le> 102 then Some (b - 87)
      else if 65 \<le> b \<and> b \<le> 70 then Some (b - 55) else None)"

fun digits_val :: "nat \<Rightarrow> nat \<Rightarrow> gostring \<Rightarrow> nat option" where
  "digits_val base acc [] = Some acc"
| "digits_val base acc (c # cs) =
     (case hex_val c of None \<Rightarrow> None | Some d \<Rightarrow> if d < base then digits_val base (base * acc + d) cs else None)"

definition utf8_encode :: "nat \<Rightarrow> gostring" where
  "utf8_encode r =
     (if r < 128 then [char_of r]
      else if r < 2048 then [char_of (192 + r div 64), char_of (128 + r mod 64)]
      else if r < 65536 then [char_of (224 + r div 4096), char_of (128 + r div 64 mod 64), char_of (128 + r mod 64)]
      else [char_of (240 + r div 262144), char_of (128 + r div 4096 mod 64), char_of (128 + r div 64 mod 64),
            char_of (128 + r mod 64)])"

definition rune_valid :: "nat \<Rightarrow> bool" where
  "rune_valid r \<longleftrightarrow> r < 55296 \<or> 57344 \<le> r \<and> r \<le> 1114111"

text \<open>The escapes of one letter.\<close>

definition simple_escapes :: "(char \<times> char) list" where
  "simple_escapes = [(CHR ''a'', CHR 0x07), (CHR ''b'', CHR 0x08), (CHR ''f'', CHR 0x0C), (CHR ''n'', CHR 0x0A),
     (CHR ''r'', CHR 0x0D), (CHR ''t'', CHR 0x09), (CHR ''v'', CHR 0x0B), (CHR 0x5C, CHR 0x5C)]"

definition hex_escape :: "nat \<Rightarrow> gostring \<Rightarrow> nat option" where
  "hex_escape n s = (if length s < n then None else digits_val 16 0 (take n s))"

text \<open>\<open>UnquoteChar\<close>: the bytes of the first character or escape and the rest.\<close>

definition unquote_char :: "char \<Rightarrow> gostring \<Rightarrow> (gostring \<times> gostring) option" where
  "unquote_char quote s =
     (case s of
        [] \<Rightarrow> None
      | c # s1 \<Rightarrow>
          if c = quote then None
          else if c \<noteq> CHR 0x5C then Some ([c], s1)
          else (case s1 of
             [] \<Rightarrow> None
           | e # rest \<Rightarrow>
               if map_of simple_escapes e \<noteq> None then Some ([the (map_of simple_escapes e)], rest)
               else if e = CHR ''x''
               then map_option (\<lambda>v. ([char_of v], drop 2 rest)) (hex_escape 2 rest)
               else if e = CHR ''u'' \<or> e = CHR ''U''
               then let n = (if e = CHR ''u'' then 4 else 8) in
                 (case hex_escape n rest of
                    None \<Rightarrow> None
                  | Some v \<Rightarrow> if rune_valid v then Some (utf8_encode v, drop n rest) else None)
               else if 48 \<le> byte_of e \<and> byte_of e \<le> 55
               then (if length rest < 2 then None
                     else case digits_val 8 (byte_of e - 48) (take 2 rest) of
                            None \<Rightarrow> None
                          | Some v \<Rightarrow> if v > 255 then None else Some ([char_of v], drop 2 rest))
               else if e = CHR 0x27 \<or> e = CHR 0x22
               then (if e = quote then Some ([e], rest) else None)
               else None))"

lemma unquote_char_shorter: "unquote_char q s = Some (c, rest) \<Longrightarrow> length rest < length s"
  by (auto simp: unquote_char_def Let_def hex_escape_def split: list.splits if_splits option.splits)

text \<open>The characters up to the closing quote; an unescaped newline is an error.\<close>

function unquote_body :: "char \<Rightarrow> gostring \<Rightarrow> (gostring \<times> gostring) option" where
  "unquote_body quote s =
     (case s of
        [] \<Rightarrow> None
      | c # rest \<Rightarrow>
          if c = quote then Some ([], rest)
          else if c = CHR 0x0A then None
          else (case unquote_char quote s of
             None \<Rightarrow> None
           | Some (bytes, rest) \<Rightarrow>
               (case unquote_body quote rest of None \<Rightarrow> None | Some (out, rem) \<Rightarrow> Some (bytes @ out, rem))))"
  by pat_completeness auto
termination
  by (relation "measure (\<lambda>(q, s). length s)") (auto dest: unquote_char_shorter)

declare unquote_body.simps [simp del]

definition unquote_single :: "gostring \<Rightarrow> (gostring \<times> gostring) option" where
  "unquote_single s =
     (case s of
        [] \<Rightarrow> None
      | c # rest \<Rightarrow>
          if c = CHR 0x27 then Some ([], rest)
          else if c = CHR 0x0A then None
          else (case unquote_char (CHR 0x27) s of
             None \<Rightarrow> None
           | Some (bytes, q # rem) \<Rightarrow> if q = CHR 0x27 then Some (bytes, rem) else None
           | Some (bytes, []) \<Rightarrow> None))"

definition unquote_raw :: "gostring \<Rightarrow> (gostring \<times> gostring) option" where
  "unquote_raw s =
     (case dropWhile (\<lambda>c. c \<noteq> CHR 0x60) s of
        [] \<Rightarrow> None
      | _ # rem \<Rightarrow> Some (filter (\<lambda>c. c \<noteq> CHR 0x0D) (takeWhile (\<lambda>c. c \<noteq> CHR 0x60) s), rem))"

definition go_unquote :: "gostring \<Rightarrow> gostring option" where
  "go_unquote s =
     (case s of
        [] \<Rightarrow> None
      | q # body \<Rightarrow>
          (case (if q = CHR 0x22 then unquote_body q body else if q = CHR 0x27 then unquote_single body
                 else if q = CHR 0x60 then unquote_raw body else None) of
             Some (out, []) \<Rightarrow> Some out
           | _ \<Rightarrow> None))"

subsection \<open>Quoting is inverted\<close>

lemma hex_val_digit: "n < 16 \<Longrightarrow> hex_val (hex_digit n) = Some n"
  by (auto simp: hex_val_def hex_digit_def byte_of_def Let_def)

lemma byte_of_bound: "byte_of c < 256"
  by (simp add: byte_of_def)

lemma char_of_byte: "char_of (byte_of c) = c"
  by (simp add: byte_of_def)

lemma hex_escape_byte:
  "hex_escape 2 (hex_digit (byte_of c div 16) # hex_digit (byte_of c mod 16) # rest) = Some (byte_of c)"
proof -
  have "byte_of c div 16 < 16" using byte_of_bound[of c] by auto
  then show ?thesis by (simp add: hex_escape_def hex_val_digit numeral_2_eq_2)
qed

lemma byte_inj: "byte_of c = byte_of d \<Longrightarrow> c = d"
  by (metis char_of_byte)

lemma unquote_quote_char: "unquote_char (CHR 0x22) (quote_char c @ rest) = Some ([c], rest)"
proof (cases "byte_of c \<in> {34, 92, 7, 8, 12, 10, 13, 9, 11}")
  case True
  then have "c \<in> {CHR 0x22, CHR 0x5C, CHR 0x07, CHR 0x08, CHR 0x0C, CHR 0x0A, CHR 0x0D, CHR 0x09, CHR 0x0B}"
    using byte_inj[of c "CHR 0x22"] byte_inj[of c "CHR 0x5C"] byte_inj[of c "CHR 0x07"] byte_inj[of c "CHR 0x08"]
      byte_inj[of c "CHR 0x0C"] byte_inj[of c "CHR 0x0A"] byte_inj[of c "CHR 0x0D"] byte_inj[of c "CHR 0x09"]
      byte_inj[of c "CHR 0x0B"] by (auto simp: byte_of_def)
  then show ?thesis by (auto simp: quote_char_def unquote_char_def simple_escapes_def byte_of_def)
next
  case False
  then have "c \<noteq> CHR 0x22" "c \<noteq> CHR 0x5C" by (auto simp: byte_of_def)
  with False show ?thesis
    by (cases "byte_of c < 32 \<or> byte_of c = 127")
      (simp_all add: quote_char_def unquote_char_def simple_escapes_def hex_escape_byte char_of_byte Let_def)
qed

lemma quote_char_hd: "quote_char c = h # t \<Longrightarrow> h \<noteq> CHR 0x22 \<and> h \<noteq> CHR 0x0A"
  by (auto simp: quote_char_def Let_def byte_of_def split: if_splits)

lemma quote_char_not_Nil: "quote_char c \<noteq> []"
  by (simp add: quote_char_def Let_def)

lemma unquote_body_quote: "unquote_body (CHR 0x22) (concat (map quote_char s) @ CHR 0x22 # rest) = Some (s, rest)"
proof (induction s)
  case Nil
  then show ?case by (simp add: unquote_body.simps)
next
  case (Cons c s)
  obtain h t where q: "quote_char c = h # t" using quote_char_not_Nil[of c] by (cases "quote_char c") auto
  let ?rest = "concat (map quote_char s) @ CHR 0x22 # rest"
  have "unquote_char (CHR 0x22) (h # t @ ?rest) = Some ([c], ?rest)"
    using unquote_quote_char[of c ?rest] q by simp
  with Cons quote_char_hd[OF q] show ?case by (simp add: q unquote_body.simps[of _ "h # t @ ?rest"])
qed

lemma unquote_quote: "go_unquote (go_quote s) = Some s"
  using unquote_body_quote[of s "[]"] by (simp add: go_unquote_def go_quote_def)

text \<open>The shape of a quoted text.\<close>

lemma quote_char_set: "x \<in> set (quote_char c) \<Longrightarrow> 32 \<le> byte_of x \<and> byte_of x \<noteq> 127"
proof -
  assume x: "x \<in> set (quote_char c)"
  have "byte_of c div 16 < 16" using byte_of_bound[of c] by auto
  moreover have "32 \<le> byte_of (hex_digit n) \<and> byte_of (hex_digit n) \<noteq> 127" if "n < 16" for n
    using that by (auto simp: hex_digit_def byte_of_def)
  ultimately show ?thesis using x
    by (auto simp: quote_char_def Let_def byte_of_def split: if_splits)
qed

lemma quote_no_newline: "CHR 0x0A \<notin> set (go_quote s)" "CHR 0x0D \<notin> set (go_quote s)"
  using quote_char_set[of "CHR 0x0A"] quote_char_set[of "CHR 0x0D"] by (auto simp: go_quote_def byte_of_def)

lemma quote_length: "length (go_quote s) \<le> 4 * length s + 2"
proof -
  have "length (quote_char c) \<le> 4" for c by (simp add: quote_char_def Let_def)
  then have "length (concat (map quote_char s)) \<le> 4 * length s" by (induction s) (auto intro: add_mono)
  then show ?thesis by (simp add: go_quote_def)
qed

lemma quote_ends: "go_quote s \<noteq> []" "hd (go_quote s) = CHR 0x22" "last (go_quote s) = CHR 0x22"
  by (simp_all add: go_quote_def)

lemma quote_plain:
  assumes "\<And>c. c \<in> set s \<Longrightarrow> 32 \<le> byte_of c \<and> byte_of c \<noteq> 34 \<and> byte_of c \<noteq> 92 \<and> byte_of c \<noteq> 127"
  shows "go_quote s = CHR 0x22 # s @ [CHR 0x22]"
proof -
  have "quote_char c = [c]" if "c \<in> set s" for c using assms[OF that] by (auto simp: quote_char_def Let_def)
  then have "concat (map quote_char s) = s" by (induction s) auto
  then show ?thesis by (simp add: go_quote_def)
qed

end
