(* ===== verification/GpuInfo.thy ===== *)
theory GpuInfo
  imports AgentRuntime GoFiles Quoting
begin

text \<open>
  \<open>gpuinfo/nvidia.go\<close>: the inventory of GPUs from the output of \<open>nvidia-smi\<close>. Running the program is
  a parameter: absent, failed, or its output.
\<close>

text \<open>The error of \<open>strconv.Atoi\<close>; which of its two reasons holds is left out of the text.\<close>

definition atoi_error :: "gostring \<Rightarrow> go_error" where
  "atoi_error s = NewError (''strconv.Atoi: parsing '' @ go_quote s)"

definition parse_vram :: "gostring \<Rightarrow> gostring" where
  "parse_vram s = go_TrimSpace (go_TrimSuffix (go_TrimSuffix (go_TrimSpace s) '' MiB'') ''MiB'')"

definition parse_gpu :: "gostring \<Rightarrow> go_error + GPU" where
  "parse_gpu line =
     (let parts = go_SplitN (CHR '','') 3 line
      in if length parts \<noteq> 3
         then Inl (NewError (''expected 3 fields per line, got '' @ go_Itoa (int (length parts)) @ '' in '' @ go_quote line))
         else (case go_Atoi (go_TrimSpace (parts ! 0)) of
                 None \<Rightarrow> Inl (Wrap ''parse index: '' (atoi_error (go_TrimSpace (parts ! 0))))
               | Some idx \<Rightarrow>
                   (case go_Atoi (parse_vram (parts ! 2)) of
                      None \<Rightarrow> Inl (Wrap ''parse vram: '' (atoi_error (parse_vram (parts ! 2))))
                    | Some vram \<Rightarrow>
                        Inr \<lparr>g_Index = to_int32 idx, g_Model = go_TrimSpace (parts ! 1), g_VRAMMB = to_int32 vram\<rparr>)))"

fun parse_lines :: "gostring list \<Rightarrow> go_error + GPU list" where
  "parse_lines [] = Inr []"
| "parse_lines (l # ls) =
     (let line = go_TrimSpace l
      in if line = '''' then parse_lines ls
         else (case parse_gpu line of
                 Inl e \<Rightarrow> Inl e
               | Inr g \<Rightarrow> (case parse_lines ls of Inl e \<Rightarrow> Inl e | Inr gs \<Rightarrow> Inr (g # gs))))"

text \<open>The GPUs and the error, as the function returns them: with a scanner error both.\<close>

definition ParseNvidiaSMI :: "gostring \<Rightarrow> GPU list \<times> go_error option" where
  "ParseNvidiaSMI out =
     (case scan_lines out of (ls, err) \<Rightarrow>
        (case parse_lines ls of Inl e \<Rightarrow> ([], Some e) | Inr gs \<Rightarrow> (gs, err)))"

definition Detect :: "(errtext + gostring) option \<Rightarrow> GPU list" where
  "Detect smi =
     (case smi of
        None \<Rightarrow> []
      | Some (Inl err) \<Rightarrow> []
      | Some (Inr out) \<Rightarrow> (case ParseNvidiaSMI out of (parsed, None) \<Rightarrow> parsed | (_, Some _) \<Rightarrow> []))"

text \<open>
  The detector with its options. Looking a program up and running it are parameters; the program is
  given the detector's timeout in its context.
\<close>

record NvidiaDetector =
  lookPath :: "gostring \<Rightarrow> errtext + gostring"
  timeout :: int

type_synonym detector_option = "NvidiaDetector \<Rightarrow> NvidiaDetector"

definition WithExecLookPath :: "(gostring \<Rightarrow> errtext + gostring) \<Rightarrow> detector_option" where
  "WithExecLookPath f d = d\<lparr>lookPath := f\<rparr>"

definition WithTimeout :: "int \<Rightarrow> detector_option" where
  "WithTimeout t d = d\<lparr>timeout := t\<rparr>"

definition NewNvidiaDetector :: "(gostring \<Rightarrow> errtext + gostring) \<Rightarrow> detector_option list \<Rightarrow> NvidiaDetector" where
  "NewNvidiaDetector LookPath opts = fold (\<lambda>opt d. opt d) opts \<lparr>lookPath = LookPath, timeout = 3 * 1000000000\<rparr>"

definition smi_args :: "gostring list" where
  "smi_args = [''--query-gpu=index,name,memory.total'', ''--format=csv,noheader,nounits'']"

definition detector_Detect :: "(int \<Rightarrow> gostring \<Rightarrow> gostring list \<Rightarrow> errtext + gostring) \<Rightarrow> NvidiaDetector \<Rightarrow> GPU list" where
  "detector_Detect run d =
     (case lookPath d ''nvidia-smi'' of
        Inl err \<Rightarrow> []
      | Inr bin \<Rightarrow> Detect (Some (run (timeout d) bin smi_args)))"

text \<open>The options are independent, the last one of a kind counts, and without the program nothing is detected.\<close>

lemma detector_options:
  "NewNvidiaDetector L (opts @ [WithTimeout t, WithExecLookPath f]) = NewNvidiaDetector L (opts @ [WithExecLookPath f, WithTimeout t])"
  "timeout (NewNvidiaDetector L (opts @ [WithTimeout t, WithExecLookPath f])) = t"
  "lookPath (NewNvidiaDetector L (opts @ [WithTimeout t, WithExecLookPath f])) = f"
  "lookPath d ''nvidia-smi'' = Inl e \<Longrightarrow> detector_Detect run d = []"
  by (simp_all add: NewNvidiaDetector_def WithTimeout_def WithExecLookPath_def detector_Detect_def)

subsection \<open>Reading what nvidia-smi prints\<close>

text \<open>A line of its output, with or without the unit.\<close>

definition smi_line :: "gostring \<Rightarrow> GPU \<Rightarrow> gostring" where
  "smi_line unit g = go_Itoa (g_Index g) @ '', '' @ g_Model g @ '', '' @ go_Itoa (g_VRAMMB g) @ unit"

definition gpu_ok :: "GPU \<Rightarrow> bool" where
  "gpu_ok g \<longleftrightarrow> fits_int 32 (g_Index g) \<and> fits_int 32 (g_VRAMMB g) \<and> g_Model g \<noteq> [] \<and>
     \<not> is_space (hd (g_Model g)) \<and> \<not> is_space (last (g_Model g)) \<and>
     list_all (\<lambda>c. c \<noteq> CHR '','' \<and> c \<noteq> CHR 0x0A \<and> c \<noteq> CHR 0x0D) (g_Model g) \<and> length (g_Model g) < 60000"

lemma SplitN_3:
  assumes "sep \<notin> set p" "sep \<notin> set q"
  shows "go_SplitN sep 3 (p @ sep # q @ sep # r) = [p, q, r]"
proof -
  have t: "takeWhile (\<lambda>c. c \<noteq> sep) (x @ sep # y) = x" "dropWhile (\<lambda>c. c \<noteq> sep) (x @ sep # y) = sep # y"
    if "sep \<notin> set x" for x y using that by (induction x) auto
  show ?thesis by (simp add: numeral_3_eq_3 t assms)
qed

lemma trim_padded: "s \<noteq> [] \<Longrightarrow> \<not> is_space (hd s) \<Longrightarrow> \<not> is_space (last s) \<Longrightarrow> go_TrimSpace ('' '' @ s) = s"
  by (cases s) (simp_all add: go_TrimSpace_def trim_both_def trim_left_def is_space_def trim_right_id)

lemma Itoa_ends: "\<not> is_space (hd (go_Itoa n))" "\<not> is_space (last (go_Itoa n))"
  using go_Itoa_no_space go_Itoa_not_Nil by (metis hd_in_set, metis last_in_set)

lemma TrimSuffix_none: "\<not> has_suffix s t \<Longrightarrow> go_TrimSuffix s t = s"
  by (simp add: go_TrimSuffix_def)

lemma Itoa_no_suffix: "\<not> has_suffix (go_Itoa n) '' MiB''" "\<not> has_suffix (go_Itoa n) ''MiB''"
  using go_Itoa_chars[of "CHR ''B''" n] by (auto simp: has_suffix_iff is_digit_def byte_of_def)

lemma Itoa_MiB: "\<not> has_suffix (go_Itoa n @ ''MiB'') '' MiB''"
proof
  assume "has_suffix (go_Itoa n @ ''MiB'') '' MiB''"
  then obtain p where "go_Itoa n @ ''MiB'' = (p @ '' '') @ ''MiB''" by (auto simp: has_suffix_iff)
  then have "go_Itoa n = p @ '' ''" by (simp only: append_same_eq)
  then show False using go_Itoa_no_space[of "CHR '' ''" n] by (simp add: is_space_def)
qed

lemma parse_vram_unit:
  assumes "unit \<in> {'''', '' MiB'', ''MiB''}"
  shows "parse_vram ('' '' @ go_Itoa n @ unit) = go_Itoa n"
proof -
  have trim: "go_TrimSpace ('' '' @ go_Itoa n @ unit) = go_Itoa n @ unit"
    using assms Itoa_ends go_Itoa_not_Nil by (intro trim_padded) (auto simp: hd_append is_space_def)
  have again: "go_TrimSpace (go_Itoa n) = go_Itoa n" by (simp add: go_TrimSpace_Itoa)
  show ?thesis
    using assms trim again Itoa_no_suffix[of n] Itoa_MiB[of n] go_TrimSuffix_append[of "go_Itoa n"]
    by (auto simp: parse_vram_def TrimSuffix_none)
qed

lemma parse_gpu_line:
  assumes "gpu_ok g" "unit \<in> {'''', '' MiB'', ''MiB''}"
  shows "parse_gpu (smi_line unit g) = Inr g"
proof -
  have m: "CHR '','' \<notin> set ('' '' @ g_Model g)" using assms(1) by (auto simp: gpu_ok_def list_all_iff)
  have "smi_line unit g = go_Itoa (g_Index g) @ CHR '','' # ('' '' @ g_Model g) @ CHR '','' # ('' '' @ go_Itoa (g_VRAMMB g) @ unit)"
    by (simp add: smi_line_def)
  then have parts: "go_SplitN (CHR '','') 3 (smi_line unit g) =
      [go_Itoa (g_Index g), '' '' @ g_Model g, '' '' @ go_Itoa (g_VRAMMB g) @ unit]"
    using SplitN_3[OF go_Itoa_no_comma m] by simp
  have ints: "fits_int 32 (g_Index g)" "fits_int 32 (g_VRAMMB g)" using assms(1) by (simp_all add: gpu_ok_def)
  then have "go_Atoi (go_Itoa (g_Index g)) = Some (g_Index g)" "go_Atoi (go_Itoa (g_VRAMMB g)) = Some (g_VRAMMB g)"
    by (simp_all add: go_Atoi_Itoa fits_int_32_64)
  moreover have "go_TrimSpace ('' '' @ g_Model g) = g_Model g" using assms(1) by (intro trim_padded) (simp_all add: gpu_ok_def)
  ultimately show ?thesis using ints parse_vram_unit[OF assms(2), of "g_VRAMMB g"]
    by (simp add: parse_gpu_def parts Let_def)
qed

lemma nat_dec_length: "n < 10 ^ k \<Longrightarrow> 0 < k \<Longrightarrow> length (nat_dec n) \<le> k"
proof (induction k arbitrary: n)
  case (Suc k)
  show ?case
  proof (cases "n < 10")
    case False
    then have "n div 10 < 10 ^ k" "0 < k" using Suc.prems by (auto simp: less_mult_imp_div_less) (cases k; simp)
    with Suc.IH have "length (nat_dec (n div 10)) \<le> k" by blast
    then show ?thesis using False by (subst nat_dec.simps) simp
  qed (simp add: nat_dec.simps)
qed simp

lemma Itoa_length:
  assumes "fits_int 32 n"
  shows "length (go_Itoa n) \<le> 11"
proof -
  have "nat n < 10 ^ 10" "nat (- n) < 10 ^ 10" using assms by (auto simp: fits_int_def)
  then have "length (nat_dec (nat n)) \<le> 10" "length (nat_dec (nat (- n))) \<le> 10"
    using nat_dec_length[of _ 10] by simp_all
  then show ?thesis by (auto simp: go_Itoa_def)
qed

lemma smi_line_short:
  "gpu_ok g \<Longrightarrow> unit \<in> {'''', '' MiB'', ''MiB''} \<Longrightarrow> length (smi_line unit g) < 65536"
  using Itoa_length[of "g_Index g"] Itoa_length[of "g_VRAMMB g"] by (auto simp: smi_line_def gpu_ok_def)

lemma smi_line_trimmed:
  assumes "unit \<in> {'''', '' MiB'', ''MiB''}"
  shows "go_TrimSpace (smi_line unit g) = smi_line unit g \<and> smi_line unit g \<noteq> []"
proof -
  have ne: "smi_line unit g \<noteq> []" by (simp add: smi_line_def)
  have "hd (smi_line unit g) = hd (go_Itoa (g_Index g))" using go_Itoa_not_Nil by (simp add: smi_line_def)
  then have "\<not> is_space (hd (smi_line unit g))" using Itoa_ends by simp
  moreover have "\<not> is_space (last (smi_line unit g))"
  proof (cases "unit = []")
    case True
    then have "last (smi_line unit g) = last (go_Itoa (g_VRAMMB g))" using go_Itoa_not_Nil by (simp add: smi_line_def)
    then show ?thesis using Itoa_ends by simp
  next
    case False
    then have "last (smi_line unit g) = CHR ''B''" using assms by (auto simp: smi_line_def)
    then show ?thesis by (simp add: is_space_def)
  qed
  ultimately show ?thesis using ne by (simp add: go_TrimSpace_id)
qed

lemma smi_line_chars:
  assumes "gpu_ok g" "unit \<in> {'''', '' MiB'', ''MiB''}" "c = CHR 0x0A \<or> c = CHR 0x0D"
  shows "c \<notin> set (smi_line unit g)"
proof -
  have "c \<notin> set (go_Itoa n)" for n
    using go_Itoa_chars[of c n] assms(3) by (auto simp: is_digit_def byte_of_def)
  moreover have "c \<notin> set unit" "c \<notin> set '', ''" using assms(2,3) by auto
  moreover have "c \<notin> set (g_Model g)" using assms(1,3) by (auto simp: gpu_ok_def list_all_iff)
  ultimately show ?thesis by (simp add: smi_line_def)
qed

lemma smi_parsed:
  assumes "list_all gpu_ok gpus" "unit \<in> {'''', '' MiB'', ''MiB''}"
  shows "ParseNvidiaSMI (text_of (map (smi_line unit) gpus)) = (gpus, None) \<and>
    Detect (Some (Inr (text_of (map (smi_line unit) gpus)))) = gpus"
proof -
  have "line_ok (smi_line unit g)" if "g \<in> set gpus" for g
    using that assms smi_line_short[OF _ assms(2)] smi_line_chars[OF _ assms(2)]
    by (simp add: line_ok_def list_all_iff)
  then have scan: "scan_lines (text_of (map (smi_line unit) gpus)) = (map (smi_line unit) gpus, None)"
    by (intro scan_text_of) (simp add: list_all_iff)
  note trim = smi_line_trimmed[OF assms(2)]
  have "parse_lines (map (smi_line unit) gpus) = Inr gpus"
    using assms(1) by (induction gpus) (simp_all add: trim parse_gpu_line[OF _ assms(2)])
  with scan show ?thesis by (simp add: ParseNvidiaSMI_def Detect_def)
qed

text \<open>C37: the inventory is read back: for GPUs whose numbers fit in 32 bits and whose model names have no comma
  and no surrounding space, what nvidia-smi prints for them, one line each, with or without units,
  is parsed to exactly these GPUs, and detection reports them.\<close>

theorem nvidia_smi_roundtrip:
  assumes "list_all gpu_ok gpus" "unit \<in> {'''', '' MiB'', ''MiB''}"
  shows "ParseNvidiaSMI (text_of (map (smi_line unit) gpus)) = (gpus, None) \<and>
    Detect (Some (Inr (text_of (map (smi_line unit) gpus)))) = gpus"
  using assms by (rule smi_parsed)

definition demo_gpus :: "GPU list" where
  "demo_gpus = [\<lparr>g_Index = 0, g_Model = ''NVIDIA A100-SXM4'', g_VRAMMB = 81920\<rparr>, \<lparr>g_Index = 1, g_Model = ''T4'', g_VRAMMB = 15360\<rparr>]"

lemma nvidia_smi_roundtrip_witness:
  "Detect (Some (Inr (text_of (map (smi_line '' MiB'') demo_gpus)))) = demo_gpus"
proof -
  have "list_all gpu_ok demo_gpus" by (simp add: demo_gpus_def gpu_ok_def fits_int_def is_space_def)
  then show ?thesis using nvidia_smi_roundtrip[of demo_gpus "'' MiB''"] by simp
qed

end
