(* ===== verification/ConfigFiles.thy ===== *)
theory ConfigFiles
  imports GoFiles Quoting
begin

text \<open>
  The two configuration files of the client: \<open>client.toml\<close>, written by \<open>flexctl login\<close> and read by
  every other command (\<open>clientconfig.go\<close>), and \<open>agent.toml\<close>, written by \<open>flexctl join\<close> (\<open>join.go\<close>)
  and read by \<open>flexctl agent\<close> (\<open>agent.go\<close>). The first is read with \<open>strconv.Unquote\<close>, the second by
  trimming quotation marks.
\<close>

subsection \<open>client.toml\<close>

record ClientConfig =
  ControlPlane :: gostring
  SessionCookie :: gostring
  DeviceName :: gostring
  DeviceHostname :: gostring
  HeadscaleURL :: gostring
  CC_TailnetDomain :: gostring

definition config_line :: "gostring \<Rightarrow> gostring \<Rightarrow> gostring" where
  "config_line key v = key @ '' = '' @ go_quote v"

definition client_config_lines :: "ClientConfig \<Rightarrow> gostring list" where
  "client_config_lines c =
     [config_line ''control_plane'' (ControlPlane c), config_line ''session_cookie'' (SessionCookie c),
      config_line ''device_name'' (DeviceName c), config_line ''device_hostname'' (DeviceHostname c),
      config_line ''headscale_url'' (HeadscaleURL c), config_line ''tailnet_domain'' (CC_TailnetDomain c)]"

definition WriteClientConfig :: "machine \<Rightarrow> gostring \<Rightarrow> ClientConfig \<Rightarrow> ('s client_world, unit) call" where
  "WriteClientConfig M path c =
     and_then (on_error (Wrap ''mkdir: '') (MkdirAll M (path_Dir path)))
       (\<lambda>_. WriteFile M path (text_of (client_config_lines c)))"

definition empty_config :: ClientConfig where
  "empty_config = \<lparr>ControlPlane = '''', SessionCookie = '''', DeviceName = '''', DeviceHostname = '''',
     HeadscaleURL = '''', CC_TailnetDomain = ''''\<rparr>"

definition set_client_key :: "gostring \<Rightarrow> gostring \<Rightarrow> ClientConfig \<Rightarrow> ClientConfig" where
  "set_client_key k v out =
     (if k = ''control_plane'' then out\<lparr>ControlPlane := v\<rparr>
      else if k = ''session_cookie'' then out\<lparr>SessionCookie := v\<rparr>
      else if k = ''device_name'' then out\<lparr>DeviceName := v\<rparr>
      else if k = ''device_hostname'' then out\<lparr>DeviceHostname := v\<rparr>
      else if k = ''headscale_url'' then out\<lparr>HeadscaleURL := v\<rparr>
      else if k = ''tailnet_domain'' then out\<lparr>CC_TailnetDomain := v\<rparr>
      else out)"

text \<open>A line's key and the text after its first equals sign, unless it is empty or a comment.\<close>

definition key_and_text :: "gostring \<Rightarrow> (gostring \<times> gostring) option" where
  "key_and_text line0 =
     (let line = go_TrimSpace line0
      in if line = '''' \<or> has_prefix line ''#'' then None
         else (case go_Index line ''='' of
                 None \<Rightarrow> None
               | Some eq \<Rightarrow> Some (go_TrimSpace (take eq line), go_TrimSpace (drop (eq + 1) line))))"

definition read_client_line :: "gostring \<Rightarrow> ClientConfig \<Rightarrow> ClientConfig" where
  "read_client_line line out =
     (case key_and_text line of
        None \<Rightarrow> out
      | Some (k, raw) \<Rightarrow> (case go_unquote raw of None \<Rightarrow> out | Some v \<Rightarrow> set_client_key k v out))"

text \<open>With the configuration read up to an error of the scanner.\<close>

definition ReadClientConfig :: "machine \<Rightarrow> gostring \<Rightarrow> ('s client_world, ClientConfig) call" where
  "ReadClientConfig M path =
     and_then (ReadFile M path) (\<lambda>contents.
       case scan_lines contents of (ls, err) \<Rightarrow>
         (case err of Some e \<Rightarrow> give_error e | None \<Rightarrow> give (fold read_client_line ls empty_config)))"

definition DefaultClientConfigPath :: "machine \<Rightarrow> gostring" where
  "DefaultClientConfigPath M =
     (if m_getenv M ''FLEXCTL_CLIENT_CONFIG'' \<noteq> '''' then m_getenv M ''FLEXCTL_CLIENT_CONFIG''
      else path_Join [m_home M, ''.config'', ''flexctl'', ''client.toml''])"

definition DefaultStateDir :: "machine \<Rightarrow> gostring" where
  "DefaultStateDir M =
     (if m_getenv M ''FLEXCTL_STATE_DIR'' \<noteq> '''' then m_getenv M ''FLEXCTL_STATE_DIR''
      else path_Join [m_home M, ''.config'', ''flexctl'', ''tsnet''])"

definition DefaultKnownHostsPath :: "machine \<Rightarrow> gostring" where
  "DefaultKnownHostsPath M = path_Join [m_home M, ''.config'', ''flexctl'', ''known_hosts'']"

definition cfgPathOrDefault :: "machine \<Rightarrow> gostring \<Rightarrow> gostring" where
  "cfgPathOrDefault M p = (if p \<noteq> '''' then p else DefaultClientConfigPath M)"

subsection \<open>agent.toml\<close>

record AgentConfig =
  ac_NodeID :: gostring
  ac_NodeToken :: gostring
  ac_ControlPlane :: gostring
  ac_GRPCAddress :: gostring

definition agent_config_lines :: "AgentConfig \<Rightarrow> gostring list" where
  "agent_config_lines cfg =
     [config_line ''node_id'' (ac_NodeID cfg), config_line ''node_token'' (ac_NodeToken cfg),
      config_line ''control_plane'' (ac_ControlPlane cfg), config_line ''grpc_address'' (ac_GRPCAddress cfg)]"

definition writeAgentConfig :: "machine \<Rightarrow> gostring \<Rightarrow> AgentConfig \<Rightarrow> ('s client_world, unit) call" where
  "writeAgentConfig M path cfg =
     and_then (on_error (Wrap ''mkdir: '') (MkdirAll M (path_Dir path)))
       (\<lambda>_. WriteFile M path (text_of (agent_config_lines cfg)))"

definition set_agent_key :: "gostring \<Rightarrow> gostring \<Rightarrow> AgentConfig \<Rightarrow> AgentConfig" where
  "set_agent_key k v cfg =
     (if k = ''node_id'' then cfg\<lparr>ac_NodeID := v\<rparr>
      else if k = ''node_token'' then cfg\<lparr>ac_NodeToken := v\<rparr>
      else if k = ''control_plane'' then cfg\<lparr>ac_ControlPlane := v\<rparr>
      else if k = ''grpc_address'' then cfg\<lparr>ac_GRPCAddress := v\<rparr>
      else cfg)"

definition read_agent_line :: "gostring \<Rightarrow> AgentConfig \<Rightarrow> AgentConfig" where
  "read_agent_line line cfg =
     (case key_and_text line of
        None \<Rightarrow> cfg
      | Some (k, val) \<Rightarrow> set_agent_key k (go_Trim val [CHR 0x22]) cfg)"

definition readAgentConfig :: "machine \<Rightarrow> gostring \<Rightarrow> ('s client_world, AgentConfig) call" where
  "readAgentConfig M path =
     and_then (on_error (Wrap (''read '' @ path @ '': '')) (ReadFile M path)) (\<lambda>data.
       let cfg = fold read_agent_line (go_Split (CHR 0x0A) data)
                   \<lparr>ac_NodeID = '''', ac_NodeToken = '''', ac_ControlPlane = '''', ac_GRPCAddress = ''''\<rparr>
       in if ac_NodeToken cfg = '''' then give_error (NewError ''config missing node_token'') else give cfg)"

definition defaultConfigPath :: "machine \<Rightarrow> gostring" where
  "defaultConfigPath M =
     (if m_getenv M ''FLEXCTL_CONFIG'' \<noteq> '''' then m_getenv M ''FLEXCTL_CONFIG'' else ''/etc/flexctl/agent.toml'')"

subsection \<open>Reading what was written\<close>

text \<open>The keys of the files: lower case letters and underscores.\<close>

definition is_key :: "gostring \<Rightarrow> bool" where
  "is_key k \<longleftrightarrow> k \<noteq> [] \<and> list_all (\<lambda>c. is_lower c \<or> c = CHR ''_'') k"

lemma key_chars: "is_key k \<Longrightarrow> c \<in> set k \<Longrightarrow> \<not> is_space c \<and> c \<noteq> CHR ''='' \<and> c \<noteq> CHR ''#'' \<and> c \<noteq> CHR 0x0A \<and> c \<noteq> CHR 0x0D"
  by (auto simp: is_key_def list_all_iff is_space_def is_lower_def byte_of_def)

lemma Index_char: "c \<notin> set p \<Longrightarrow> go_Index (p @ c # t) [c] = Some (length p)"
  by (induction p) (auto simp: has_prefix_def)

lemma key_and_text_line:
  assumes "is_key k"
  shows "key_and_text (config_line k v) = Some (k, go_quote v)"
proof -
  let ?l = "config_line k v"
  obtain c cs where k: "k = c # cs" using assms by (cases k) (auto simp: is_key_def)
  have quote: "\<not> is_space (CHR 0x22)" by (simp add: is_space_def)
  have l: "last ?l = CHR 0x22" "hd ?l = c" using quote_ends by (simp_all add: config_line_def k)
  have "\<not> is_space c" using key_chars[OF assms, of c] k by simp
  then have t: "go_TrimSpace ?l = ?l" using l quote by (intro go_TrimSpace_id) simp
  have h: "\<not> has_prefix ?l ''#''" using key_chars[OF assms, of c] by (simp add: config_line_def k has_prefix_def)
  have i: "go_Index ?l ''='' = Some (length (k @ '' ''))"
    using Index_char[of "CHR ''=''" "k @ '' ''" "'' '' @ go_quote v"] key_chars[OF assms] by (auto simp: config_line_def)
  have "go_TrimSpace (k @ '' '') = k"
  proof -
    have "trim_left is_space (k @ '' '') = k @ '' ''" using \<open>\<not> is_space c\<close> by (simp add: k)
    moreover have "trim_right is_space (k @ '' '') = trim_right is_space k" by (rule trim_right_append) (simp add: is_space_def)
    moreover have "trim_right is_space k = k" using key_chars[OF assms] by (intro trim_right_id) (auto simp: k)
    ultimately show ?thesis by (simp add: go_TrimSpace_def trim_both_def)
  qed
  moreover have "go_TrimSpace ('' '' @ go_quote v) = go_quote v"
  proof -
    have "trim_left is_space ('' '' @ go_quote v) = go_quote v"
      using quote by (simp add: trim_left_def go_quote_def is_space_def)
    moreover have "trim_right is_space (go_quote v) = go_quote v"
      using quote_ends quote by (intro trim_right_id) simp
    ultimately show ?thesis by (simp add: go_TrimSpace_def trim_both_def)
  qed
  ultimately show ?thesis using t h i by (simp add: key_and_text_def Let_def k config_line_def)
qed

lemma config_line_ok: "is_key k \<Longrightarrow> length (config_line k v) < 65536 \<Longrightarrow> line_ok (config_line k v)"
  using key_chars[of k] quote_no_newline[of v] by (auto simp: line_ok_def config_line_def)

lemma config_line_short: "length k + 4 * length v + 5 < n \<Longrightarrow> length (config_line k v) < n"
  using quote_length[of v] by (simp add: config_line_def)

lemma read_client_config_line: "is_key k \<Longrightarrow> read_client_line (config_line k v) out = set_client_key k v out"
  by (simp add: read_client_line_def key_and_text_line unquote_quote)

lemma client_keys: "is_key ''control_plane''" "is_key ''session_cookie''" "is_key ''device_name''" "is_key ''device_hostname''"
  "is_key ''headscale_url''" "is_key ''tailnet_domain''" "is_key ''node_id''" "is_key ''node_token''" "is_key ''grpc_address''"
  by (simp_all add: is_key_def is_lower_def byte_of_def)

lemma read_client_text:
  assumes "map_of (files w') path = Some (text_of (client_config_lines c))" and "m_fault M ''read'' path = None"
    and "list_all (\<lambda>l. length l < 65536) (client_config_lines c)"
  shows "ReadClientConfig M path w' = (Inr c, w')"
proof -
  have "scan_lines (text_of (client_config_lines c)) = (client_config_lines c, None)"
    using assms(3) by (intro scan_text_of) (simp add: client_config_lines_def config_line_ok client_keys)
  moreover have "fold read_client_line (client_config_lines c) empty_config = c"
    by (simp add: client_config_lines_def read_client_config_line client_keys) (simp add: set_client_key_def empty_config_def)
  ultimately show ?thesis using assms(1,2) by (simp add: ReadClientConfig_def ReadFile_def and_then_def give_def)
qed


text \<open>Values that need no escapes.\<close>

definition plain :: "gostring \<Rightarrow> bool" where
  "plain s \<longleftrightarrow> list_all (\<lambda>c. 32 \<le> byte_of c \<and> byte_of c \<noteq> 34 \<and> byte_of c \<noteq> 92 \<and> byte_of c \<noteq> 127) s"

lemma trim_quotes:
  assumes "plain s"
  shows "go_Trim (go_quote s) [CHR 0x22] = s"
proof -
  have "go_quote s = CHR 0x22 # s @ [CHR 0x22]" using assms by (intro quote_plain) (auto simp: plain_def list_all_iff)
  moreover have "CHR 0x22 \<notin> set s" using assms by (auto simp: plain_def list_all_iff byte_of_def)
  moreover have "trim_left (\<lambda>c. c = CHR 0x22) (s @ [CHR 0x22]) = (if s = [] then [] else s @ [CHR 0x22])"
    using calculation(2) by (cases s) (auto simp: trim_left_def)
  moreover have "s = [] \<or> last s \<noteq> CHR 0x22" using calculation(2) by (metis last_in_set)
  moreover have "trim_right (\<lambda>c. c = CHR 0x22) (s @ [CHR 0x22]) = s"
    using calculation(4) trim_right_append[of "[CHR 0x22]" "\<lambda>c. c = CHR 0x22" s]
      trim_right_id[of s "\<lambda>c. c = CHR 0x22"] by simp
  ultimately show ?thesis
    by (simp add: go_Trim_def trim_both_def) (simp add: trim_left_def trim_right_def)
qed

lemma read_agent_config_line: "is_key k \<Longrightarrow> plain v \<Longrightarrow> read_agent_line (config_line k v) cfg = set_agent_key k v cfg"
  by (simp add: read_agent_line_def key_and_text_line trim_quotes)

lemma read_written_agent_text:
  assumes "map_of (files w') path = Some (text_of (agent_config_lines cfg))" and "m_fault M ''read'' path = None"
    and "plain (ac_NodeID cfg)" "plain (ac_NodeToken cfg)" "plain (ac_ControlPlane cfg)" "plain (ac_GRPCAddress cfg)"
    and "ac_NodeToken cfg \<noteq> ''''"
  shows "readAgentConfig M path w' = (Inr cfg, w')"
proof -
  have "go_Split (CHR 0x0A) (text_of (agent_config_lines cfg)) = agent_config_lines cfg @ [[]]"
  proof -
    have "CHR 0x0A \<notin> set (config_line k v)" if "is_key k" for k v
      using key_chars[OF that] quote_no_newline[of v] by (auto simp: config_line_def)
    then show ?thesis by (simp add: agent_config_lines_def client_keys go_Split_sep)
  qed
  moreover have "fold read_agent_line (agent_config_lines cfg @ [[]])
      \<lparr>ac_NodeID = '''', ac_NodeToken = '''', ac_ControlPlane = '''', ac_GRPCAddress = ''''\<rparr> = cfg"
    using assms(3-6)
    by (simp add: agent_config_lines_def read_agent_config_line client_keys)
      (simp add: set_agent_key_def read_agent_line_def key_and_text_def)
  ultimately show ?thesis
    using assms(1,2,7) by (simp add: readAgentConfig_def ReadFile_def and_then_def on_error_def give_def Let_def)
qed

lemma read_written_agent:
  assumes "writeAgentConfig M path cfg w = (Inr u, w')" and "m_fault M ''read'' path = None"
    and "plain (ac_NodeID cfg)" "plain (ac_NodeToken cfg)" "plain (ac_ControlPlane cfg)" "plain (ac_GRPCAddress cfg)"
    and "ac_NodeToken cfg \<noteq> ''''"
  shows "readAgentConfig M path w' = (Inr cfg, w')"
proof -
  have "map_of (files w') path = Some (text_of (agent_config_lines cfg))"
    using assms(1) by (auto simp: writeAgentConfig_def call_iffs WriteFile_def update_conv' split: option.splits)
  then show ?thesis using assms(2-7) by (rule read_written_agent_text)
qed

text \<open>\<open>agent.toml\<close> round trip: a joined node finds its identity again. Values without quotation marks,
  backslashes and control bytes are read back as \<open>flexctl join\<close> wrote them, provided there is a token.\<close>

theorem agent_config_roundtrip:
  assumes "writeAgentConfig M path cfg w = (Inr u, w')" and "m_fault M ''read'' path = None"
    and "plain (ac_NodeID cfg)" "plain (ac_NodeToken cfg)" "plain (ac_ControlPlane cfg)" "plain (ac_GRPCAddress cfg)"
    and "ac_NodeToken cfg \<noteq> ''''"
  shows "readAgentConfig M path w' = (Inr cfg, w')"
  using assms by (rule read_written_agent)

subsection \<open>Examples\<close>

definition demo_client :: ClientConfig where
  "demo_client = \<lparr>ControlPlane = ''http://cp:8080'', SessionCookie = ''flex_session=a'' @ [CHR 0x22, CHR 0x0A],
     DeviceName = ''laptop'', DeviceHostname = ''ann-device-laptop'', HeadscaleURL = ''http://hs'', CC_TailnetDomain = ''flex''\<rparr>"

lemma write_at: "\<exists>w'. WriteClientConfig demo_machine ''/c'' demo_client (demo_disk []) = (Inr (), w')"
  "\<exists>w'. writeAgentConfig demo_machine ''/a'' acfg (demo_disk []) = (Inr (), w')"
  by (simp_all add: WriteClientConfig_def writeAgentConfig_def WriteFile_def MkdirAll_def demo_machine_def and_then_def on_error_def)


definition demo_agent_file :: AgentConfig where
  "demo_agent_file = \<lparr>ac_NodeID = ''9f2c'', ac_NodeToken = ''nt_abc'', ac_ControlPlane = ''http://cp:8080'', ac_GRPCAddress = ''cp:9090''\<rparr>"

lemma agent_config_roundtrip_witness:
  "\<exists>w'. writeAgentConfig demo_machine ''/a'' demo_agent_file (demo_disk []) = (Inr (), w') \<and>
     readAgentConfig demo_machine ''/a'' w' = (Inr demo_agent_file, w')"
proof -
  obtain w' where w: "writeAgentConfig demo_machine ''/a'' demo_agent_file (demo_disk []) = (Inr (), w')" using write_at(2) by blast
  have "m_fault demo_machine ''read'' ''/a'' = None" by (simp add: demo_machine_def)
  moreover have "plain (ac_NodeID demo_agent_file)" "plain (ac_NodeToken demo_agent_file)"
    "plain (ac_ControlPlane demo_agent_file)" "plain (ac_GRPCAddress demo_agent_file)" "ac_NodeToken demo_agent_file \<noteq> ''''"
    by code_simp+
  ultimately show ?thesis using agent_config_roundtrip[OF w] w by blast
qed

text \<open>A backslash is written as two and read as two: \<open>%q\<close> and \<open>strings.Trim\<close> are not inverse.\<close>

lemma agent_config_backslash:
  "go_Trim (go_quote [CHR ''a'', CHR 0x5C]) [CHR 0x22] = [CHR ''a'', CHR 0x5C, CHR 0x5C]"
  by (simp add: go_quote_def quote_char_def byte_of_def go_Trim_def trim_both_def trim_left_def trim_right_def)

end
