(* ===== verification/ApiClient.thy ===== *)
theory ApiClient
  imports ConfigFiles
begin

text \<open>
  \<open>flexctlcli/apiclient.go\<close>: the client of the control plane's HTTP interface. The network is a
  record: building a request can fail, a round trip takes method, URL, headers and body and gives an
  answer or an error, and the JSON decoders of the answers' types.
\<close>

record api_answer =
  an_code :: int
  an_status :: gostring
  an_cookies :: "(gostring \<times> gostring) list"
  an_body :: gostring

record MeResp =
  mr_ID :: gostring
  mr_Slug :: gostring
  mr_Email :: gostring

record PairDeviceResp =
  pd_DeviceID :: gostring
  pd_Hostname :: gostring
  pd_PreauthKey :: gostring
  pd_HeadscaleURL :: gostring
  pd_TailnetDomain :: gostring

record api_Device =
  ad_ID :: gostring
  ad_Name :: gostring
  ad_Hostname :: gostring

record SSHKey =
  sk_ID :: gostring
  sk_Name :: gostring
  sk_Fingerprint :: gostring
  sk_PublicKey :: gostring

record api_Env =
  ae_ID :: gostring
  ae_Name :: gostring
  ae_Hostname :: gostring
  ae_Status :: gostring
  ae_NodeID :: gostring

record 's network =
  net_request :: "gostring \<Rightarrow> gostring \<Rightarrow> go_error option"
  net_do :: "gostring \<Rightarrow> gostring \<Rightarrow> (gostring \<times> gostring) list \<Rightarrow> gostring option \<Rightarrow> 's \<Rightarrow> (go_error + api_answer) \<times> 's"
  dec_me :: "gostring \<Rightarrow> go_error + MeResp"
  dec_pair :: "gostring \<Rightarrow> go_error + PairDeviceResp"
  dec_devices :: "gostring \<Rightarrow> go_error + api_Device list"
  dec_key_id :: "gostring \<Rightarrow> go_error + gostring"
  dec_keys :: "gostring \<Rightarrow> go_error + SSHKey list"
  dec_envs :: "gostring \<Rightarrow> go_error + api_Env list"
  dec_joined :: "gostring \<Rightarrow> go_error + gostring \<times> gostring"

record APIClient =
  api_base :: gostring
  api_cookie :: gostring

definition NewAPIClient :: "gostring \<Rightarrow> gostring \<Rightarrow> APIClient" where
  "NewAPIClient base cook = \<lparr>api_base = base, api_cookie = cook\<rparr>"

text \<open>One round trip on the server at the other end.\<close>

definition net_call ::
  "'s network \<Rightarrow> gostring \<Rightarrow> gostring \<Rightarrow> (gostring \<times> gostring) list \<Rightarrow> gostring option \<Rightarrow> ('s client_world, api_answer) call" where
  "net_call N verb url headers content w =
     (case net_do N verb url headers content (server w) of (r, s) \<Rightarrow> (r, w\<lparr>server := s\<rparr>))"

text \<open>Without a value to decode into, the answer's body is left unread.\<close>

definition api_do ::
  "'s network \<Rightarrow> APIClient \<Rightarrow> gostring \<Rightarrow> gostring \<Rightarrow> json option \<Rightarrow> (gostring \<Rightarrow> go_error + 'a) \<Rightarrow>
   ('s client_world, api_answer \<times> 'a) call" where
  "api_do N c verb path inp decode =
     (case net_request N verb (api_base c @ path) of
        Some e \<Rightarrow> give_error (Wrap ''request: '' e)
      | None \<Rightarrow>
          and_then
            (on_error (Wrap ''do: '')
              (net_call N verb (api_base c @ path)
                ((if inp \<noteq> None then [(''Content-Type'', ''application/json'')] else []) @
                 (if api_cookie c \<noteq> '''' then [(''Cookie'', api_cookie c)] else []))
                (map_option json_compact inp)))
            (\<lambda>resp.
              if an_code resp \<ge> 400
              then give_error (NewError (verb @ '' '' @ path @ '': '' @ an_status resp @ '': '' @ an_body resp))
              else (case decode (an_body resp) of
                      Inl e \<Rightarrow> give_error (Wrap ''decode: '' e)
                    | Inr x \<Rightarrow> give (resp, x))))"

definition no_out :: "gostring \<Rightarrow> go_error + unit" where
  "no_out b = Inr ()"

definition api_get :: "'s network \<Rightarrow> APIClient \<Rightarrow> gostring \<Rightarrow> gostring \<Rightarrow> json option \<Rightarrow> (gostring \<Rightarrow> go_error + 'a) \<Rightarrow>
   ('s client_world, 'a) call" where
  "api_get N c verb path inp decode = and_then (api_do N c verb path inp decode) (\<lambda>(resp, x). give x)"

text \<open>The client with the session cookie, which it keeps.\<close>

definition api_Login :: "'s network \<Rightarrow> APIClient \<Rightarrow> gostring \<Rightarrow> gostring \<Rightarrow> ('s client_world, APIClient) call" where
  "api_Login N c email password =
     and_then (api_do N c ''POST'' ''/v1/auth/login''
                (Some (JObject [(''email'', JString email), (''password'', JString password)])) no_out)
       (\<lambda>(resp, _).
         case find (\<lambda>(name, value). name = ''flex_session'') (an_cookies resp) of
           Some (name, value) \<Rightarrow> give (c\<lparr>api_cookie := name @ ''='' @ value\<rparr>)
         | None \<Rightarrow> give_error (NewError ''no flex_session cookie in response''))"

definition api_Logout :: "'s network \<Rightarrow> APIClient \<Rightarrow> ('s client_world, unit) call" where
  "api_Logout N c = api_get N c ''POST'' ''/v1/auth/logout'' None no_out"

definition api_Me :: "'s network \<Rightarrow> APIClient \<Rightarrow> ('s client_world, MeResp) call" where
  "api_Me N c = api_get N c ''GET'' ''/v1/me'' None (dec_me N)"

definition api_PairDevice :: "'s network \<Rightarrow> APIClient \<Rightarrow> gostring \<Rightarrow> ('s client_world, PairDeviceResp) call" where
  "api_PairDevice N c name =
     api_get N c ''POST'' ''/v1/devices/pair'' (Some (JObject [(''name'', JString name)])) (dec_pair N)"

definition api_ListDevices :: "'s network \<Rightarrow> APIClient \<Rightarrow> ('s client_world, api_Device list) call" where
  "api_ListDevices N c = api_get N c ''GET'' ''/v1/devices'' None (dec_devices N)"

definition api_DeleteDevice :: "'s network \<Rightarrow> APIClient \<Rightarrow> gostring \<Rightarrow> ('s client_world, unit) call" where
  "api_DeleteDevice N c i = api_get N c ''DELETE'' (''/v1/devices/'' @ i) None no_out"

definition api_AddSSHKey :: "'s network \<Rightarrow> APIClient \<Rightarrow> gostring \<Rightarrow> gostring \<Rightarrow> ('s client_world, gostring) call" where
  "api_AddSSHKey N c name publicKey =
     api_get N c ''POST'' ''/v1/me/ssh-keys''
       (Some (JObject [(''name'', JString name), (''public_key'', JString publicKey)])) (dec_key_id N)"

definition api_ListSSHKeys :: "'s network \<Rightarrow> APIClient \<Rightarrow> ('s client_world, SSHKey list) call" where
  "api_ListSSHKeys N c = api_get N c ''GET'' ''/v1/me/ssh-keys'' None (dec_keys N)"

definition api_DeleteSSHKey :: "'s network \<Rightarrow> APIClient \<Rightarrow> gostring \<Rightarrow> ('s client_world, unit) call" where
  "api_DeleteSSHKey N c i = api_get N c ''DELETE'' (''/v1/me/ssh-keys/'' @ i) None no_out"

definition api_ListEnvs :: "'s network \<Rightarrow> APIClient \<Rightarrow> ('s client_world, api_Env list) call" where
  "api_ListEnvs N c = api_get N c ''GET'' ''/v1/envs'' None (dec_envs N)"

subsection \<open>A call leaves the machine alone\<close>

text \<open>What a call does not touch: files, output and time of the client's machine.\<close>

definition remote :: "('s client_world, 'a) call \<Rightarrow> bool" where
  "remote m \<longleftrightarrow> (\<forall>w. files (snd (m w)) = files w \<and> printed (snd (m w)) = printed w \<and> unix_time (snd (m w)) = unix_time w)"

named_theorems remote_intros \<open>calls that only talk to the server\<close>

lemma remote_basic [remote_intros]: "remote (give x)" "remote (give_error e)" "remote (net_call N verb url hs b)"
  by (simp_all add: remote_def give_def give_error_def net_call_def split: prod.split)

lemma remote_chain [remote_intros]:
  "remote m \<Longrightarrow> remote (on_error h m)" "remote m \<Longrightarrow> (\<And>a. remote (k a)) \<Longrightarrow> remote (and_then m k)"
  by (simp add: remote_def) (auto simp: remote_def and_then_def split: prod.split sum.split, (metis snd_conv)+)

lemma remote_api_do [remote_intros]: "remote (api_do N c verb path inp decode)"
  unfolding api_do_def by (auto split: option.split sum.split intro!: remote_intros)

lemma remote_api_get [remote_intros]: "remote (api_get N c verb path inp decode)"
  unfolding api_get_def by (auto intro!: remote_intros split: prod.split)

lemma remote_calls [remote_intros]:
  "remote (api_Login N c e p)" "remote (api_Logout N c)" "remote (api_Me N c)" "remote (api_PairDevice N c name)"
  "remote (api_ListDevices N c)" "remote (api_DeleteDevice N c i)" "remote (api_AddSSHKey N c name pk)"
  "remote (api_ListSSHKeys N c)" "remote (api_DeleteSSHKey N c i)" "remote (api_ListEnvs N c)"
  unfolding api_Login_def api_Logout_def api_Me_def api_PairDevice_def api_ListDevices_def api_DeleteDevice_def
    api_AddSSHKey_def api_ListSSHKeys_def api_DeleteSSHKey_def api_ListEnvs_def
  by (auto intro!: remote_intros split: prod.split option.split)

lemma remoteD: "remote m \<Longrightarrow> m w = (r, w') \<Longrightarrow> files w' = files w \<and> printed w' = printed w \<and> unix_time w' = unix_time w"
  unfolding remote_def by (metis snd_conv)

end
