(* ===== verification/SshConfig.thy ===== *)
theory SshConfig
  imports GoFiles
begin

text \<open>
  \<open>flexctlcli/sshconfig.go\<close>: the block that \<open>flexctl login\<close> keeps in the user's SSH configuration,
  inserted or replaced between two marker lines and removed by \<open>flexctl logout\<close>.
\<close>

definition sshBlockBegin :: gostring where
  "sshBlockBegin = ''# >>> flexctl >>>''"

definition sshBlockEnd :: gostring where
  "sshBlockEnd = ''# <<< flexctl <<<''"

record SSHConfigBlock =
  FlexctlBinary :: gostring
  KnownHosts :: gostring

definition renderBlock :: "SSHConfigBlock \<Rightarrow> gostring" where
  "renderBlock b = text_of
     [sshBlockBegin,
      ''# Managed by flexctl login. Do not edit between markers; changes will be overwritten.'',
      ''Host *.flex'',
      ''    User dev'',
      ''    ProxyCommand '' @ FlexctlBinary b @ '' proxy %h %p'',
      ''    ServerAliveInterval 30'',
      ''    ServerAliveCountMax 3'',
      ''    ConnectTimeout 30'',
      ''    StrictHostKeyChecking accept-new'',
      ''    UserKnownHostsFile '' @ KnownHosts b,
      sshBlockEnd]"

definition appendBlock :: "gostring \<Rightarrow> gostring \<Rightarrow> gostring" where
  "appendBlock existing block =
     existing @ (if existing \<noteq> [] \<and> \<not> has_suffix existing [CHR 0x0A] then [CHR 0x0A] else []) @
     (if existing \<noteq> [] then [CHR 0x0A] else []) @ block"

definition replaceBlock :: "gostring \<Rightarrow> gostring \<Rightarrow> gostring" where
  "replaceBlock existing replacement =
     (case go_Index existing sshBlockBegin of
        None \<Rightarrow> existing
      | Some beginIdx \<Rightarrow>
          (case go_Index (drop beginIdx existing) sshBlockEnd of
             None \<Rightarrow> existing
           | Some i \<Rightarrow>
               let endIdx = i + (beginIdx + length sshBlockEnd);
                   endIdx = (if endIdx < length existing \<and> existing ! endIdx = CHR 0x0A then endIdx + 1 else endIdx);
                   out = take beginIdx existing;
                   out = (if replacement \<noteq> '''' then out @ replacement
                          else if out \<noteq> [] \<and> last out = CHR 0x0A \<and> drop endIdx existing = [] then butlast out
                          else out)
               in go_TrimRight (out @ drop endIdx existing) [CHR 0x20, CHR 0x09]))"

definition backup_path :: "gostring \<Rightarrow> 's client_world \<Rightarrow> gostring" where
  "backup_path path w = path @ ''.flexctl-bak.'' @ go_Itoa (unix_time w)"

text \<open>Reading the file, where a missing one is an empty one.\<close>

definition read_existing :: "machine \<Rightarrow> gostring \<Rightarrow> ('s client_world, gostring) call" where
  "read_existing M path w =
     (case ReadFile M path w of
        (Inl err, w) \<Rightarrow> if err = os_ErrNotExist then (Inr '''', w) else (Inl (Wrap ''read: '' err), w)
      | (Inr existing, w) \<Rightarrow> (Inr existing, w))"

definition UpsertSSHConfig :: "machine \<Rightarrow> gostring \<Rightarrow> SSHConfigBlock \<Rightarrow> ('s client_world, unit) call" where
  "UpsertSSHConfig M path b =
     and_then (read_existing M path) (\<lambda>existing.
       let hadBlock = go_Contains existing sshBlockBegin;
           newBlock = renderBlock b
       in and_then
            (if existing \<noteq> '''' \<and> \<not> hadBlock
             then on_error (Wrap ''backup: '') (with_state (\<lambda>w. WriteFile M (backup_path path w) existing))
             else give ()) (\<lambda>_.
          let out = (if hadBlock then replaceBlock existing newBlock else appendBlock existing newBlock)
          in and_then (on_error (Wrap ''mkdir: '') (MkdirAll M (path_Dir path)))
               (\<lambda>_. WriteFile M path out)))"

definition RemoveSSHConfigBlock :: "machine \<Rightarrow> gostring \<Rightarrow> ('s client_world, unit) call" where
  "RemoveSSHConfigBlock M path w =
     (case ReadFile M path w of
        (Inl err, w) \<Rightarrow> if err = os_ErrNotExist then (Inr (), w) else (Inl (Wrap ''read: '' err), w)
      | (Inr existing, w) \<Rightarrow>
          if \<not> go_Contains existing sshBlockBegin then (Inr (), w)
          else and_then (on_error (Wrap ''backup: '') (WriteFile M (backup_path path w) existing))
                 (\<lambda>_. WriteFile M path (replaceBlock existing '''')) w)"

definition DefaultSSHConfigPath :: "machine \<Rightarrow> gostring" where
  "DefaultSSHConfigPath M = path_Join [m_home M, ''.ssh'', ''config'']"

subsection \<open>Searching line by line\<close>

text \<open>A marker without a newline lies on one side of every newline.\<close>

lemma contains_newline:
  assumes "n \<notin> set sub"
  shows "go_Contains (p @ n # t) sub \<longleftrightarrow> go_Contains p sub \<or> go_Contains t sub"
proof
  assume "go_Contains (p @ n # t) sub"
  then obtain a b where eq: "p @ n # t = a @ sub @ b" by (auto simp: go_Contains_iff)
  then consider us where "p = a @ us" "us @ n # t = sub @ b" | us where "p @ us = a" "n # t = us @ sub @ b"
    unfolding append_eq_append_conv2 by auto
  then show "go_Contains p sub \<or> go_Contains t sub"
  proof cases
    case 1
    then obtain vs where "us = sub @ vs \<or> us @ vs = sub \<and> n # t = vs @ b"
      unfolding append_eq_append_conv2 by auto
    then show ?thesis
    proof
      assume "us = sub @ vs"
      then show ?thesis using 1(1) go_Contains_iff by blast
    next
      assume v: "us @ vs = sub \<and> n # t = vs @ b"
      then have "vs = []" using assms by (cases vs) auto
      then have "p = a @ sub @ []" using 1(1) v by simp
      then show ?thesis using go_Contains_iff by blast
    qed
  next
    case 2
    then show ?thesis
    proof (cases us)
      case Nil
      then have "sub = []" using 2(2) assms by (cases sub) auto
      then show ?thesis by (auto simp: go_Contains_iff)
    next
      case (Cons x xs)
      then have "t = xs @ sub @ b" using 2(2) by simp
      then show ?thesis using go_Contains_iff by blast
    qed
  qed
next
  assume "go_Contains p sub \<or> go_Contains t sub"
  then show "go_Contains (p @ n # t) sub"
  proof
    assume "go_Contains p sub"
    then obtain a b where "p = a @ sub @ b" by (auto simp: go_Contains_iff)
    then have "p @ n # t = a @ sub @ (b @ n # t)" by simp
    then show ?thesis using go_Contains_iff by blast
  next
    assume "go_Contains t sub"
    then obtain a b where "t = a @ sub @ b" by (auto simp: go_Contains_iff)
    then have "p @ n # t = (p @ n # a) @ sub @ b" by simp
    then show ?thesis using go_Contains_iff by blast
  qed
qed

lemma Index_newline:
  assumes "n \<notin> set sub" "\<not> go_Contains p sub"
  shows "go_Index (p @ n # sub @ t) sub = Some (Suc (length p))"
  using assms(2)
proof (induction p)
  case Nil
  have "sub \<noteq> []" using Nil by (auto simp: go_Contains_iff)
  then have "\<not> has_prefix (n # sub @ t) sub" using assms(1) by (cases sub) (auto simp: has_prefix_def)
  then show ?case by (simp add: go_Index_prefix)
next
  case (Cons c p)
  have "\<not> has_prefix ((c # p) @ n # sub @ t) sub"
  proof
    assume "has_prefix ((c # p) @ n # sub @ t) sub"
    then obtain b where eq: "(c # p) @ n # (sub @ t) = sub @ b" by (auto simp: has_prefix_iff)
    then obtain us where "c # p = sub @ us \<or> (c # p) @ us = sub \<and> n # sub @ t = us @ b"
      unfolding append_eq_append_conv2 by auto
    then show False
    proof
      assume "c # p = sub @ us"
      then have "c # p = [] @ sub @ us" by simp
      then show False using Cons.prems go_Contains_iff by blast
    next
      assume u: "(c # p) @ us = sub \<and> n # sub @ t = us @ b"
      then have "us = []" using assms(1) by (cases us) auto
      then have "c # p = [] @ sub @ []" using u by simp
      then show False using Cons.prems go_Contains_iff by blast
    qed
  qed
  moreover have "\<not> go_Contains p sub"
  proof
    assume "go_Contains p sub"
    then obtain a b where "p = a @ sub @ b" by (auto simp: go_Contains_iff)
    then have "c # p = (c # a) @ sub @ b" by simp
    then show False using Cons.prems go_Contains_iff by blast
  qed
  ultimately show ?case using Cons.IH by simp
qed

lemma contains_char: "c \<in> set sub \<Longrightarrow> c \<notin> set s \<Longrightarrow> \<not> go_Contains s sub"
  by (auto simp: go_Contains_iff)

end
