(* ===== verification/ClientCommands.thy ===== *)
theory ClientCommands
  imports ApiClient SshConfig Names
begin

text \<open>
  The commands of \<open>flexctl\<close> (\<open>flexctlcli/\<close>): login, logout, join, key, env list, ssh and proxy. Their
  flags are arguments; what they print is the world's output. The terminal, the embedded tailnet
  node and the parser of SSH keys are a record.
\<close>

record 's peripherals =
  read_line :: "go_error + gostring"
  read_password :: "go_error + gostring"
  ts_Start :: "gostring \<Rightarrow> gostring \<Rightarrow> gostring \<Rightarrow> gostring \<Rightarrow> 's \<Rightarrow> (go_error + unit) \<times> 's"
  ts_Up :: "'s \<Rightarrow> (go_error + unit) \<times> 's"
  ts_Close :: "'s \<Rightarrow> 's"
  ts_Dial :: "gostring \<Rightarrow> 's \<Rightarrow> (go_error + unit) \<times> 's"
  ts_copies :: "'s \<Rightarrow> (go_error option \<times> go_error option) \<times> 's"
  ssh_fingerprint :: "gostring \<Rightarrow> gostring option"

subsection \<open>The embedded tailnet node\<close>

text \<open>
  \<open>flextsnet/server.go\<close> over the library's node: \<open>Start\<close> with its state directory, host name, key and
  control URL closes a node that does not come up. \<open>ts_copies\<close> gives the errors of the two copies of
  a connection in the order in which they end.
\<close>

definition on_server :: "('s \<Rightarrow> 'r \<times> 's) \<Rightarrow> 's client_world \<Rightarrow> 'r \<times> 's client_world" where
  "on_server f w = (case f (server w) of (r, s) \<Rightarrow> (r, w\<lparr>server := s\<rparr>))"

definition close_tsnet :: "'s peripherals \<Rightarrow> 's client_world \<Rightarrow> 's client_world" where
  "close_tsnet D w = w\<lparr>server := ts_Close D (server w)\<rparr>"

definition start_tsnet ::
  "'s peripherals \<Rightarrow> gostring \<Rightarrow> gostring \<Rightarrow> gostring \<Rightarrow> gostring \<Rightarrow> ('s client_world, unit) call" where
  "start_tsnet D dir hostname key url w =
     (case on_server (ts_Start D dir hostname key url) w of
        (Inl e, w) \<Rightarrow> (Inl (Wrap ''tsnet start: '' e), w)
      | (Inr _, w) \<Rightarrow>
          (case on_server (ts_Up D) w of
             (Inl e, w) \<Rightarrow> (Inl (Wrap ''tsnet up: '' e), close_tsnet D w)
           | (Inr _, w) \<Rightarrow> (Inr (), w)))"

definition join_host_port :: "gostring \<Rightarrow> gostring \<Rightarrow> gostring" where
  "join_host_port host port =
     (if CHR '':'' \<in> set host then ''['' @ host @ '']:'' @ port else host @ '':'' @ port)"

definition dial_tsnet :: "'s peripherals \<Rightarrow> gostring \<Rightarrow> gostring \<Rightarrow> ('s client_world, unit) call" where
  "dial_tsnet D host port = on_server (ts_Dial D (join_host_port host port))"

definition io_EOF :: go_error where
  "io_EOF = Sentinel ''EOF''"

definition net_ErrClosed :: go_error where
  "net_ErrClosed = Sentinel ''use of closed network connection''"

text \<open>The end of a session is no error.\<close>

definition Pipe :: "'s peripherals \<Rightarrow> ('s client_world, unit) call" where
  "Pipe D w =
     (case on_server (ts_copies D) w of
        ((None, _), w) \<Rightarrow> (Inr (), w)
      | ((Some err, _), w) \<Rightarrow>
          if errors_Is err io_EOF \<or> errors_Is err net_ErrClosed then (Inr (), w) else (Inl err, w))"

definition print :: "gostring \<Rightarrow> ('s client_world, unit) call" where
  "print s = say s"

text \<open>A check mark in UTF-8.\<close>

definition tick :: gostring where
  "tick = [CHR 0xE2, CHR 0x9C, CHR 0x93, CHR '' '']"

definition print_all :: "gostring list \<Rightarrow> ('s client_world, unit) call" where
  "print_all ls w = (Inr (), w\<lparr>printed := printed w @ ls\<rparr>)"

subsection \<open>login\<close>

definition promptCreds :: "'s peripherals \<Rightarrow> gostring \<Rightarrow> go_error + gostring \<times> gostring" where
  "promptCreds D email =
     (case (if email = '''' then (case read_line D of Inl e \<Rightarrow> Inl e | Inr e \<Rightarrow> Inr (go_TrimSpace e)) else Inr email) of
        Inl e \<Rightarrow> Inl e
      | Inr email \<Rightarrow> (case read_password D of Inl e \<Rightarrow> Inl e | Inr pw \<Rightarrow> Inr (email, pw)))"

definition sanitizeDeviceName :: "gostring \<Rightarrow> gostring" where
  "sanitizeDeviceName s0 =
     (let out = filter name_char (go_ToLower s0)
      in if length out < 2 \<or> hd out = CHR ''-'' \<or> last out = CHR ''-'' then ''device'' else out)"

definition keytypeFromBasename :: "gostring \<Rightarrow> gostring" where
  "keytypeFromBasename name =
     (if go_Contains name ''ed25519'' then ''ed25519''
      else if go_Contains name ''ecdsa'' then ''ecdsa''
      else if go_Contains name ''rsa'' then ''rsa'' else ''key'')"

definition key_candidates :: "machine \<Rightarrow> gostring list" where
  "key_candidates M = map (\<lambda>f. path_Join [m_home M, ''.ssh'', f]) [''id_ed25519.pub'', ''id_rsa.pub'', ''id_ecdsa.pub'']"

text \<open>The key files in turn: an unreadable, malformed or known one is passed over, a failed upload ends it.\<close>

fun upload_keys ::
  "machine \<Rightarrow> 's network \<Rightarrow> 's peripherals \<Rightarrow> APIClient \<Rightarrow> gostring list \<Rightarrow> gostring list \<Rightarrow> ('s client_world, unit) call" where
  "upload_keys M N D c known [] w = (Inr (), w)"
| "upload_keys M N D c known (p # ps) w =
     (case ReadFile M p w of
        (Inl _, w) \<Rightarrow> upload_keys M N D c known ps w
      | (Inr data, w) \<Rightarrow>
          (let pub = go_TrimSpace data
           in case ssh_fingerprint D pub of
                None \<Rightarrow> upload_keys M N D c known ps w
              | Some fp \<Rightarrow>
                  if fp \<in> set known then upload_keys M N D c known ps w
                  else (case api_AddSSHKey N c (m_hostname M @ ''-'' @ keytypeFromBasename (path_Base p)) pub w of
                          (Inl err, w) \<Rightarrow> (Inl (Wrap (''upload '' @ p @ '': '') err), w)
                        | (Inr _, w) \<Rightarrow> upload_keys M N D c known ps w)))"

definition autoUploadKeys ::
  "machine \<Rightarrow> 's network \<Rightarrow> 's peripherals \<Rightarrow> APIClient \<Rightarrow> ('s client_world, unit) call" where
  "autoUploadKeys M N D c =
     and_then (api_ListSSHKeys N c) (\<lambda>existing. upload_keys M N D c (map sk_Fingerprint existing) (key_candidates M))"

text \<open>\<open>FLEXCTL_STATE_DIR\<close> and \<open>FLEXCTL_SSH_CONFIG\<close> override the paths.\<close>

definition state_dir :: "machine \<Rightarrow> gostring" where
  "state_dir M = (if m_getenv M ''FLEXCTL_STATE_DIR'' \<noteq> '''' then m_getenv M ''FLEXCTL_STATE_DIR'' else DefaultStateDir M)"

definition ssh_config_path :: "machine \<Rightarrow> gostring" where
  "ssh_config_path M =
     (if m_getenv M ''FLEXCTL_SSH_CONFIG'' = '''' then DefaultSSHConfigPath M else m_getenv M ''FLEXCTL_SSH_CONFIG'')"

record login_flags =
  lf_controlPlane :: gostring
  lf_email :: gostring
  lf_password :: gostring
  lf_deviceName :: gostring
  lf_cfgPath :: gostring

definition known_control_plane :: "machine \<Rightarrow> gostring \<Rightarrow> gostring \<Rightarrow> ('s client_world, gostring) call" where
  "known_control_plane M cfgPath given w =
     (if given \<noteq> '''' then (Inr given, w)
      else (case ReadClientConfig M cfgPath w of
              (Inl _, w) \<Rightarrow> (Inr '''', w)
            | (Inr existing, w) \<Rightarrow> (Inr (ControlPlane existing), w)))"

definition join_tailnet :: "machine \<Rightarrow> 's peripherals \<Rightarrow> PairDeviceResp \<Rightarrow> ('s client_world, unit) call" where
  "join_tailnet M D pair =
     (if m_getenv M ''FLEXCTL_SKIP_TSNET'' \<noteq> ''1''
      then and_then (on_error (Wrap ''state dir: '') (MkdirAll M (state_dir M)))
             (\<lambda>_. and_then (on_error (Wrap ''tsnet up: '')
               (start_tsnet D (state_dir M) (pd_Hostname pair) (pd_PreauthKey pair) (pd_HeadscaleURL pair)))
             (\<lambda>_ w. print (tick @ ''joined tailnet'') (close_tsnet D w)))
      else give ())"

definition login_block :: "machine \<Rightarrow> SSHConfigBlock" where
  "login_block M = \<lparr>FlexctlBinary = m_executable M, KnownHosts = DefaultKnownHostsPath M\<rparr>"

definition login_config :: "gostring \<Rightarrow> gostring \<Rightarrow> gostring \<Rightarrow> PairDeviceResp \<Rightarrow> ClientConfig" where
  "login_config controlPlane cook deviceName pair =
     \<lparr>ControlPlane = controlPlane, SessionCookie = cook, DeviceName = deviceName, DeviceHostname = pd_Hostname pair,
      HeadscaleURL = pd_HeadscaleURL pair, CC_TailnetDomain = pd_TailnetDomain pair\<rparr>"

text \<open>A failed upload is a warning.\<close>

definition upload_or_warn ::
  "machine \<Rightarrow> 's network \<Rightarrow> 's peripherals \<Rightarrow> APIClient \<Rightarrow> ('s client_world, unit) call" where
  "upload_or_warn M N D c w =
     (case autoUploadKeys M N D c w of
        (Inl err, w) \<Rightarrow> print (''warning: key upload: '' @ error_text err) w
      | (Inr _, w) \<Rightarrow> (Inr (), w))"

text \<open>The part of login that talks to the control plane, and the part that sets up the machine.\<close>

definition login_session ::
  "machine \<Rightarrow> 's network \<Rightarrow> 's peripherals \<Rightarrow> gostring \<Rightarrow> gostring \<Rightarrow> gostring \<Rightarrow> gostring \<Rightarrow>
   ('s client_world, gostring \<times> PairDeviceResp) call" where
  "login_session M N D controlPlane email password deviceName =
     and_then (on_error (Wrap ''login: '') (api_Login N (NewAPIClient controlPlane '''') email password)) (\<lambda>c.
     and_then (print (tick @ ''session established'')) (\<lambda>_.
     and_then (upload_or_warn M N D c) (\<lambda>_.
     and_then (on_error (Wrap ''pair device: '') (api_PairDevice N c deviceName)) (\<lambda>pair.
     and_then (print (tick @ ''device paired as '' @ pd_Hostname pair)) (\<lambda>_. give (api_cookie c, pair))))))"

definition login_setup ::
  "machine \<Rightarrow> 's peripherals \<Rightarrow> gostring \<Rightarrow> gostring \<Rightarrow> gostring \<Rightarrow> gostring \<times> PairDeviceResp \<Rightarrow> ('s client_world, unit) call" where
  "login_setup M D cfgPath controlPlane deviceName = (\<lambda>(cook, pair).
     and_then (join_tailnet M D pair) (\<lambda>_.
     and_then (on_error (Wrap ''ssh config: '') (UpsertSSHConfig M (ssh_config_path M) (login_block M))) (\<lambda>_.
     and_then (print (tick @ ''~/.ssh/config updated'')) (\<lambda>_.
     and_then (on_error (Wrap ''write config: '')
       (WriteClientConfig M cfgPath (login_config controlPlane cook deviceName pair))) (\<lambda>_.
     print ''Done. Try: flexctl env list'')))))"

definition login_cmd :: "machine \<Rightarrow> 's network \<Rightarrow> 's peripherals \<Rightarrow> login_flags \<Rightarrow> ('s client_world, unit) call" where
  "login_cmd M N D fl =
     (let cfgPath = cfgPathOrDefault M (lf_cfgPath fl)
      in and_then (known_control_plane M cfgPath (lf_controlPlane fl)) (\<lambda>controlPlane.
           if controlPlane = '''' then give_error (NewError ''--control-plane is required on first login'')
           else (case (if lf_email fl = '''' \<or> lf_password fl = '''' then promptCreds D (lf_email fl)
                       else Inr (lf_email fl, lf_password fl)) of
                   Inl err \<Rightarrow> give_error err
                 | Inr (email, password) \<Rightarrow>
                     (let deviceName = (if lf_deviceName fl = '''' then sanitizeDeviceName (m_hostname M) else lf_deviceName fl)
                      in and_then (login_session M N D controlPlane email password deviceName)
                           (login_setup M D cfgPath controlPlane deviceName)))))"

subsection \<open>logout\<close>

text \<open>A step whose error is ignored.\<close>

definition attempt :: "('s, 'a) call \<Rightarrow> 's \<Rightarrow> 's" where
  "attempt m s = snd (m s)"

definition logout_cmd :: "machine \<Rightarrow> 's network \<Rightarrow> gostring \<Rightarrow> ('s client_world, unit) call" where
  "logout_cmd M N given w =
     (let cfgPath = cfgPathOrDefault M given
      in case ReadClientConfig M cfgPath w of
           (Inl err, w) \<Rightarrow> if err = os_ErrNotExist then print ''already logged out'' w else (Inl err, w)
         | (Inr cfg, w) \<Rightarrow>
             (let c = NewAPIClient (ControlPlane cfg) (SessionCookie cfg);
                  (r, w) = api_ListDevices N c w;
                  devs = (case r of Inl _ \<Rightarrow> [] | Inr devs \<Rightarrow> devs);
                  w = fold (\<lambda>d w. if ad_Hostname d = DeviceHostname cfg then attempt (api_DeleteDevice N c (ad_ID d)) w else w) devs w;
                  w = attempt (api_Logout N c) w;
                  w = attempt (RemoveAll M (state_dir M)) w;
                  w = attempt (RemoveSSHConfigBlock M (ssh_config_path M)) w;
                  w = attempt (os_Remove M cfgPath) w
              in print ''Logged out.'' w))"

subsection \<open>join\<close>

definition join_cmd ::
  "machine \<Rightarrow> 's network \<Rightarrow> gostring \<Rightarrow> gostring \<Rightarrow> gostring \<Rightarrow> gostring \<Rightarrow> gostring \<Rightarrow> ('s client_world, unit) call" where
  "join_cmd M N name0 controlPlane grpcAddr configPath token =
     (let name = (if name0 = '''' then m_hostname M else name0);
          url = controlPlane @ ''/v1/nodes/pair''
      in if name = '''' then give_error (NewError ''--name is required (and hostname could not be detected)'')
         else if controlPlane = '''' then give_error (NewError ''--control-plane is required'')
         else (case net_request N ''POST'' url of
                 Some e \<Rightarrow> give_error (Wrap ''build request: '' e)
               | None \<Rightarrow>
                   and_then
                     (on_error (Wrap ''call control-plane: '')
                       (net_call N ''POST'' url [(''Content-Type'', ''application/json'')]
                         (Some (json_compact (JObject
                           [(''gpu_info'', JArray []), (''name'', JString name), (''token'', JString token)])))))
                     (\<lambda>resp.
                        if an_code resp \<noteq> 201 then give_error (NewError (''pair failed: '' @ an_status resp))
                        else (case dec_joined N (an_body resp) of
                                Inl e \<Rightarrow> give_error (Wrap ''decode response: '' e)
                              | Inr (nodeID, nodeToken) \<Rightarrow>
                                  and_then
                                    (on_error (Wrap ''write config: '')
                                      (writeAgentConfig M configPath
                                        \<lparr>ac_NodeID = nodeID, ac_NodeToken = nodeToken,
                                         ac_ControlPlane = controlPlane, ac_GRPCAddress = grpcAddr\<rparr>))
                                    (\<lambda>_. print_all [''Paired as '' @ name @ '' (node_id='' @ nodeID @ '')'', ''Config: '' @ configPath,
                                       ''Next: run `flexctl agent` (and see README for systemd unit).''])))))"

subsection \<open>key and env list\<close>

definition key_add ::
  "machine \<Rightarrow> 's network \<Rightarrow> (go_error + gostring) \<Rightarrow> gostring \<Rightarrow> gostring \<Rightarrow> gostring \<Rightarrow> ('s client_world, unit) call" where
  "key_add M N stdin name0 cfgPath arg =
     and_then (on_error (\<lambda>e. WrapSuffix (Wrap ''read config: '' e) '' (try `flexctl login`)'')
                (ReadClientConfig M (cfgPathOrDefault M cfgPath))) (\<lambda>cfg.
     and_then (on_error (Wrap ''read key: '')
                (if arg = ''-'' then (case stdin of Inl e \<Rightarrow> give_error e | Inr data \<Rightarrow> give data) else ReadFile M arg)) (\<lambda>data.
     and_then (api_AddSSHKey N (NewAPIClient (ControlPlane cfg) (SessionCookie cfg))
                (if name0 = '''' then m_hostname M else name0) (go_TrimSpace data)) print))"

definition key_list :: "machine \<Rightarrow> 's network \<Rightarrow> gostring \<Rightarrow> ('s client_world, unit) call" where
  "key_list M N cfgPath =
     and_then (ReadClientConfig M (cfgPathOrDefault M cfgPath)) (\<lambda>cfg.
     and_then (api_ListSSHKeys N (NewAPIClient (ControlPlane cfg) (SessionCookie cfg))) (\<lambda>ks.
       print_all (map (\<lambda>k. sk_ID k @ [CHR 0x09] @ sk_Name k @ [CHR 0x09] @ sk_Fingerprint k) ks)))"

definition key_rm :: "machine \<Rightarrow> 's network \<Rightarrow> gostring \<Rightarrow> gostring \<Rightarrow> ('s client_world, unit) call" where
  "key_rm M N cfgPath keyID =
     and_then (ReadClientConfig M (cfgPathOrDefault M cfgPath))
       (\<lambda>cfg. api_DeleteSSHKey N (NewAPIClient (ControlPlane cfg) (SessionCookie cfg)) keyID)"

text \<open>The rows of the table before \<open>tabwriter\<close> aligns its columns.\<close>

definition env_list :: "machine \<Rightarrow> 's network \<Rightarrow> gostring \<Rightarrow> ('s client_world, unit) call" where
  "env_list M N cfgPath =
     and_then (ReadClientConfig M (cfgPathOrDefault M cfgPath)) (\<lambda>cfg.
     and_then (api_ListEnvs N (NewAPIClient (ControlPlane cfg) (SessionCookie cfg))) (\<lambda>es.
       print_all (map (go_Join [CHR 0x09]) ([''NAME'', ''HOSTNAME'', ''STATUS'', ''NODE''] #
         map (\<lambda>e. [ae_Name e, ae_Hostname e, ae_Status e, ae_NodeID e]) es))))"

subsection \<open>ssh and proxy\<close>

definition BuildSSHArgs ::
  "machine \<Rightarrow> 's network \<Rightarrow> gostring \<Rightarrow> gostring \<Rightarrow> gostring \<Rightarrow> gostring list \<Rightarrow> ('s client_world, gostring list) call" where
  "BuildSSHArgs M N cfgPath selfPath envName extra =
     and_then (on_error (Wrap ''read config: '') (ReadClientConfig M (cfgPathOrDefault M cfgPath))) (\<lambda>cfg.
     and_then (api_ListEnvs N (NewAPIClient (ControlPlane cfg) (SessionCookie cfg))) (\<lambda>es.
       let target = (case find (\<lambda>e. ae_Name e = envName) es of
                       Some e \<Rightarrow> e
                     | None \<Rightarrow> \<lparr>ae_ID = '''', ae_Name = '''', ae_Hostname = '''', ae_Status = '''', ae_NodeID = ''''\<rparr>)
       in if ae_ID target = '''' then give_error (NewError (''env '' @ go_quote envName @ '' not found''))
          else if ae_Status target \<noteq> ''running''
          then give_error (NewError (''env '' @ go_quote envName @ '' is '' @ ae_Status target @ '' (must be running)''))
          else give
            ([''-o'', ''ProxyCommand='' @ selfPath @ '' proxy %h %p'',
              ''-o'', ''UserKnownHostsFile='' @ DefaultKnownHostsPath M,
              ''-o'', ''StrictHostKeyChecking=accept-new'',
              ''-o'', ''ConnectTimeout=30'',
              ''dev@'' @ ae_Hostname target @ ''.flex''] @ extra)))"

definition NormalizeProxyHost :: "gostring \<Rightarrow> gostring" where
  "NormalizeProxyHost h = go_TrimSuffix h ''.flex''"

text \<open>Two attempts five seconds apart; \<open>cancelled\<close> is the context's error during the pause.\<close>

definition startWithRetry ::
  "machine \<Rightarrow> 's peripherals \<Rightarrow> go_error option \<Rightarrow> ClientConfig \<Rightarrow> ('s client_world, unit) call" where
  "startWithRetry M D cancelled cfg w =
     (let start = start_tsnet D (state_dir M) (DeviceHostname cfg) '''' (HeadscaleURL cfg)
      in case start w of
           (Inr _, w) \<Rightarrow> (Inr (), w)
         | (Inl _, w) \<Rightarrow>
             (case cancelled of
                Some e \<Rightarrow> (Inl e, w)
              | None \<Rightarrow>
                  on_error (Wrap ''tsnet start (another flexctl proxy may be initializing): '') start
                    (w\<lparr>unix_time := unix_time w + 5\<rparr>)))"

text \<open>The node is closed however the session ends.\<close>

definition proxy_cmd ::
  "machine \<Rightarrow> 's peripherals \<Rightarrow> go_error option \<Rightarrow> gostring \<Rightarrow> gostring \<Rightarrow> gostring \<Rightarrow> ('s client_world, unit) call" where
  "proxy_cmd M D cancelled cfgPath arg port =
     and_then (on_error (\<lambda>e. WrapSuffix (Wrap ''read config: '' e) '' (run `flexctl login`)'')
                (ReadClientConfig M (cfgPathOrDefault M cfgPath))) (\<lambda>cfg.
       let host = NormalizeProxyHost arg
       in and_then (startWithRetry M D cancelled cfg) (\<lambda>_ w.
            case and_then (on_error (Wrap (''dial '' @ host @ '':'' @ port @ '': '')) (dial_tsnet D host port)) (\<lambda>_. Pipe D) w of
              (r, w) \<Rightarrow> (r, close_tsnet D w)))"

end
