(* ===== verification/SshConfigProperties.thy ===== *)
theory SshConfigProperties
  imports SshConfig
begin

text \<open>
  What \<open>flexctl login\<close> and \<open>flexctl logout\<close> do to the user's SSH configuration: the block is inserted
  once, replaced on later logins and removed again, and everything else in the file stays.
\<close>

subsection \<open>The block in a text\<close>

definition nl :: char where
  "nl = CHR 0x0A"

definition block_lines :: "SSHConfigBlock \<Rightarrow> gostring list" where
  "block_lines b =
     [''# Managed by flexctl login. Do not edit between markers; changes will be overwritten.'',
      ''Host *.flex'', ''    User dev'',
      ''    ProxyCommand '' @ FlexctlBinary b @ '' proxy %h %p'',
      ''    ServerAliveInterval 30'', ''    ServerAliveCountMax 3'', ''    ConnectTimeout 30'',
      ''    StrictHostKeyChecking accept-new'', ''    UserKnownHostsFile '' @ KnownHosts b]"

definition on_lines :: "gostring list \<Rightarrow> gostring" where
  "on_lines ls = concat (map (\<lambda>l. nl # l) ls)"

lemma text_of_on_lines: "nl # text_of ls = on_lines ls @ [nl]"
  by (induction ls) (simp_all add: on_lines_def nl_def)

lemma render_parts: "renderBlock b = sshBlockBegin @ on_lines (block_lines b) @ nl # sshBlockEnd @ [nl]"
proof -
  have "renderBlock b = text_of (sshBlockBegin # block_lines b @ [sshBlockEnd])"
    by (simp add: renderBlock_def block_lines_def)
  also have "\<dots> = sshBlockBegin @ (nl # text_of (block_lines b)) @ sshBlockEnd @ [nl]"
    by (simp add: text_of_def nl_def)
  also have "\<dots> = sshBlockBegin @ on_lines (block_lines b) @ nl # sshBlockEnd @ [nl]"
    unfolding text_of_on_lines by simp
  finally show ?thesis .
qed

lemma markers_one_line: "nl \<notin> set sshBlockBegin" "nl \<notin> set sshBlockEnd"
  by (simp_all add: sshBlockBegin_def sshBlockEnd_def nl_def)

lemma contains_on_lines:
  "nl \<notin> set sub \<Longrightarrow> \<not> go_Contains s sub \<Longrightarrow> list_all (\<lambda>l. \<not> go_Contains l sub) ls \<Longrightarrow> \<not> go_Contains (s @ on_lines ls) sub"
proof (induction ls arbitrary: s)
  case (Cons l ls)
  then have "\<not> go_Contains (l @ on_lines ls) sub" by simp
  then show ?case using contains_newline[OF Cons.prems(1), of s] Cons.prems(2) by (simp add: on_lines_def)
qed (simp add: on_lines_def)

text \<open>Paths that cannot be mistaken for the end marker.\<close>

definition block_ok :: "SSHConfigBlock \<Rightarrow> bool" where
  "block_ok b \<longleftrightarrow> CHR ''<'' \<notin> set (FlexctlBinary b) \<and> CHR ''<'' \<notin> set (KnownHosts b)"

lemma no_end_before:
  assumes "block_ok b"
  shows "\<not> go_Contains (sshBlockBegin @ on_lines (block_lines b)) sshBlockEnd"
proof (rule contains_on_lines[OF markers_one_line(2)])
  have lt: "CHR ''<'' \<in> set sshBlockEnd" by (simp add: sshBlockEnd_def)
  show "\<not> go_Contains sshBlockBegin sshBlockEnd" by (rule contains_char[OF lt]) (simp add: sshBlockBegin_def)
  show "list_all (\<lambda>l. \<not> go_Contains l sshBlockEnd) (block_lines b)"
    using assms by (auto simp: block_lines_def block_ok_def intro!: contains_char[OF lt])
qed

text \<open>The text before a block: nothing, or lines without the begin marker.\<close>

definition before_block :: "gostring \<Rightarrow> bool" where
  "before_block u \<longleftrightarrow> u = [] \<or> (\<exists>q. u = q @ [nl] \<and> \<not> go_Contains q sshBlockBegin)"

lemma begin_index:
  assumes "before_block u"
  shows "go_Index (u @ renderBlock b @ post) sshBlockBegin = Some (length u)"
proof (cases "u = []")
  case True
  then show ?thesis using go_Index_prefix[of sshBlockBegin] by (simp add: render_parts)
next
  case False
  then obtain q where "u = q @ [nl]" "\<not> go_Contains q sshBlockBegin" using assms by (auto simp: before_block_def)
  then show ?thesis
    using Index_newline[OF markers_one_line(1), of q "on_lines (block_lines b) @ nl # sshBlockEnd @ nl # post"]
    by (simp add: render_parts)
qed

lemma end_index:
  assumes "block_ok b"
  shows "go_Index (renderBlock b @ post) sshBlockEnd = Some (length (renderBlock b) - Suc (length sshBlockEnd))"
  using Index_newline[OF markers_one_line(2) no_end_before[OF assms], of "nl # post"] by (simp add: render_parts)

lemma trim_right_nl: "go_TrimRight (s @ [nl]) [CHR 0x20, CHR 0x09] = s @ [nl]"
  by (simp add: go_TrimRight_def trim_right_id nl_def)

lemma replace_at:
  assumes "before_block u" "block_ok b"
  shows "replaceBlock (u @ renderBlock b @ post) new =
    go_TrimRight ((if new \<noteq> '''' then u @ new else if u \<noteq> [] \<and> post = [] then butlast u else u) @ post) [CHR 0x20, CHR 0x09]"
proof -
  let ?t = "u @ renderBlock b @ post"
  let ?i = "length (renderBlock b) - Suc (length sshBlockEnd)"
  have len: "?i + (length u + length sshBlockEnd) = length u + length (renderBlock b) - 1"
    by (simp add: render_parts)
  have "last (renderBlock b) = nl" "renderBlock b \<noteq> []" by (simp_all add: render_parts)
  then have "?t ! (length u + (length (renderBlock b) - 1)) = nl"
    by (simp add: nth_append_length_plus nth_append last_conv_nth)
  then have "?t ! (length u + length (renderBlock b) - 1) = nl"
    using \<open>renderBlock b \<noteq> []\<close> by (cases "renderBlock b") simp_all
  moreover have "length u + length (renderBlock b) - 1 < length ?t" using \<open>renderBlock b \<noteq> []\<close>
    by (cases "renderBlock b") simp_all
  moreover have "u \<noteq> [] \<Longrightarrow> last u = nl" using assms(1) by (auto simp: before_block_def)
  moreover have "length u + length (renderBlock b) - 1 + 1 = length u + length (renderBlock b)"
    using \<open>renderBlock b \<noteq> []\<close> by (cases "renderBlock b") simp_all
  ultimately show ?thesis
    using begin_index[OF assms(1), of b post] end_index[OF assms(2), of post]
    by (simp add: replaceBlock_def len Let_def nl_def cong: if_cong)
qed

subsection \<open>Insert, replace, remove\<close>

text \<open>What stands before an appended block, and what removal leaves: the text with its last line ended.\<close>

definition ends_line :: "gostring \<Rightarrow> gostring" where
  "ends_line s = (if s = [] \<or> last s = nl then s else s @ [nl])"

lemma append_parts:
  "appendBlock existing block = (if existing = [] then [] else ends_line existing @ [nl]) @ block"
  by (auto simp: appendBlock_def ends_line_def has_suffix_iff nl_def) (metis append_butlast_last_id)

lemma before_appended:
  assumes "\<not> go_Contains existing sshBlockBegin"
  shows "before_block (if existing = [] then [] else ends_line existing @ [nl])"
proof -
  have "\<not> go_Contains [] sshBlockBegin" by (simp add: go_Contains_def sshBlockBegin_def)
  then have "\<not> go_Contains (ends_line existing) sshBlockBegin"
    using assms contains_newline[OF markers_one_line(1), of existing "[]"] by (simp add: ends_line_def)
  then show ?thesis by (auto simp: before_block_def)
qed

lemma replace_appended:
  assumes "\<not> go_Contains existing sshBlockBegin" "block_ok b"
  shows "replaceBlock (appendBlock existing (renderBlock b)) (renderBlock b') = appendBlock existing (renderBlock b')"
    and "replaceBlock (appendBlock existing (renderBlock b)) '''' = ends_line existing"
proof -
  let ?u = "if existing = [] then [] else ends_line existing @ [nl]"
  note at = replace_at[OF before_appended[OF assms(1)] assms(2), where post = "[]", simplified]
  have "renderBlock b' \<noteq> []" by (simp add: render_parts)
  then have "replaceBlock (?u @ renderBlock b) (renderBlock b') = go_TrimRight (?u @ renderBlock b') [CHR 0x20, CHR 0x09]"
    using at[of "renderBlock b'"] by simp
  also have "\<dots> = ?u @ renderBlock b'"
    using trim_right_nl[of "?u @ sshBlockBegin @ on_lines (block_lines b') @ nl # sshBlockEnd"]
    by (simp add: render_parts)
  finally show "replaceBlock (appendBlock existing (renderBlock b)) (renderBlock b') = appendBlock existing (renderBlock b')"
    by (simp add: append_parts)
  have "go_TrimRight (ends_line existing) [CHR 0x20, CHR 0x09] = ends_line existing"
  proof (cases "existing = []")
    case False
    then obtain s where "ends_line existing = s @ [nl]" by (metis append_butlast_last_id ends_line_def)
    then show ?thesis using trim_right_nl by simp
  qed (simp add: ends_line_def go_TrimRight_def trim_right_def)
  then show "replaceBlock (appendBlock existing (renderBlock b)) '''' = ends_line existing"
    using at[of "[]"] by (cases "existing = []") (simp_all add: append_parts butlast_append, simp add: ends_line_def)
qed

subsection \<open>The file\<close>

definition no_faults :: "machine \<Rightarrow> bool" where
  "no_faults M \<longleftrightarrow> m_fault M = (\<lambda>op path. None)"

lemma backup_differs: "backup_path path w \<noteq> path"
  by (simp add: backup_path_def)

lemma Upsert_ok:
  assumes "no_faults M" "map_of (files w) path = Some existing"
  shows "UpsertSSHConfig M path b w =
    (Inr (), w\<lparr>files := AList.update path
        (if go_Contains existing sshBlockBegin then replaceBlock existing (renderBlock b)
         else appendBlock existing (renderBlock b))
      (if existing \<noteq> '''' \<and> \<not> go_Contains existing sshBlockBegin
       then AList.update (backup_path path w) existing (files w) else files w)\<rparr>)"
  using assms
  by (auto simp: UpsertSSHConfig_def read_existing_def ReadFile_def no_faults_def and_then_def on_error_def Let_def
      with_state_def WriteFile_def MkdirAll_def give_def)

lemma Remove_ok:
  assumes "no_faults M" "map_of (files w) path = Some existing"
  shows "RemoveSSHConfigBlock M path w =
    (Inr (), if go_Contains existing sshBlockBegin
       then w\<lparr>files := AList.update path (replaceBlock existing '''') (AList.update (backup_path path w) existing (files w))\<rparr>
       else w)"
  using assms
  by (auto simp: RemoveSSHConfigBlock_def ReadFile_def no_faults_def and_then_def on_error_def WriteFile_def)

lemma appended_contains: "go_Contains (appendBlock existing (renderBlock b)) sshBlockBegin"
proof -
  have "appendBlock existing (renderBlock b) = (if existing = [] then [] else ends_line existing @ [nl]) @ sshBlockBegin @
      on_lines (block_lines b) @ nl # sshBlockEnd @ [nl]"
    by (simp add: append_parts render_parts)
  then show ?thesis by (metis go_Contains_append)
qed

text \<open>C35: the user's SSH configuration survives. On a machine whose file operations succeed, and for a file
  without the block's begin marker, a login appends the block after the unchanged text and keeps a
  copy of the file, a second login with other paths replaces just the block, and a logout restores
  the text (with its last line ended by a newline).\<close>

theorem ssh_config_restored:
  assumes "no_faults M" "map_of (files w) path = Some existing" "\<not> go_Contains existing sshBlockBegin"
    and "block_ok b" "block_ok b'"
    and "UpsertSSHConfig M path b w = (r1, w1)" "UpsertSSHConfig M path b' w1 = (r2, w2)"
    and "RemoveSSHConfigBlock M path w2 = (r3, w3)"
  shows "r1 = Inr () \<and> map_of (files w1) path = Some (appendBlock existing (renderBlock b)) \<and>
    (existing \<noteq> '''' \<longrightarrow> map_of (files w1) (backup_path path w) = Some existing) \<and>
    r2 = Inr () \<and> map_of (files w2) path = Some (appendBlock existing (renderBlock b')) \<and>
    r3 = Inr () \<and> map_of (files w3) path = Some (ends_line existing)"
proof -
  have 1: "r1 = Inr ()" "map_of (files w1) path = Some (appendBlock existing (renderBlock b))"
    "existing \<noteq> '''' \<longrightarrow> map_of (files w1) (backup_path path w) = Some existing"
    using Upsert_ok[OF assms(1,2), of b] assms(3,6) backup_differs[of path w] by (auto simp: update_conv')
  have 2: "r2 = Inr ()" "map_of (files w2) path = Some (appendBlock existing (renderBlock b'))"
    using Upsert_ok[OF assms(1) 1(2), of b'] assms(7) appended_contains replace_appended(1)[OF assms(3,4)]
    by (auto simp: update_conv')
  have "r3 = Inr ()" "map_of (files w3) path = Some (ends_line existing)"
    using Remove_ok[OF assms(1) 2(2)] assms(8) appended_contains replace_appended(2)[OF assms(3,5)]
    by (auto simp: update_conv')
  with 1 2 show ?thesis by blast
qed

definition demo_block :: "gostring \<Rightarrow> SSHConfigBlock" where
  "demo_block bin = \<lparr>FlexctlBinary = bin, KnownHosts = ''/home/ann/.config/flexctl/known_hosts''\<rparr>"

definition demo_files :: "gostring \<Rightarrow> unit client_world" where
  "demo_files text = demo_disk [(''/c'', text)]"

lemma ssh_config_restored_witness:
  "map_of (files (snd (RemoveSSHConfigBlock demo_machine ''/c'' (snd (UpsertSSHConfig demo_machine ''/c'' (demo_block ''/opt/flexctl'')
     (snd (UpsertSSHConfig demo_machine ''/c'' (demo_block ''/usr/bin/flexctl'') (demo_files ''Host x'')))))))) ''/c'' =
   Some (''Host x'' @ [nl])"
proof -
  let ?w = "demo_files ''Host x''" and ?b = "demo_block ''/usr/bin/flexctl''" and ?b' = "demo_block ''/opt/flexctl''"
  let ?r1 = "UpsertSSHConfig demo_machine ''/c'' ?b ?w"
  let ?r2 = "UpsertSSHConfig demo_machine ''/c'' ?b' (snd ?r1)"
  let ?r3 = "RemoveSSHConfigBlock demo_machine ''/c'' (snd ?r2)"
  have "no_faults demo_machine" "map_of (files ?w) ''/c'' = Some ''Host x''"
    by (simp_all add: no_faults_def demo_machine_def demo_files_def demo_disk_def)
  moreover have "\<not> go_Contains ''Host x'' sshBlockBegin" "block_ok ?b" "block_ok ?b'" by code_simp+
  ultimately have "map_of (files (snd ?r3)) ''/c'' = Some (ends_line ''Host x'')"
    using ssh_config_restored[of demo_machine ?w "''/c''" "''Host x''" ?b ?b' "fst ?r1" "snd ?r1" "fst ?r2" "snd ?r2"
        "fst ?r3" "snd ?r3"] by simp
  then show ?thesis by (simp add: ends_line_def nl_def)
qed

text \<open>A block whose end marker is missing is never repaired: a login finds the begin marker, replaces
  nothing, and reports success although the file has not changed, so the block keeps its old paths.\<close>

theorem broken_block_stays:
  assumes "no_faults M" "map_of (files w) path = Some existing"
    and "go_Index existing sshBlockBegin = Some i" "\<not> go_Contains (drop i existing) sshBlockEnd"
    and "UpsertSSHConfig M path b w = (r, w')"
  shows "r = Inr () \<and> map_of (files w') path = Some existing"
proof -
  have "go_Contains existing sshBlockBegin" using assms(3) by (simp add: go_Contains_def)
  moreover have "replaceBlock existing (renderBlock b) = existing"
    using assms(3,4) by (simp add: replaceBlock_def go_Contains_def)
  ultimately show ?thesis using Upsert_ok[OF assms(1,2), of b] assms(5) by (auto simp: update_conv')
qed

lemma broken_block_stays_witness:
  "fst (UpsertSSHConfig demo_machine ''/c'' (demo_block ''/opt/flexctl'') (demo_files (sshBlockBegin @ [nl]))) = Inr () \<and>
   map_of (files (snd (UpsertSSHConfig demo_machine ''/c'' (demo_block ''/opt/flexctl'') (demo_files (sshBlockBegin @ [nl]))))) ''/c'' =
     Some (sshBlockBegin @ [nl])"
proof -
  let ?w = "demo_files (sshBlockBegin @ [nl])" and ?b = "demo_block ''/opt/flexctl''"
  let ?r = "UpsertSSHConfig demo_machine ''/c'' ?b ?w"
  have "no_faults demo_machine" "map_of (files ?w) ''/c'' = Some (sshBlockBegin @ [nl])"
    by (simp_all add: no_faults_def demo_machine_def demo_files_def demo_disk_def)
  moreover have "go_Index (sshBlockBegin @ [nl]) sshBlockBegin = Some 0"
    and "\<not> go_Contains (drop 0 (sshBlockBegin @ [nl])) sshBlockEnd" by code_simp+
  ultimately show ?thesis
    using broken_block_stays[of demo_machine ?w "''/c''" "sshBlockBegin @ [nl]" 0 ?b "fst ?r" "snd ?r"] by simp
qed

end
