(* ===== verification/ClientProperties.thy ===== *)
theory ClientProperties
  imports ClientCommands SshConfigProperties
begin

text \<open>
  What the client commands promise: a login ends with a configuration the other commands read or
  with the old one, a logout leaves nothing behind, device names fit the server's rule but for
  their length, and ssh and proxy agree on the host.
\<close>

subsection \<open>Device names\<close>

text \<open>The default device name fits the server's rule exactly when it is short enough: \<open>sanitizeDeviceName\<close>
  always produces at least two lower-case letters, digits and inner hyphens, but it does not bound the
  length, so a host name with more than 32 such characters gives a name that the server refuses.\<close>

theorem sanitized_name_valid_iff:
  "devices_nameRe (sanitizeDeviceName s) \<longleftrightarrow> length (sanitizeDeviceName s) \<le> 32"
proof -
  let ?n = "sanitizeDeviceName s"
  have shape: "2 \<le> length ?n \<and> list_all name_char ?n \<and> hd ?n \<noteq> CHR ''-'' \<and> last ?n \<noteq> CHR ''-''"
    by (auto simp: sanitizeDeviceName_def Let_def list_all_iff name_char_def is_alnum_def is_lower_def byte_of_def)
  then obtain c d r where n: "?n = c # d # r" by (cases ?n; cases "tl ?n") auto
  have "set (butlast (d # r)) \<subseteq> set ?n" unfolding n by (metis in_set_butlastD set_subset_Cons subsetI subset_trans)
  then have mid: "list_all name_char (butlast (d # r))" using shape by (auto simp: list_all_iff)
  have "last (d # r) \<in> set ?n" unfolding n by simp
  then have "name_char (last (d # r))" using shape by (auto simp: list_all_iff)
  moreover have "last (d # r) \<noteq> CHR ''-''" using shape by (simp add: n)
  ultimately have last: "is_alnum (last (d # r))" by (simp add: name_char_def)
  have "is_alnum c" using shape by (simp add: n name_char_def list_all_iff) (metis)
  then show ?thesis using mid last unfolding devices_nameRe_def name_shape_def n
    by (simp del: butlast.simps last.simps)
qed

lemma print_files: "print s w = (r, w') \<Longrightarrow> files w' = files w \<and> r = Inr ()"
  by (auto simp: print_def say_def print_line_def)

subsection \<open>Which files a call writes\<close>

definition touches :: "(gostring \<Rightarrow> bool) \<Rightarrow> ('s client_world, 'a) call \<Rightarrow> bool" where
  "touches P m \<longleftrightarrow> (\<forall>w p. \<not> P p \<longrightarrow> map_of (files (snd (m w))) p = map_of (files w) p)"

named_theorems touch_intros \<open>calls that write only some files\<close>

lemma touchesD: "touches P m \<Longrightarrow> m w = (r, w') \<Longrightarrow> \<not> P p \<Longrightarrow> map_of (files w') p = map_of (files w) p"
  unfolding touches_def by (metis snd_conv)

lemma touches_remote: "remote m \<Longrightarrow> touches P m"
  by (simp add: touches_def remote_def)

lemmas touches_api [touch_intros] = remote_calls [THEN touches_remote]

lemma touches_basic [touch_intros]:
  "touches P (give x)" "touches P (give_error e)" "touches P (print t)" "touches P (print_all ts)" "touches P (ReadFile M path)"
  "touches P (MkdirAll M path)" "P path \<Longrightarrow> touches P (WriteFile M path text)" "P path \<Longrightarrow> touches P (os_Remove M path)"
  by (auto simp: touches_def give_def give_error_def print_def say_def print_line_def print_all_def ReadFile_def MkdirAll_def
      WriteFile_def os_Remove_def update_conv' delete_conv' split: option.split)

lemma on_server_files: "on_server f w = (r, w') \<Longrightarrow> files w' = files w"
  by (auto simp: on_server_def split: prod.splits)

lemma touches_tsnet [touch_intros]:
  "touches P (start_tsnet D dir h k u)" "touches P m \<Longrightarrow> touches P (\<lambda>w. m (close_tsnet D w))"
  by (auto simp: touches_def start_tsnet_def close_tsnet_def split: prod.split sum.split dest!: on_server_files)

lemma touches_and_then [touch_intros]:
  assumes "touches P m" "\<And>a. touches P (k a)"
  shows "touches P (and_then m k)"
  unfolding touches_def
proof (intro allI impI)
  fix w p assume p: "\<not> P p"
  obtain r w1 where m: "m w = (r, w1)" by (cases "m w") auto
  have 1: "map_of (files w1) p = map_of (files w) p" using touchesD[OF assms(1) m p] .
  show "map_of (files (snd (and_then m k w))) p = map_of (files w) p"
  proof (cases r)
    case (Inl e) then show ?thesis using m 1 by simp
  next
    case (Inr a)
    have "map_of (files (snd (k a w1))) p = map_of (files w1) p"
      using assms(2)[of a] p unfolding touches_def by blast
    then show ?thesis using m 1 Inr by simp
  qed
qed

lemma touches_on_error [touch_intros]: "touches P m \<Longrightarrow> touches P (on_error h m)"
  by (simp add: touches_def)

lemma touches_with_state [touch_intros]: "(\<And>w. touches P (f w)) \<Longrightarrow> touches P (with_state f)"
  by (simp add: touches_def with_state_def)

lemma touches_if [touch_intros]: "(b \<Longrightarrow> touches P m) \<Longrightarrow> (\<not> b \<Longrightarrow> touches P k) \<Longrightarrow> touches P (if b then m else k)"
  by simp

lemma touches_read_config [touch_intros]: "touches P (ReadClientConfig M path)"
  unfolding ReadClientConfig_def by (auto intro!: touch_intros split: prod.split option.split)

lemma touches_write_config [touch_intros]: "P path \<Longrightarrow> touches P (WriteClientConfig M path c)"
  unfolding WriteClientConfig_def by (auto intro!: touch_intros)

text \<open>The SSH configuration at a path and its backups.\<close>

definition ssh_files :: "gostring \<Rightarrow> gostring \<Rightarrow> bool" where
  "ssh_files path p \<longleftrightarrow> p = path \<or> has_prefix p (path @ ''.flexctl-bak.'')"

lemma ssh_files_self [simp]: "ssh_files path path" "ssh_files path (backup_path path w)"
  by (simp_all add: ssh_files_def backup_path_def has_prefix_iff)

lemma touches_read_existing [touch_intros]: "touches P (read_existing M path)"
  by (auto simp: touches_def read_existing_def ReadFile_def split: option.split)

lemma touches_upsert [touch_intros]: "touches (ssh_files path) (UpsertSSHConfig M path b)"
  unfolding UpsertSSHConfig_def by (auto simp: Let_def intro!: touch_intros)

lemma touches_remove [touch_intros]: "touches (ssh_files path) (RemoveSSHConfigBlock M path)"
  by (auto simp: touches_def RemoveSSHConfigBlock_def ReadFile_def WriteFile_def and_then_def on_error_def update_conv'
      split: option.split)

lemma touches_upload: "touches P (upload_keys M N D c known ps)"
proof (induction ps)
  case Nil then show ?case by (simp add: touches_def)
next
  case (Cons q ps)
  show ?case unfolding touches_def
  proof (intro allI impI)
    fix w :: "'a client_world" and p assume p: "\<not> P p"
    have rest: "map_of (files (snd (upload_keys M N D c known ps v))) p = map_of (files v) p" for v
      using Cons p unfolding touches_def by blast
    have add: "map_of (files v') p = map_of (files v) p" if "api_AddSSHKey N c nm pub v = (x, v')" for nm pub v x v'
      using remoteD[OF remote_calls(7) that] by simp
    have rd: "map_of (files v) p = map_of (files w) p" if "ReadFile M q w = (x, v)" for x v
      using that by (auto simp: ReadFile_def split: option.splits)
    show "map_of (files (snd (upload_keys M N D c known (q # ps) w))) p = map_of (files w) p"
      by (auto simp: Let_def rest split: prod.split sum.split option.split dest!: rd add)
  qed
qed

subsection \<open>Login\<close>

lemma touches_login_session: "touches P (login_session M N D controlPlane email password deviceName)"
proof -
  have "touches P (autoUploadKeys M N D c)" for c
    unfolding autoUploadKeys_def by (intro touch_intros touches_upload)
  then have up: "map_of (files (snd (autoUploadKeys M N D c w))) p = map_of (files w) p" if "\<not> P p" for c w p
    using that unfolding touches_def by blast
  have "touches P (upload_or_warn M N D c)" for c
    using up[symmetric] unfolding touches_def upload_or_warn_def
    by (auto simp: print_def say_def print_line_def split: prod.split sum.split) (metis snd_conv)+
  then show ?thesis
    unfolding login_session_def by (intro touch_intros) auto
qed

lemma write_config_fails: "WriteClientConfig M path c w = (Inl e, w') \<Longrightarrow> files w' = files w"
  by (auto simp: WriteClientConfig_def call_iffs WriteFile_def MkdirAll_def split: option.splits)

lemma write_config_succeeds:
  "WriteClientConfig M path c w = (Inr u, w') \<Longrightarrow> map_of (files w') path = Some (text_of (client_config_lines c))"
  by (auto simp: WriteClientConfig_def call_iffs WriteFile_def update_conv' split: option.splits)

lemma touches_join_tailnet: "touches P (join_tailnet M D pair)"
  unfolding join_tailnet_def by (intro touch_intros)

text \<open>Nothing is written to the configuration file before the last step.\<close>

lemma login_setup_fails:
  assumes "\<not> ssh_files (ssh_config_path M) cfgPath"
    and "login_setup M D cfgPath controlPlane deviceName (cook, pair) w = (Inl e, w')"
  shows "map_of (files w') cfgPath = map_of (files w) cfgPath"
  using assms(2) unfolding login_setup_def
  by (auto simp: call_iffs print_def say_def print_line_def dest!: write_config_fails
      touchesD[OF touches_join_tailnet[of "ssh_files (ssh_config_path M)"] _ assms(1)] touchesD[OF touches_upsert _ assms(1)])

text \<open>A successful set-up: the SSH configuration first, then the client's.\<close>

lemma login_setup_succeeds:
  fixes w w' :: "'s client_world"
  assumes "\<not> ssh_files (ssh_config_path M) cfgPath"
    and "login_setup M D cfgPath controlPlane deviceName (cook, pair) w = (Inr u, w')"
  obtains w1 w2 :: "'s client_world" where "map_of (files w1) = map_of (files w)"
    and "UpsertSSHConfig M (ssh_config_path M) (login_block M) w1 = (Inr (), w2)"
    and "map_of (files w') (ssh_config_path M) = map_of (files w2) (ssh_config_path M)"
    and "map_of (files w') cfgPath = Some (text_of (client_config_lines (login_config controlPlane cook deviceName pair)))"
proof -
  from assms(2) obtain w1 w2 w3 w4 where
    1: "join_tailnet M D pair w = (Inr (), w1)" and 2: "UpsertSSHConfig M (ssh_config_path M) (login_block M) w1 = (Inr (), w2)"
    and 3: "print (tick @ ''~/.ssh/config updated'') w2 = (Inr (), w3)"
    and 4: "WriteClientConfig M cfgPath (login_config controlPlane cook deviceName pair) w3 = (Inr (), w4)"
    and 5: "print ''Done. Try: flexctl env list'' w4 = (Inr u, w')"
    unfolding login_setup_def by (auto simp: call_iffs)
  have "map_of (files w1) = map_of (files w)"
    using touchesD[OF touches_join_tailnet[of "\<lambda>p. False"] 1] by auto
  moreover have "ssh_config_path M \<noteq> cfgPath" using assms(1) by auto
  then have "map_of (files w4) (ssh_config_path M) = map_of (files w3) (ssh_config_path M)"
    using touchesD[OF touches_write_config[of "\<lambda>p. p = cfgPath"] 4] by simp
  ultimately show ?thesis
    using that[of w1 w2] 2 print_files[OF 3] print_files[OF 5] write_config_succeeds[OF 4] by simp
qed

lemma login_cookie:
  assumes "api_Login N c e p w = (Inr c', w')"
  shows "has_prefix (api_cookie c') ''flex_session=''"
proof -
  obtain resp :: api_answer and name v where f: "find (\<lambda>(name, value). name = ''flex_session'') (an_cookies resp) = Some (name, v)"
    and c: "c' = c\<lparr>api_cookie := name @ ''='' @ v\<rparr>"
    using assms unfolding api_Login_def by (auto simp: call_iffs give_error_def split: option.splits prod.splits)
  have "name = ''flex_session''" using f by (auto simp: find_Some_iff)
  then show ?thesis by (simp add: c has_prefix_iff)
qed

text \<open>A login fails before it sets up the machine, or it has a session, a paired device and sets it up.\<close>

definition login_reaches ::
  "machine \<Rightarrow> 's peripherals \<Rightarrow> gostring \<Rightarrow> 's client_world \<Rightarrow> ClientConfig \<Rightarrow> (go_error + unit) \<times> 's client_world \<Rightarrow> bool" where
  "login_reaches M D cfgPath w conf res \<longleftrightarrow>
     (\<exists>controlPlane cook deviceName pair w1.
        controlPlane \<noteq> '''' \<and> has_prefix cook ''flex_session='' \<and>
        map_of (files w1) = map_of (files w) \<and> login_setup M D cfgPath controlPlane deviceName (cook, pair) w1 = res \<and>
        conf = login_config controlPlane cook deviceName pair)"

lemma touches_known: "touches P (known_control_plane M cfgPath given)"
  unfolding touches_def
  by (auto simp: known_control_plane_def split: prod.split sum.split) (metis snd_conv touches_read_config touches_def)+

lemma session_reaches:
  assumes "controlPlane \<noteq> ''''" and "map_of (files w0) = map_of (files w)"
    and "and_then (login_session M N D controlPlane email password deviceName)
           (login_setup M D cfgPath controlPlane deviceName) w0 = (r, w')"
  shows "(\<exists>e. r = Inl e) \<and> map_of (files w') = map_of (files w) \<or> (\<exists>conf. login_reaches M D cfgPath w conf (r, w'))"
proof -
  let ?m = "login_session M N D controlPlane email password deviceName"
  obtain q w1 where m: "?m w0 = (q, w1)" by (cases "?m w0")
  have same: "map_of (files w1) = map_of (files w)"
    using touchesD[OF touches_login_session[of "\<lambda>p. False"] m] assms(2) by auto
  show ?thesis
  proof (cases q)
    case (Inl e)
    then show ?thesis using assms(3) m same by (auto simp: and_then_def)
  next
    case (Inr cp)
    obtain cook pair where cp: "cp = (cook, pair)" by (cases cp)
    have "has_prefix cook ''flex_session=''"
      using m unfolding Inr cp login_session_def by (auto simp: call_iffs dest: login_cookie)
    moreover have "login_setup M D cfgPath controlPlane deviceName (cook, pair) w1 = (r, w')"
      using assms(3) m unfolding Inr cp by (simp add: and_then_def)
    ultimately show ?thesis using assms(1) same unfolding login_reaches_def by blast
  qed
qed

lemma login_cmd_cases:
  assumes "login_cmd M N D fl w = (r, w')"
  shows "(\<exists>e. r = Inl e) \<and> map_of (files w') = map_of (files w) \<or>
    (\<exists>conf. login_reaches M D (cfgPathOrDefault M (lf_cfgPath fl)) w conf (r, w'))"
proof -
  let ?k = "known_control_plane M (cfgPathOrDefault M (lf_cfgPath fl)) (lf_controlPlane fl)"
  obtain q w0 where k: "?k w = (q, w0)" by (cases "?k w")
  have same: "map_of (files w0) = map_of (files w)"
    using touchesD[OF touches_known[of "\<lambda>p. False"] k] by auto
  from k obtain cp where q: "q = Inr cp"
    by (auto simp: known_control_plane_def split: if_splits prod.splits sum.splits)
  let ?pr = "if lf_email fl = '''' \<or> lf_password fl = '''' then promptCreds D (lf_email fl) else Inr (lf_email fl, lf_password fl)"
  show ?thesis
  proof (cases "cp = ''''")
    case True
    then show ?thesis using assms k q same by (auto simp: login_cmd_def and_then_def Let_def give_error_def)
  next
    case False
    show ?thesis
    proof (cases ?pr)
      case (Inl e)
      then show ?thesis using assms k q same False by (auto simp: login_cmd_def and_then_def Let_def give_error_def)
    next
      case (Inr ep)
      obtain email password where "ep = (email, password)" by (cases ep)
      let ?name = "if lf_deviceName fl = '''' then sanitizeDeviceName (m_hostname M) else lf_deviceName fl"
      have "login_cmd M N D fl w = and_then (login_session M N D cp email password ?name)
          (login_setup M D (cfgPathOrDefault M (lf_cfgPath fl)) cp ?name) w0"
        using k q Inr False \<open>ep = (email, password)\<close> unfolding login_cmd_def Let_def by (simp add: and_then_def[of ?k])
      then show ?thesis using session_reaches[OF False same] assms by metis
    qed
  qed
qed


subsection \<open>Logout\<close>

definition in_dir :: "gostring \<Rightarrow> gostring \<Rightarrow> bool" where
  "in_dir d p \<longleftrightarrow> p = d \<or> has_prefix p (d @ ''/'')"

lemma map_of_filter_keys: "map_of (filter (\<lambda>(p, _). Q p) xs) p = (if Q p then map_of xs p else None)"
  by (induction xs) auto

lemma attempt_touches: "touches P m \<Longrightarrow> \<not> P p \<Longrightarrow> map_of (files (attempt m w)) p = map_of (files w) p"
  by (simp add: attempt_def touches_def)

lemma attempt_remote: "remote m \<Longrightarrow> files (attempt m w) = files w \<and> printed (attempt m w) = printed w"
  by (simp add: attempt_def remote_def)

lemma attempt_remove_all:
  "no_faults M \<Longrightarrow> map_of (files (attempt (RemoveAll M d) w)) p = (if in_dir d p then None else map_of (files w) p)"
  by (auto simp: attempt_def RemoveAll_def no_faults_def in_dir_def
      map_of_filter_keys[of "\<lambda>p. p \<noteq> d \<and> \<not> has_prefix p (d @ ''/'')"])

lemma attempt_remove:
  "no_faults M \<Longrightarrow> map_of (files (attempt (os_Remove M path) w)) p = (if p = path then None else map_of (files w) p)"
  by (auto simp: attempt_def os_Remove_def no_faults_def delete_conv')

lemma delete_devices:
  "files (fold (\<lambda>d w. if ad_Hostname d = h then attempt (api_DeleteDevice N c (ad_ID d)) w else w) devs w) = files w \<and>
   printed (fold (\<lambda>d w. if ad_Hostname d = h then attempt (api_DeleteDevice N c (ad_ID d)) w else w) devs w) = printed w"
  by (induction devs arbitrary: w) (auto simp: attempt_remote remote_calls)

text \<open>The machine after a logout: no configuration, no state directory, no block.\<close>

lemma logout_effect:
  assumes "no_faults M" and "ReadClientConfig M (cfgPathOrDefault M given) w = (Inr conf, w)"
    and "map_of (files w) (ssh_config_path M) = Some existing"
    and "\<not> ssh_files (ssh_config_path M) (cfgPathOrDefault M given)" "\<not> in_dir (state_dir M) (ssh_config_path M)"
    and "logout_cmd M N given w = (r, w')"
  shows "r = Inr () \<and> map_of (files w') (cfgPathOrDefault M given) = None \<and>
    map_of (files w') (ssh_config_path M) =
      Some (if go_Contains existing sshBlockBegin then replaceBlock existing '''' else existing) \<and>
    (\<forall>p. in_dir (state_dir M) p \<and> \<not> ssh_files (ssh_config_path M) p \<longrightarrow> map_of (files w') p = None)"
proof -
  let ?c = "NewAPIClient (ControlPlane conf) (SessionCookie conf)" and ?p = "cfgPathOrDefault M given"
  let ?ssh = "ssh_config_path M"
  define w1 where "w1 = snd (api_ListDevices N ?c w)"
  let ?devs = "case fst (api_ListDevices N ?c w) of Inl _ \<Rightarrow> [] | Inr devs \<Rightarrow> devs"
  define w2 where "w2 = fold (\<lambda>d w. if ad_Hostname d = DeviceHostname conf then attempt (api_DeleteDevice N ?c (ad_ID d)) w else w) ?devs w1"
  define w3 where "w3 = attempt (api_Logout N ?c) w2"
  define w4 where "w4 = attempt (RemoveAll M (state_dir M)) w3"
  define w5 where "w5 = attempt (RemoveSSHConfigBlock M ?ssh) w4"
  define w6 where "w6 = attempt (os_Remove M ?p) w5"
  have out: "r = Inr ()" "files w' = files w6"
    using assms(2,6) unfolding w1_def w2_def w3_def w4_def w5_def w6_def
    by (auto simp: logout_cmd_def Let_def print_def say_def print_line_def case_prod_beta)
  have "files w3 = files w"
    by (simp add: w3_def w2_def w1_def delete_devices attempt_remote remote_calls remote_calls(5)[unfolded remote_def])
  then have f4: "map_of (files w4) p = (if in_dir (state_dir M) p then None else map_of (files w) p)" for p
    using attempt_remove_all[OF assms(1), of _ w3] by (simp add: w4_def)
  have f5: "\<not> ssh_files ?ssh p \<Longrightarrow> map_of (files w5) p = map_of (files w4) p" for p
    unfolding w5_def using attempt_touches[OF touches_remove] by blast
  have "map_of (files w4) ?ssh = Some existing" using f4 assms(3,5) by simp
  then have s5: "map_of (files w5) ?ssh = Some (if go_Contains existing sshBlockBegin then replaceBlock existing '''' else existing)"
    using Remove_ok[OF assms(1), of w4] by (simp add: w5_def attempt_def update_conv')
  have "?ssh \<noteq> ?p" using assms(4) by auto
  then show ?thesis using out f4 f5 s5 assms(3,5) by (simp add: w6_def attempt_remove[OF assms(1)])
qed

lemma logout_twice: "no_faults M \<Longrightarrow> map_of (files w) (cfgPathOrDefault M given) = None \<Longrightarrow>
  logout_cmd M N given w = (Inr (), w\<lparr>printed := printed w @ [''already logged out'']\<rparr>)"
  by (simp add: logout_cmd_def Let_def ReadClientConfig_def ReadFile_def no_faults_def print_def say_def print_line_def)

text \<open>C21: a logout undoes a login. After \<open>flexctl login\<close> and \<open>flexctl logout\<close>, whatever the server answers to
  the logout, the client configuration and the tailnet state are gone and the user's SSH configuration
  is the one from before the login (its last line ended); a second logout finds nothing to do.\<close>

theorem logout_undoes_login:
  fixes w w1 w2 :: "'s client_world"
  assumes "no_faults M" and "map_of (files w) (ssh_config_path M) = Some existing"
    and "\<not> go_Contains existing sshBlockBegin" "block_ok (login_block M)"
    and "\<not> ssh_files (ssh_config_path M) (cfgPathOrDefault M (lf_cfgPath fl))"
    and "\<not> in_dir (state_dir M) (ssh_config_path M)"
    and "login_cmd M N D fl w = (Inr u, w1)"
    and "ReadClientConfig M (cfgPathOrDefault M (lf_cfgPath fl)) w1 = (Inr conf, w1)"
    and "logout_cmd M N (lf_cfgPath fl) w1 = (r, w2)"
  shows "r = Inr () \<and> map_of (files w2) (ssh_config_path M) = Some (ends_line existing) \<and>
    map_of (files w2) (cfgPathOrDefault M (lf_cfgPath fl)) = None \<and>
    (\<forall>p. in_dir (state_dir M) p \<and> \<not> ssh_files (ssh_config_path M) p \<longrightarrow> map_of (files w2) p = None) \<and>
    logout_cmd M N (lf_cfgPath fl) w2 = (Inr (), w2\<lparr>printed := printed w2 @ [''already logged out'']\<rparr>)"
proof -
  let ?ssh = "ssh_config_path M" and ?p = "cfgPathOrDefault M (lf_cfgPath fl)" and ?b = "renderBlock (login_block M)"
  obtain controlPlane cook deviceName pair v where v: "map_of (files v) = map_of (files w)"
    and s: "login_setup M D ?p controlPlane deviceName (cook, pair) v = (Inr u, w1)"
    using login_cmd_cases[OF assms(7)] unfolding login_reaches_def by auto
  obtain v1 v2 :: "'s client_world" where "map_of (files v1) = map_of (files v)" "UpsertSSHConfig M ?ssh (login_block M) v1 = (Inr (), v2)"
    and "map_of (files w1) ?ssh = map_of (files v2) ?ssh"
    using login_setup_succeeds[OF assms(5) s] by metis
  then have "map_of (files w1) ?ssh = Some (appendBlock existing ?b)"
    using Upsert_ok[OF assms(1), of v1 ?ssh existing "login_block M"] v assms(2,3) by (auto simp: update_conv')
  then show ?thesis
    using logout_effect[OF assms(1,8) _ assms(5,6,9)] logout_twice[OF assms(1)] appended_contains
      replace_appended(2)[OF assms(3,4)] by auto
qed

subsection \<open>Examples\<close>

text \<open>A server that accepts everything, on Ann's machine without a tailnet.\<close>

definition demo_answer :: "int \<Rightarrow> gostring \<Rightarrow> api_answer" where
  "demo_answer code status = \<lparr>an_code = code, an_status = status, an_cookies = [(''flex_session'', ''fs_1'')], an_body = ''{}''\<rparr>"

definition demo_api_env :: "gostring \<Rightarrow> api_Env" where
  "demo_api_env status = \<lparr>ae_ID = ''e1'', ae_Name = ''train'', ae_Hostname = ''ann-train'', ae_Status = status, ae_NodeID = ''n1''\<rparr>"

definition demo_pair :: PairDeviceResp where
  "demo_pair = \<lparr>pd_DeviceID = ''d1'', pd_Hostname = ''ann-device-ann-pc'', pd_PreauthKey = ''k'', pd_HeadscaleURL = ''http://hs'',
     pd_TailnetDomain = ''flex''\<rparr>"

definition demo_net :: "unit network" where
  "demo_net = \<lparr>net_request = (\<lambda>_ _. None), net_do = (\<lambda>_ _ _ _ s. (Inr (demo_answer 201 ''201 Created''), s)),
     dec_me = (\<lambda>_. Inl (NewError ''EOF'')), dec_pair = (\<lambda>_. Inr demo_pair),
     dec_devices = (\<lambda>_. Inr [\<lparr>ad_ID = ''d1'', ad_Name = ''ann-pc'', ad_Hostname = ''ann-device-ann-pc''\<rparr>]),
     dec_key_id = (\<lambda>_. Inr ''k1''), dec_keys = (\<lambda>_. Inr []), dec_envs = (\<lambda>_. Inr [demo_api_env ''running'']),
     dec_joined = (\<lambda>_. Inr (''9f2c'', ''nt_abc''))\<rparr>"

definition demo_peripherals :: "unit peripherals" where
  "demo_peripherals = \<lparr>read_line = Inl (NewError ''EOF''), read_password = Inl (NewError ''EOF''), ts_Start = (\<lambda>_ _ _ _ s. (Inr (), s)),
     ts_Up = (\<lambda>s. (Inr (), s)), ts_Close = (\<lambda>s. s), ts_Dial = (\<lambda>_ s. (Inr (), s)), ts_copies = (\<lambda>s. ((Some io_EOF, None), s)),
     ssh_fingerprint = (\<lambda>_. None)\<rparr>"

definition demo_flags :: login_flags where
  "demo_flags = \<lparr>lf_controlPlane = ''http://cp'', lf_email = ''ann@x'', lf_password = ''pw'', lf_deviceName = '''', lf_cfgPath = ''/c''\<rparr>"

definition demo_before :: "unit client_world" where
  "demo_before = demo_disk [(''/home/ann/.ssh/config'', ''Host x'')]"

lemma demo_paths: "cfgPathOrDefault demo_machine (lf_cfgPath demo_flags) = ''/c''"
  "ssh_config_path demo_machine = ''/home/ann/.ssh/config''" "state_dir demo_machine = ''/home/ann/.config/flexctl/tsnet''"
  by code_simp+

lemma demo_keys: "key_candidates demo_machine =
  [''/home/ann/.ssh/id_ed25519.pub'', ''/home/ann/.ssh/id_rsa.pub'', ''/home/ann/.ssh/id_ecdsa.pub'']"
  by code_simp

lemma demo_name: "sanitizeDeviceName (m_hostname demo_machine) = ''ann-pc''"
  by code_simp

lemma demo_calls [simp]:
  "api_Login demo_net c e p w = (Inr (c\<lparr>api_cookie := ''flex_session=fs_1''\<rparr>), w)"
  "api_PairDevice demo_net c n w = (Inr demo_pair, w)" "api_ListSSHKeys demo_net c w = (Inr [], w)"
  "api_ListDevices demo_net c w = (Inr [\<lparr>ad_ID = ''d1'', ad_Name = ''ann-pc'', ad_Hostname = ''ann-device-ann-pc''\<rparr>], w)"
  "api_ListEnvs demo_net c w = (Inr [demo_api_env ''running''], w)"
  by (cases w, simp add: api_Login_def api_PairDevice_def api_ListSSHKeys_def api_ListDevices_def api_ListEnvs_def api_get_def api_do_def
      net_call_def demo_net_def demo_answer_def and_then_def on_error_def give_def no_out_def)+

lemma demo_missing: "ReadFile demo_machine p demo_before = (if p = ''/home/ann/.ssh/config'' then Inr ''Host x'' else Inl os_ErrNotExist, demo_before)"
  "ReadFile demo_machine p (demo_before\<lparr>printed := out\<rparr>) =
     (if p = ''/home/ann/.ssh/config'' then Inr ''Host x'' else Inl os_ErrNotExist, demo_before\<lparr>printed := out\<rparr>)"
  by (simp_all add: ReadFile_def demo_machine_def demo_before_def demo_disk_def)

lemma demo_session:
  "\<exists>out. login_session demo_machine demo_net demo_peripherals ''http://cp'' ''ann@x'' ''pw'' ''ann-pc'' demo_before =
     (Inr (''flex_session=fs_1'', demo_pair), demo_before\<lparr>printed := out\<rparr>)"
proof -
  have "print t w = (Inr (), w\<lparr>printed := printed w @ [t]\<rparr>)" for t and w :: "unit client_world"
    by (simp add: print_def say_def print_line_def)
  moreover have "upload_or_warn demo_machine demo_net demo_peripherals c (demo_before\<lparr>printed := out\<rparr>) =
      (Inr (), demo_before\<lparr>printed := out\<rparr>)" for c out
    by (simp add: upload_or_warn_def autoUploadKeys_def demo_keys demo_missing)
  ultimately show ?thesis
    by (simp add: login_session_def) (metis)
qed

lemma demo_faultless: "no_faults demo_machine" "m_fault demo_machine f p = None"
  by (simp_all add: no_faults_def demo_machine_def)

lemma demo_env_vars: "m_getenv demo_machine v = ''''"
  by (simp add: demo_machine_def)

lemma demo_setup:
  "\<exists>w'. login_setup demo_machine demo_peripherals ''/c'' ''http://cp'' ''ann-pc'' (''flex_session=fs_1'', demo_pair)
     (demo_before\<lparr>printed := out\<rparr>) = (Inr (), w')"
proof -
  have start: "start_tsnet demo_peripherals d h k u w = (Inr (), w)" for d h k u w
    by (cases w) (simp add: start_tsnet_def on_server_def demo_peripherals_def)
  have closed: "close_tsnet demo_peripherals w = w" for w
    by (cases w) (simp add: close_tsnet_def)
  have ok: "MkdirAll demo_machine d w = (Inr (), w)" "print t w = (Inr (), w\<lparr>printed := printed w @ [t]\<rparr>)"
    "\<exists>w'. WriteClientConfig demo_machine p conf w = (Inr (), w')" for d p t conf and w :: "unit client_world"
    by (simp_all add: WriteClientConfig_def MkdirAll_def WriteFile_def demo_faultless print_def say_def print_line_def
        and_then_def on_error_def)
  let ?w1 = "demo_before\<lparr>printed := out @ [tick @ ''joined tailnet'']\<rparr>"
  have 1: "join_tailnet demo_machine demo_peripherals demo_pair (demo_before\<lparr>printed := out\<rparr>) = (Inr (), ?w1)"
    by (simp add: join_tailnet_def demo_env_vars ok(1,2) start closed)
  have "map_of (files ?w1) ''/home/ann/.ssh/config'' = Some ''Host x''" by (simp add: demo_before_def demo_disk_def)
  from Upsert_ok[OF demo_faultless(1) this] obtain w2 where
    2: "UpsertSSHConfig demo_machine ''/home/ann/.ssh/config'' (login_block demo_machine) ?w1 = (Inr (), w2)" by blast
  let ?w3 = "w2\<lparr>printed := printed w2 @ [tick @ ''~/.ssh/config updated'']\<rparr>"
  obtain w4 where 4: "WriteClientConfig demo_machine ''/c'' (login_config ''http://cp'' ''flex_session=fs_1'' ''ann-pc'' demo_pair) ?w3 =
      (Inr (), w4)" using ok(3) by blast
  show ?thesis
    using 1 2 4 ok(2) by (simp add: login_setup_def demo_paths and_then_def on_error_def)
qed

lemma demo_login:
  "\<exists>w'. login_cmd demo_machine demo_net demo_peripherals demo_flags demo_before = (Inr (), w') \<and>
     map_of (files w') ''/c'' = Some (text_of (client_config_lines (login_config ''http://cp'' ''flex_session=fs_1'' ''ann-pc'' demo_pair)))"
proof -
  obtain out where out: "login_session demo_machine demo_net demo_peripherals ''http://cp'' ''ann@x'' ''pw'' ''ann-pc'' demo_before =
     (Inr (''flex_session=fs_1'', demo_pair), demo_before\<lparr>printed := out\<rparr>)" using demo_session by blast
  obtain w' where w': "login_setup demo_machine demo_peripherals ''/c'' ''http://cp'' ''ann-pc'' (''flex_session=fs_1'', demo_pair)
     (demo_before\<lparr>printed := out\<rparr>) = (Inr (), w')" using demo_setup by blast
  have "\<not> ssh_files (ssh_config_path demo_machine) ''/c''" unfolding demo_paths by code_simp
  then have "map_of (files w') ''/c'' = Some (text_of (client_config_lines (login_config ''http://cp'' ''flex_session=fs_1'' ''ann-pc'' demo_pair)))"
    using login_setup_succeeds[OF _ w'] by metis
  moreover have "login_cmd demo_machine demo_net demo_peripherals demo_flags demo_before = (Inr (), w')"
    using out w' unfolding login_cmd_def demo_paths
    by (simp add: Let_def demo_flags_def demo_name known_control_plane_def and_then_def)
  ultimately show ?thesis by blast
qed

text \<open>Ann's configuration and the machine after her login.\<close>

lemma demo_reads:
  obtains w1 where "login_cmd demo_machine demo_net demo_peripherals demo_flags demo_before = (Inr (), w1)"
    and "ReadClientConfig demo_machine ''/c'' w1 =
      (Inr (login_config ''http://cp'' ''flex_session=fs_1'' ''ann-pc'' demo_pair), w1)"
proof -
  let ?conf = "login_config ''http://cp'' ''flex_session=fs_1'' ''ann-pc'' demo_pair"
  have "list_all (\<lambda>l. length l < 65536) (client_config_lines ?conf)"
    by (simp add: client_config_lines_def login_config_def demo_pair_def config_line_short)
  then show ?thesis using that demo_login read_client_text[OF _ demo_faultless(2)] by blast
qed


lemma demo_block_ok: "block_ok (login_block demo_machine)"
  by code_simp

lemma logout_undoes_login_witness:
  "\<exists>w1 w2. login_cmd demo_machine demo_net demo_peripherals demo_flags demo_before = (Inr (), w1) \<and>
     logout_cmd demo_machine demo_net ''/c'' w1 = (Inr (), w2) \<and>
     map_of (files w2) ''/home/ann/.ssh/config'' = Some (''Host x'' @ [nl]) \<and> map_of (files w2) ''/c'' = None"
proof -
  let ?M = demo_machine and ?conf = "login_config ''http://cp'' ''flex_session=fs_1'' ''ann-pc'' demo_pair"
  let ?p = "cfgPathOrDefault ?M (lf_cfgPath demo_flags)"
  obtain w1 where l: "login_cmd ?M demo_net demo_peripherals demo_flags demo_before = (Inr (), w1)"
    and rd: "ReadClientConfig ?M ?p w1 = (Inr ?conf, w1)" using demo_reads unfolding demo_paths by blast
  obtain r w2 where o: "logout_cmd ?M demo_net (lf_cfgPath demo_flags) w1 = (r, w2)" by fastforce
  have "map_of (files demo_before) (ssh_config_path ?M) = Some ''Host x''" "\<not> go_Contains ''Host x'' sshBlockBegin"
    "\<not> ssh_files (ssh_config_path ?M) ?p" "\<not> in_dir (state_dir ?M) (ssh_config_path ?M)"
    unfolding demo_paths by code_simp+
  note out = logout_undoes_login[OF demo_faultless(1) this(1,2) demo_block_ok this(3,4) l rd o]
  have "r = Inr ()" "map_of (files w2) (ssh_config_path ?M) = Some (ends_line ''Host x'')" "map_of (files w2) ?p = None"
    using out by blast+
  moreover have "ends_line ''Host x'' = ''Host x'' @ [nl]" by (simp add: ends_line_def nl_def)
  moreover have "lf_cfgPath demo_flags = ''/c''" by (simp add: demo_flags_def)
  ultimately show ?thesis using l o unfolding demo_paths by auto
qed

subsection \<open>ssh and proxy\<close>

text \<open>C38: \<open>flexctl ssh\<close> only connects to a running environment of the user with the given name, and the host it
  hands to ssh is the one that \<open>flexctl proxy\<close> dials after it strips the tailnet's domain. Neither
  files nor output change.\<close>

theorem ssh_connects_to_running_env:
  assumes "BuildSSHArgs M N cfgPath selfPath envName extra w = (Inr args, w')"
  shows "\<exists>conf es e. ReadClientConfig M (cfgPathOrDefault M cfgPath) w = (Inr conf, w) \<and>
    api_ListEnvs N (NewAPIClient (ControlPlane conf) (SessionCookie conf)) w = (Inr es, w') \<and>
    e \<in> set es \<and> ae_Name e = envName \<and> ae_Status e = ''running'' \<and>
    drop 8 args = (''dev@'' @ ae_Hostname e @ ''.flex'') # extra \<and>
    NormalizeProxyHost (ae_Hostname e @ ''.flex'') = ae_Hostname e \<and>
    files w' = files w \<and> printed w' = printed w"
proof -
  obtain conf w1 es where c: "ReadClientConfig M (cfgPathOrDefault M cfgPath) w = (Inr conf, w1)"
    and es: "api_ListEnvs N (NewAPIClient (ControlPlane conf) (SessionCookie conf)) w1 = (Inr es, w')"
    and e: "find (\<lambda>e. ae_Name e = envName) es \<noteq> None" "ae_Status (the (find (\<lambda>e. ae_Name e = envName) es)) = ''running''"
    and args: "drop 8 args = (''dev@'' @ ae_Hostname (the (find (\<lambda>e. ae_Name e = envName) es)) @ ''.flex'') # extra"
    using assms unfolding BuildSSHArgs_def
    by (auto simp: call_iffs Let_def give_error_def split: if_splits option.splits)
  obtain e where f: "find (\<lambda>e. ae_Name e = envName) es = Some e" using e(1) by blast
  then have "e \<in> set es" "ae_Name e = envName" by (auto simp: find_Some_iff)
  moreover have "w1 = w" using c
    by (auto simp: ReadClientConfig_def ReadFile_def and_then_def give_error_def split: option.splits prod.splits)
  moreover have "NormalizeProxyHost (ae_Hostname e @ ''.flex'') = ae_Hostname e"
    by (simp add: NormalizeProxyHost_def go_TrimSuffix_def has_suffix_iff)
  ultimately show ?thesis using c es e(2) args f remoteD[OF remote_calls(10) es] by auto
qed

lemma ssh_connects_to_running_env_witness:
  "\<exists>w1 args w2. login_cmd demo_machine demo_net demo_peripherals demo_flags demo_before = (Inr (), w1) \<and>
     BuildSSHArgs demo_machine demo_net ''/c'' ''/usr/bin/flexctl'' ''train'' [''-v''] w1 = (Inr args, w2) \<and>
     drop 8 args = [''dev@ann-train.flex'', ''-v'']"
proof -
  let ?M = demo_machine and ?conf = "login_config ''http://cp'' ''flex_session=fs_1'' ''ann-pc'' demo_pair"
  obtain w1 where l: "login_cmd ?M demo_net demo_peripherals demo_flags demo_before = (Inr (), w1)"
    and rd: "ReadClientConfig ?M ''/c'' w1 = (Inr ?conf, w1)" using demo_reads by blast
  have p: "cfgPathOrDefault ?M ''/c'' = ''/c''" by (simp add: cfgPathOrDefault_def)
  obtain args where a: "BuildSSHArgs ?M demo_net ''/c'' ''/usr/bin/flexctl'' ''train'' [''-v''] w1 = (Inr args, w1)"
    using rd by (simp add: BuildSSHArgs_def p and_then_def on_error_def demo_api_env_def)
  from ssh_connects_to_running_env[OF a] have "drop 8 args = [''dev@ann-train.flex'', ''-v'']"
    by (auto simp: p rd demo_api_env_def)
  then show ?thesis using l a by blast
qed

end
