(* ===== verification/AgentCommand.thy ===== *)
theory AgentCommand
  imports AgentRuntimeProperties RealDocker GpuInfo ClientProperties
begin

text \<open>
  \<open>flexctl agent\<close> (\<open>flexctlcli/agent.go\<close>): the configuration that \<open>flexctl join\<close> wrote, the Docker client,
  the inventory of GPUs, a new allocator over them, and the loop of \<open>AgentRuntime\<close>.
\<close>

text \<open>The allocator's devices are the positions in the inventory.\<close>

definition agent_indices :: "GPU list \<Rightarrow> int list" where
  "agent_indices gpus = map int [0..<length gpus]"

definition agent_config :: "AgentConfig \<Rightarrow> gostring \<Rightarrow> int \<Rightarrow> GPU list \<Rightarrow> Config" where
  "agent_config cfg version heartbeat gpus =
     New \<lparr>cfg_GRPCAddress = ac_GRPCAddress cfg, cfg_NodeToken = ac_NodeToken cfg, AgentVersion = version,
       HeartbeatInterval = heartbeat, BackoffInitial = 0, BackoffMax = 0, GPUDetector = Some gpus, cfg_Configured = True\<rparr>"

text \<open>The agent's world when the command starts on an engine.\<close>

definition agent_start :: "GPU list \<Rightarrow> 'd \<Rightarrow> int \<Rightarrow> 'd agent_world" where
  "agent_start gpus engine now = \<lparr>docker = engine, alloc = NewGPUAllocator (agent_indices gpus), sent = [], clock = now\<rparr>"

text \<open>
  \<open>sdk\<close> is what creating the SDK's client gives, \<open>smi\<close> what \<open>nvidia-smi\<close> does; the inventory taken at the
  start is the one that every registration reports.
\<close>

definition agent_cmd ::
  "machine \<Rightarrow> gostring \<Rightarrow> gostring \<Rightarrow> int \<Rightarrow> errtext + 'd sdk \<Rightarrow> (errtext + gostring) option \<Rightarrow> dispatch_env \<Rightarrow>
   (connection \<times> (int \<Rightarrow> int)) list \<Rightarrow> 'd \<Rightarrow> int \<Rightarrow> ('s client_world, int list \<times> 'd agent_world) call" where
  "agent_cmd M configPath version heartbeat sdk smi E attempts engine now =
     and_then (readAgentConfig M configPath) (\<lambda>cfg.
       if ac_GRPCAddress cfg = ''''
       then give_error (NewError ''config has empty grpc_address; re-run `flexctl join` with --grpc-address'')
       else (case NewRealDockerClient sdk of
               Inl e \<Rightarrow> give_error (Wrap ''docker client: '' (NewError e))
             | Inr dc \<Rightarrow>
                 let gpus = Detect smi
                 in give (Run dc E (agent_config cfg version heartbeat gpus) attempts (agent_start gpus engine now))))"

subsection \<open>From join to the agent\<close>

lemma agent_indices_ok: "distinct (agent_indices gpus)" "sort (agent_indices gpus) = agent_indices gpus"
  "length gpus \<le> 2 ^ 31 \<Longrightarrow> list_all (fits_int 32) (agent_indices gpus)"
  by (auto simp: agent_indices_def distinct_map list_all_iff fits_int_def sorted_map intro!: sorted_sort_id sorted_wrt_mono_rel[OF _ sorted_upt])

lemma agent_config_delays:
  "BackoffInitial (agent_config cfg version heartbeat gpus) = seconds 1"
  "BackoffMax (agent_config cfg version heartbeat gpus) = seconds 60"
  by (simp_all add: agent_config_def New_def Let_def)


text \<open>Whatever happens to its connections and on the engine, \<open>flexctl agent\<close> never reports a GPU for two
  environments, and it waits between three quarters of a second and 75 seconds before it connects
  again.\<close>

theorem agent_command_safe:
  assumes "agent_cmd M path version heartbeat (Inr K) smi E attempts engine now w = (Inr (delays, v), w')"
    and "length (Detect smi) \<le> 2 ^ 31" and "list_all (\<lambda>(c, rand). fair rand) attempts"
    and "u1 \<noteq> u2" and "k < length delays"
  shows "reported E u1 (sent v) \<inter> reported E u2 (sent v) = {} \<and> 750000000 \<le> delays ! k \<and> delays ! k \<le> 75000000000"
proof -
  obtain cfg where run: "Run (RealDockerClient K) E (agent_config cfg version heartbeat (Detect smi)) attempts
      (agent_start (Detect smi) engine now) = (delays, v)" (is "Run ?dc E ?cfg attempts ?s = _")
    using assms(1) by (auto simp: agent_cmd_def call_iffs NewRealDockerClient_def give_error_def Let_def split: if_splits)
  have steps: "(agent_step ?dc E)\<^sup>*\<^sup>* ?s v"
    using Run_from_steps[of ?dc E ?s ?cfg "BackoffInitial ?cfg" attempts] run by (simp add: Run_def)
  have "agent_inv E ?s"
    unfolding agent_start_def by (rule agent_inv_start) (use assms(2) agent_indices_ok in auto)
  with steps have "agent_inv E v" by (rule agent_inv_run)
  then have "reported E u1 (sent v) \<inter> reported E u2 (sent v) = {}" using agent_inv_exclusive[OF _ assms(4)] by blast
  moreover have s: "sound_delays ?cfg" by (simp add: sound_delays_def agent_config_delays seconds_def)
  have "fst (Run_from ?dc E ?cfg (base_delay ?cfg 0) attempts ?s) = delays"
    using run by (simp add: Run_def agent_config_delays seconds_def)
  then obtain m where "near (base_delay ?cfg m) (delays ! k)" using Run_from_delays[OF s assms(3), of k ?dc E 0 ?s] assms(5) by auto
  ultimately show ?thesis using near_base[OF s] by (simp add: agent_config_delays seconds_def)
qed

subsection \<open>Restarting the agent\<close>

lemma fresh_Allocate:
  assumes "Allocate u n (NewGPUAllocator (agent_indices gpus)) = (AllocOk idx, a)"
  shows "idx = map int [0..<nat n]"
proof -
  have free: "free_list (NewGPUAllocator (agent_indices gpus)) = agent_indices gpus"
    by (simp add: free_list_def used_list_def NewGPUAllocator_def agent_indices_ok(2))
  have "nat n \<le> length gpus \<and> idx = take (nat n) (agent_indices gpus) \<or> n = 0 \<and> idx = []"
    using assms free by (auto simp: Allocate_def Let_def agent_indices_def split: if_splits)
  then show ?thesis by (auto simp: agent_indices_def take_map)
qed

text \<open>C24: a restarted agent forgets the running environments: whatever containers the engine holds, and
  whatever devices they use, the first environment that is created after \<open>flexctl agent\<close> starts gets
  the devices from 0 on. The allocator is never rebuilt from the containers' labels.\<close>

theorem restarted_agent_ignores_containers:
  assumes "HandleCreate dc E cmd (agent_start gpus engine now) = (Returned, w')"
    and "last (sent w') = EnvReady (ce_env_id cmd) sid did ids" and "fits_int 32 (ce_gpu_request cmd)"
  shows "ids = map int [0..<nat (ce_gpu_request cmd)]"
proof (cases rule: HandleCreate_cases[where dc = dc and E = E and cmd = cmd and w = "agent_start gpus engine now"])
  case (ready u idx a sid did w1)
  have "idx = map int [0..<nat (ce_gpu_request cmd)]"
    using fresh_Allocate ready(2) by (simp add: agent_start_def)
  moreover have "list_all (fits_int 32) (map int [0..<nat (ce_gpu_request cmd)])"
    using assms(3) by (auto simp: list_all_iff fits_int_def)
  note map_to_int32_id[OF this]
  ultimately show ?thesis using ready assms by (auto simp: sendReady_def simp del: map_map)
qed (use assms in \<open>auto simp: sendError_def\<close>)

text \<open>An engine with a running environment on GPU 0, after a restart of its agent.\<close>

definition demo_restarted :: "MockDockerClient agent_world" where
  "demo_restarted = agent_start [\<lparr>g_Index = 0, g_Model = ''T4'', g_VRAMMB = 15360\<rparr>]
     (docker (snd (HandleCreate mock_client demo_env (demo_create ''7'' 1) demo_world))) 0"

lemma restarted_agent_ignores_containers_witness:
  "last (sent (snd (HandleCreate mock_client demo_env (demo_create ''8'' 1) demo_restarted))) = EnvReady ''8'' ''flex-net-8'' ''flex-env-8'' [0] \<and>
   [0] = map int [0..<nat (ce_gpu_request (demo_create ''8'' 1))] \<and>
   map_option (\<lambda>c. (info_State c, label_of c LabelGPUIndices))
     (map_of (Containers (docker (snd (HandleCreate mock_client demo_env (demo_create ''8'' 1) demo_restarted)))) ''flex-env-7'') =
     Some (''running'', ''0'')"
proof -
  let ?w = "snd (HandleCreate mock_client demo_env (demo_create ''8'' 1) demo_restarted)"
  have "HandleCreate mock_client demo_env (demo_create ''8'' 1) demo_restarted = (Returned, ?w)"
    by (rule prod_eqI) (simp, code_simp, simp)
  moreover have l: "last (sent ?w) = EnvReady (ce_env_id (demo_create ''8'' 1)) ''flex-net-8'' ''flex-env-8'' [0]" by code_simp
  moreover have "fits_int 32 (ce_gpu_request (demo_create ''8'' 1))" by (simp add: demo_create_def fits_int_def)
  ultimately have "[0] = map int [0..<nat (ce_gpu_request (demo_create ''8'' 1))]"
    unfolding demo_restarted_def by (rule restarted_agent_ignores_containers)
  moreover have "last (sent ?w) = EnvReady ''8'' ''flex-net-8'' ''flex-env-8'' [0]" using l by (simp add: demo_create_def)
  moreover have "map_option (\<lambda>c. (info_State c, label_of c LabelGPUIndices)) (map_of (Containers (docker ?w)) ''flex-env-7'') =
      Some (''running'', ''0'')" by code_simp
  ultimately show ?thesis by simp
qed

subsection \<open>Examples\<close>

text \<open>A node that joins and whose agent creates an environment before its stream breaks.\<close>

definition demo_inventory :: "GPU list" where
  "demo_inventory = [\<lparr>g_Index = 0, g_Model = ''T4'', g_VRAMMB = 15360\<rparr>]"

definition demo_smi :: "(errtext + gostring) option" where
  "demo_smi = Some (Inr (text_of (map (smi_line '' MiB'') demo_inventory)))"

lemma demo_detected: "Detect demo_smi = demo_inventory"
proof -
  have "list_all gpu_ok demo_inventory"
    by (simp add: demo_inventory_def gpu_ok_def fits_int_def is_space_def byte_of_def)
  from smi_parsed[OF this, of "'' MiB''"] show ?thesis by (simp add: demo_smi_def)
qed

lemma demo_joined:
  obtains w1 where "join_cmd demo_machine demo_net ''box'' ''http://cp'' ''cp:9090'' ''/a'' ''pt'' (demo_disk []) = (Inr (), w1)"
proof -
  have net: "net_request demo_net v u = None" "net_call demo_net v u hs b w = (Inr (demo_answer 201 ''201 Created''), w)"
    "dec_joined demo_net b' = Inr (''9f2c'', ''nt_abc'')" for v u hs b b' w
    by (cases w, simp add: net_call_def demo_net_def)+
  have wr: "\<exists>w1. writeAgentConfig demo_machine ''/a'' cfg w = (Inr (), w1)" for cfg and w :: "unit client_world"
    by (simp add: writeAgentConfig_def WriteFile_def MkdirAll_def demo_machine_def and_then_def on_error_def)
  obtain w1 where w1: "writeAgentConfig demo_machine ''/a'' \<lparr>ac_NodeID = ''9f2c'', ac_NodeToken = ''nt_abc'', ac_ControlPlane = ''http://cp'',
      ac_GRPCAddress = ''cp:9090''\<rparr> (demo_disk []) = (Inr (), w1)" using wr by blast
  have code: "an_code (demo_answer 201 ''201 Created'') = 201" by (simp add: demo_answer_def)
  from that show thesis
    by (simp add: join_cmd_def Let_def net code w1 and_then_def[of "on_error _ _"] on_error_def print_all_def)
qed

lemma demo_net_plain: "dec_joined demo_net b = Inr (i, t) \<Longrightarrow> plain i \<and> plain t \<and> t \<noteq> ''''"
  by (auto simp: demo_net_def plain_def byte_of_def)

lemma demo_plain: "plain ''http://cp''" "plain ''cp:9090''"
  by (simp_all add: plain_def byte_of_def)

definition demo_broken :: "(connection \<times> (int \<Rightarrow> int)) list" where
  "demo_broken = [(demo_connection [Received (MsgCreateEnv (demo_create ''7'' 1)), StreamEnd (Some ''reset'')], \<lambda>n. 0)]"

definition demo_joined_config :: AgentConfig where
  "demo_joined_config = \<lparr>ac_NodeID = ''9f2c'', ac_NodeToken = ''nt_abc'', ac_ControlPlane = ''http://cp'', ac_GRPCAddress = ''cp:9090''\<rparr>"

definition demo_agent_run :: "int list \<times> unit agent_world" where
  "demo_agent_run = Run (RealDockerClient demo_sdk) demo_env (agent_config demo_joined_config ''0.1.0'' (seconds 30) demo_inventory)
     demo_broken (agent_start demo_inventory () 0)"


lemma agent_command_safe_witness:
  "fst demo_agent_run = [750000000] \<and> reported demo_env 7 (sent (snd demo_agent_run)) = {0} \<and>
   reported demo_env 7 (sent (snd demo_agent_run)) \<inter> reported demo_env 8 (sent (snd demo_agent_run)) = {} \<and>
   750000000 \<le> fst demo_agent_run ! 0 \<and> fst demo_agent_run ! 0 \<le> 75000000000"
proof -
  let ?w = "demo_disk [(''/a'', text_of (agent_config_lines demo_joined_config))]"
  have "readAgentConfig demo_machine ''/a'' ?w = (Inr demo_joined_config, ?w)"
    using read_written_agent_text[of ?w "''/a''" demo_joined_config demo_machine]
    by (simp add: demo_disk_def demo_machine_def demo_joined_config_def plain_def byte_of_def)
  then have "agent_cmd demo_machine ''/a'' ''0.1.0'' (seconds 30) (Inr demo_sdk) demo_smi demo_env demo_broken () 0 ?w =
      (Inr (fst demo_agent_run, snd demo_agent_run), ?w)"
    by (simp add: agent_cmd_def and_then_def NewRealDockerClient_def demo_detected demo_agent_run_def)
      (simp add: demo_joined_config_def)
  moreover have d: "fst demo_agent_run = [750000000]" by code_simp
  moreover have r: "reported demo_env 7 (sent (snd demo_agent_run)) = {0}" by code_simp
  moreover have "length (Detect demo_smi) \<le> 2 ^ 31" by (simp add: demo_detected demo_inventory_def)
  moreover have "list_all (\<lambda>(c, rand). fair rand) demo_broken" by (simp add: demo_broken_def fair_def)
  ultimately show ?thesis using agent_command_safe[of demo_machine "''/a''" "''0.1.0''" "seconds 30" demo_sdk demo_smi demo_env
      demo_broken "()" 0 ?w "fst demo_agent_run" "snd demo_agent_run" ?w 7 8 0] by simp
qed

end
