(* ===== verification/Sidecar.thy ===== *)
theory Sidecar
  imports RealDocker GoFiles
begin

text \<open>
  \<open>flexctl sidecar\<close> (\<open>flexctlcli/sidecar.go\<close>), the program of the container that brings an environment
  into the tailnet: it reads the variables that the agent's \<open>sidecar_spec\<close> sets, starts the daemon,
  waits for its socket, logs in, and logs out when it is told to stop. The processes it runs are
  the world: the commands so far, in order, and the time in nanoseconds.
\<close>

datatype process_event =
    Started "gostring list"
  | Executed "gostring list"
  | Terminated

record sidecar_world =
  sc_events :: "process_event list"
  sc_clock :: int

text \<open>
  What the operating system answers: whether the daemon starts, when its socket is there, how
  \<open>tailscale up\<close> ends, and how long a look at the socket takes.
\<close>

record sidecar_os =
  so_start :: "errtext option"
  so_socket :: "int \<Rightarrow> bool"
  so_up :: "errtext option"
  so_stat_time :: "int \<Rightarrow> nat"

definition event :: "process_event \<Rightarrow> sidecar_world \<Rightarrow> sidecar_world" where
  "event e w = w\<lparr>sc_events := sc_events w @ [e]\<rparr>"

function wait_socket :: "sidecar_os \<Rightarrow> int \<Rightarrow> int \<Rightarrow> int" where
  "wait_socket S deadline t =
     (if t < deadline then
        let t1 = t + int (so_stat_time S t)
        in if so_socket S t1 then t1 else wait_socket S deadline (t1 + 200000000)
      else t)"
  by pat_completeness auto
termination
  by (relation "measure (\<lambda>(S, deadline, t). nat (deadline - t))") auto

declare wait_socket.simps [simp del]

definition daemon_args :: "gostring list" where
  "daemon_args = [''tailscaled'', ''--state=/var/lib/tailscale/tailscaled.state'',
     ''--socket=/var/run/tailscale/tailscaled.sock'', ''--tun=tailscale0'']"

definition up_args :: "gostring \<Rightarrow> gostring \<Rightarrow> gostring \<Rightarrow> gostring \<Rightarrow> gostring list" where
  "up_args hsURL authkey hostname tags =
     [''tailscale'', ''up'', ''--login-server='' @ hsURL, ''--authkey='' @ authkey, ''--hostname='' @ hostname, ''--accept-dns=false''] @
     (let t = go_TrimSpace tags in if t \<noteq> '''' then [''--advertise-tags='' @ t] else [])"

text \<open>The command up to its end after the signal; \<open>mkdir\<close> is the machine's.\<close>

definition sidecar_cmd :: "machine \<Rightarrow> sidecar_os \<Rightarrow> sidecar_world \<Rightarrow> (go_error + unit) \<times> sidecar_world" where
  "sidecar_cmd M S w =
     (let hostname = m_getenv M ''FLEXCTL_HOSTNAME'';
          authkey = m_getenv M ''FLEXCTL_AUTHKEY'';
          hsURL = m_getenv M ''FLEXCTL_HEADSCALE_URL'';
          tags = m_getenv M ''FLEXCTL_TAGS''
      in if hostname = '''' \<or> authkey = '''' \<or> hsURL = ''''
         then (Inl (NewError ''FLEXCTL_HOSTNAME, FLEXCTL_AUTHKEY, FLEXCTL_HEADSCALE_URL required''), w)
         else (case m_fault M ''mkdir'' ''/var/lib/tailscale'' of
                 Some e \<Rightarrow> (Inl (Wrap ''mkdir state: '' (NewError e)), w)
               | None \<Rightarrow>
              (case m_fault M ''mkdir'' ''/var/run/tailscale'' of
                 Some e \<Rightarrow> (Inl (Wrap ''mkdir run: '' (NewError e)), w)
               | None \<Rightarrow>
              (case so_start S of
                 Some e \<Rightarrow> (Inl (Wrap ''start tailscaled: '' (NewError e)), w)
               | None \<Rightarrow>
                   let w = event (Started daemon_args) w;
                       w = w\<lparr>sc_clock := wait_socket S (sc_clock w + seconds 15) (sc_clock w)\<rparr>;
                       w = event (Executed (up_args hsURL authkey hostname tags)) w
                   in (case so_up S of
                         Some e \<Rightarrow> (Inl (Wrap ''tailscale up: '' (NewError e)), event Terminated w)
                       | None \<Rightarrow> (Inr (), event Terminated (event (Executed [''tailscale'', ''logout'']) w)))))))"

lemma wait_socket_bound:
  assumes "\<And>t. int (so_stat_time S t) \<le> d" and "t \<le> deadline"
  shows "t \<le> wait_socket S deadline t \<and> wait_socket S deadline t \<le> deadline + d + 200000000"
  using assms(2)
proof (induction "nat (deadline - t)" arbitrary: t rule: less_induct)
  case less
  let ?t1 = "t + int (so_stat_time S t)"
  have d: "0 \<le> d" using assms(1)[of t] by simp
  show ?case
  proof (cases "t < deadline \<and> \<not> so_socket S ?t1")
    case True
    show ?thesis
    proof (cases "?t1 + 200000000 \<le> deadline")
      case later: True
      then show ?thesis using less.hyps[of "?t1 + 200000000"] True by (subst (1 2) wait_socket.simps) (auto simp: Let_def)
    next
      case False
      then have "wait_socket S deadline (?t1 + 200000000) = ?t1 + 200000000" by (subst wait_socket.simps) simp
      then show ?thesis using True assms(1)[of t] by (subst (1 2) wait_socket.simps) (simp add: Let_def)
    qed
  next
    case False
    then show ?thesis using assms(1)[of t] less.prems d by (subst (1 2) wait_socket.simps) (auto simp: Let_def)
  qed
qed

text \<open>A machine is the inside of a container when its environment variables are those of the specification.\<close>

definition inside :: "ContainerSpec \<Rightarrow> machine \<Rightarrow> bool" where
  "inside spec M \<longleftrightarrow> m_getenv M = (\<lambda>k. gomap_get (spec_Env spec) k '''') \<and> (\<forall>path. m_fault M ''mkdir'' path = None)"


definition demo_inside :: "CreateEnv \<Rightarrow> machine" where
  "demo_inside cmd = \<lparr>m_getenv = (\<lambda>k. gomap_get (spec_Env (sidecar_spec cmd)) k ''''), m_home = ''/root'', m_hostname = ''flex'',
     m_executable = ''/flexctl'', m_fault = (\<lambda>_ _. None)\<rparr>"

definition demo_os :: sidecar_os where
  "demo_os = \<lparr>so_start = None, so_socket = (\<lambda>t. 500000000 \<le> t), so_up = None, so_stat_time = (\<lambda>_. 0)\<rparr>"


end
