(* ===== verification/Concurrency.thy ===== *)
theory Concurrency
  imports AgentProperties
begin

text \<open>
  The agent runs every handler in a goroutine of its own. Here a handler is a sequence of atomic
  steps, one for each call of the engine, of the allocator (whose methods hold its mutex) or of the
  sender (likewise), and one for each round of the health wait. Run alone, the steps are the handler
  of \<open>Dispatcher\<close>; run together, they are the agent's interleavings.
\<close>

subsection \<open>Handlers as steps\<close>

text \<open>What is left to do once nothing is decided any more; errors of these engine calls are ignored.\<close>

datatype cleanup =
    DoStop gostring int
  | DoRemove gostring
  | DoRemoveVolume gostring
  | DoRelease uuid
  | DoSend AgentMessage

fun do_cleanup :: "'d docker_client \<Rightarrow> cleanup \<Rightarrow> 'd agent_world \<Rightarrow> 'd agent_world" where
  "do_cleanup dc (DoStop name t) w = try_docker (StopContainer dc name t) w"
| "do_cleanup dc (DoRemove name) w = try_docker (RemoveContainer dc name True) w"
| "do_cleanup dc (DoRemoveVolume name) w = try_docker (RemoveVolume dc name) w"
| "do_cleanup dc (DoRelease u) w = release_gpus u w"
| "do_cleanup dc (DoSend m) w = w\<lparr>sent := sent w @ [m]\<rparr>"

text \<open>Where a handler is, with its variables; \<open>Finish\<close> carries the environment of its command.\<close>

datatype pc =
    Finish gostring "cleanup list"
  | Panicking gostring
  | NewCreate CreateEnv
  | CrSidecar CreateEnv uuid "int list"
  | CrStartSidecar CreateEnv uuid "int list" gostring
  | CrWait CreateEnv uuid "int list" gostring int
  | CrDev CreateEnv uuid "int list" gostring
  | CrStartDev CreateEnv uuid "int list" gostring gostring
  | NewStart StartEnv
  | StInspect StartEnv uuid ContainerInfo
  | StAllocate StartEnv uuid ContainerInfo ContainerInfo
  | StRmSidecar StartEnv uuid ContainerInfo ContainerInfo "int list"
  | StSidecar StartEnv uuid ContainerInfo ContainerInfo "int list"
  | StStartSidecar StartEnv uuid ContainerInfo "int list" gostring
  | StWait StartEnv uuid ContainerInfo "int list" gostring int
  | StRmDev StartEnv uuid ContainerInfo "int list" gostring
  | StDev StartEnv uuid ContainerInfo "int list" gostring
  | StStartDev StartEnv uuid "int list" gostring gostring

definition cr_error :: "CreateEnv \<Rightarrow> gostring \<Rightarrow> errtext \<Rightarrow> cleanup" where
  "cr_error cmd stage e = DoSend (EnvError (ce_env_id cmd) stage e)"

definition st_error :: "StartEnv \<Rightarrow> errtext \<Rightarrow> cleanup" where
  "st_error cmd e = DoSend (EnvError (se_env_id cmd) ''start'' e)"

definition drop_calls :: "gostring \<Rightarrow> cleanup list" where
  "drop_calls sid = [DoStop sid (seconds 5), DoRemove sid]"

text \<open>One round of the wait: its end with an error or healthy, or another round.\<close>

definition wait_round ::
  "'d docker_client \<Rightarrow> dispatch_env \<Rightarrow> int \<Rightarrow> gostring \<Rightarrow> 'd agent_world \<Rightarrow> (errtext + unit) option \<times> 'd agent_world" where
  "wait_round dc E deadline sid w =
     (if clock w < deadline then
        (case ctxErr E (clock w) of
           Some e \<Rightarrow> (Some (Inl e), w)
         | None \<Rightarrow>
             let (r, w1) = on_docker (Exec dc sid [''tailscale'', ''status'']) w;
                 w2 = w1\<lparr>clock := clock w + int (execTime E (clock w))\<rparr>
             in if healthy r then (Some (Inr ()), w2) else (None, w2\<lparr>clock := clock w2 + 50000000\<rparr>))
      else (Some (Inl (''sidecar did not report tailnet IP in '' @ go_Duration_String (healthTimeout E))), w))"

fun create_step :: "'d docker_client \<Rightarrow> dispatch_env \<Rightarrow> pc \<Rightarrow> 'd agent_world \<Rightarrow> pc \<times> 'd agent_world" where
  "create_step dc E (NewCreate cmd) w =
     (case uuidParse E (ce_env_id cmd) of
        Inl e \<Rightarrow> (Finish (ce_env_id cmd) [cr_error cmd ''unknown'' (''invalid env_id: '' @ e)], w)
      | Inr u \<Rightarrow>
          (case Allocate u (ce_gpu_request cmd) (alloc w) of
             (AllocPanic, a) \<Rightarrow> (Panicking (ce_env_id cmd), w\<lparr>alloc := a\<rparr>)
           | (AllocErr e, a) \<Rightarrow> (Finish (ce_env_id cmd) [cr_error cmd ''unknown'' e], w\<lparr>alloc := a\<rparr>)
           | (AllocOk idx, a) \<Rightarrow> (CrSidecar cmd u idx, w\<lparr>alloc := a\<rparr>)))"
| "create_step dc E (CrSidecar cmd u idx) w =
     (case on_docker (CreateContainer dc (sidecar_spec cmd)) w of
        (Inl e, w) \<Rightarrow> (Finish (ce_env_id cmd) [DoRelease u, cr_error cmd ''sidecar_start'' e], w)
      | (Inr sid, w) \<Rightarrow> (CrStartSidecar cmd u idx sid, w))"
| "create_step dc E (CrStartSidecar cmd u idx sid) w =
     (case on_docker (StartContainer dc sid) w of
        (Inl e, w) \<Rightarrow> (Finish (ce_env_id cmd) [DoRemove sid, DoRelease u, cr_error cmd ''sidecar_start'' e], w)
      | (Inr _, w) \<Rightarrow> (CrWait cmd u idx sid (clock w + healthTimeout E), w))"
| "create_step dc E (CrWait cmd u idx sid deadline) w =
     (case wait_round dc E deadline sid w of
        (None, w) \<Rightarrow> (CrWait cmd u idx sid deadline, w)
      | (Some (Inl e), w) \<Rightarrow> (Finish (ce_env_id cmd) (drop_calls sid @ [DoRelease u, cr_error cmd ''sidecar_health'' e]), w)
      | (Some (Inr _), w) \<Rightarrow> (CrDev cmd u idx sid, w))"
| "create_step dc E (CrDev cmd u idx sid) w =
     (case on_docker (CreateContainer dc (dev_spec cmd idx)) w of
        (Inl e, w) \<Rightarrow> (Finish (ce_env_id cmd) (drop_calls sid @ [DoRelease u, cr_error cmd ''dev_start'' e]), w)
      | (Inr did, w) \<Rightarrow> (CrStartDev cmd u idx sid did, w))"
| "create_step dc E (CrStartDev cmd u idx sid did) w =
     (case on_docker (StartContainer dc did) w of
        (Inl e, w) \<Rightarrow>
          (Finish (ce_env_id cmd) (DoRemove did # drop_calls sid @ [DoRelease u, cr_error cmd ''dev_start'' e]), w)
      | (Inr _, w) \<Rightarrow> (Finish (ce_env_id cmd) [DoSend (EnvReady (ce_env_id cmd) sid did (map to_int32 idx))], w))"
| "create_step dc E p w = (p, w)"

fun start_step :: "'d docker_client \<Rightarrow> dispatch_env \<Rightarrow> pc \<Rightarrow> 'd agent_world \<Rightarrow> pc \<times> 'd agent_world" where
  "start_step dc E (NewStart cmd) w =
     (case uuidParse E (se_env_id cmd) of
        Inl _ \<Rightarrow> (Finish (se_env_id cmd) [DoSend (EnvError (se_env_id cmd) ''unknown'' ''invalid env_id'')], w)
      | Inr u \<Rightarrow>
          (case on_docker (InspectContainer dc (env_name (se_env_id cmd))) w of
             (Inl e, w) \<Rightarrow> (Finish (se_env_id cmd) [st_error cmd (''dev container not found: '' @ e)], w)
           | (Inr dev, w) \<Rightarrow> (StInspect cmd u dev, w)))"
| "start_step dc E (StInspect cmd u dev) w =
     (case on_docker (InspectContainer dc (net_name (se_env_id cmd))) w of
        (Inl e, w) \<Rightarrow> (Finish (se_env_id cmd) [st_error cmd (''sidecar container not found: '' @ e)], w)
      | (Inr side, w) \<Rightarrow> (StAllocate cmd u dev side, w))"
| "start_step dc E (StAllocate cmd u dev side) w =
     (let labelled = parseIndicesCSV (label_of dev LabelGPUIndices)
      in if length labelled > 0 then
           (case Allocate u (int (length labelled)) (alloc w) of
              (AllocPanic, a) \<Rightarrow> (Panicking (se_env_id cmd), w\<lparr>alloc := a\<rparr>)
            | (AllocErr e, a) \<Rightarrow> (Finish (se_env_id cmd) [st_error cmd e], w\<lparr>alloc := a\<rparr>)
            | (AllocOk idx, a) \<Rightarrow> (StRmSidecar cmd u dev side idx, w\<lparr>alloc := a\<rparr>))
         else (StRmSidecar cmd u dev side labelled, w))"
| "start_step dc E (StRmSidecar cmd u dev side idx) w =
     (case on_docker (RemoveContainer dc (net_name (se_env_id cmd)) True) w of
        (Inl e, w) \<Rightarrow> (Finish (se_env_id cmd) [st_error cmd (''rm sidecar: '' @ e), DoRelease u], w)
      | (Inr _, w) \<Rightarrow> (StSidecar cmd u dev side idx, w))"
| "start_step dc E (StSidecar cmd u dev side idx) w =
     (case on_docker (CreateContainer dc (restart_sidecar_spec cmd side)) w of
        (Inl e, w) \<Rightarrow> (Finish (se_env_id cmd) [st_error cmd (''create sidecar: '' @ e), DoRelease u], w)
      | (Inr sid, w) \<Rightarrow> (StStartSidecar cmd u dev idx sid, w))"
| "start_step dc E (StStartSidecar cmd u dev idx sid) w =
     (case on_docker (StartContainer dc sid) w of
        (Inl e, w) \<Rightarrow> (Finish (se_env_id cmd) [DoRemove sid, DoRelease u, st_error cmd (''start sidecar: '' @ e)], w)
      | (Inr _, w) \<Rightarrow> (StWait cmd u dev idx sid (clock w + healthTimeout E), w))"
| "start_step dc E (StWait cmd u dev idx sid deadline) w =
     (case wait_round dc E deadline sid w of
        (None, w) \<Rightarrow> (StWait cmd u dev idx sid deadline, w)
      | (Some (Inl e), w) \<Rightarrow> (Finish (se_env_id cmd) (drop_calls sid @ [DoRelease u, st_error cmd (''sidecar health: '' @ e)]), w)
      | (Some (Inr _), w) \<Rightarrow> (StRmDev cmd u dev idx sid, w))"
| "start_step dc E (StRmDev cmd u dev idx sid) w =
     (case on_docker (RemoveContainer dc (env_name (se_env_id cmd)) True) w of
        (Inl e, w) \<Rightarrow> (Finish (se_env_id cmd) (drop_calls sid @ [DoRelease u, st_error cmd (''rm dev: '' @ e)]), w)
      | (Inr _, w) \<Rightarrow> (StDev cmd u dev idx sid, w))"
| "start_step dc E (StDev cmd u dev idx sid) w =
     (case on_docker (CreateContainer dc (restart_dev_spec cmd dev idx)) w of
        (Inl e, w) \<Rightarrow> (Finish (se_env_id cmd) (drop_calls sid @ [DoRelease u, st_error cmd (''create dev: '' @ e)]), w)
      | (Inr did, w) \<Rightarrow> (StStartDev cmd u idx sid did, w))"
| "start_step dc E (StStartDev cmd u idx sid did) w =
     (case on_docker (StartContainer dc did) w of
        (Inl e, w) \<Rightarrow>
          (Finish (se_env_id cmd) (DoRemove did # drop_calls sid @ [DoRelease u, st_error cmd (''start dev: '' @ e)]), w)
      | (Inr _, w) \<Rightarrow> (Finish (se_env_id cmd) [DoSend (EnvReady (se_env_id cmd) sid did (map to_int32 idx))], w))"
| "start_step dc E p w = (p, w)"

text \<open>Stopping and deleting only clean up.\<close>

definition stop_calls :: "dispatch_env \<Rightarrow> gostring \<Rightarrow> cleanup list" where
  "stop_calls E env =
     (case uuidParse E env of
        Inl _ \<Rightarrow> [DoSend (EnvError env ''unknown'' ''invalid env_id'')]
      | Inr u \<Rightarrow> [DoStop (env_name env) (seconds 10), DoStop (net_name env) (seconds 10), DoRelease u, DoSend (EnvStopped env)])"

definition delete_calls :: "dispatch_env \<Rightarrow> gostring \<Rightarrow> cleanup list" where
  "delete_calls E env =
     (case uuidParse E env of
        Inl _ \<Rightarrow> [DoSend (EnvError env ''unknown'' ''invalid env_id'')]
      | Inr u \<Rightarrow> [DoStop (env_name env) (seconds 5), DoStop (net_name env) (seconds 5), DoRemove (env_name env),
          DoRemove (net_name env), DoRemoveVolume (''flex-env-'' @ env), DoRelease u, DoSend (EnvDeleted env)])"

definition start_pc :: "dispatch_env \<Rightarrow> ControlMessage \<Rightarrow> pc" where
  "start_pc E msg =
     (case msg of
        MsgCreateEnv cmd \<Rightarrow> NewCreate cmd
      | MsgStopEnv env \<Rightarrow> Finish env (stop_calls E env)
      | MsgStartEnv cmd \<Rightarrow> NewStart cmd
      | MsgDeleteEnv env \<Rightarrow> Finish env (delete_calls E env)
      | _ \<Rightarrow> Finish '''' [])"

fun is_create :: "pc \<Rightarrow> bool" where
  "is_create (NewCreate _) = True" | "is_create (CrSidecar _ _ _) = True" | "is_create (CrStartSidecar _ _ _ _) = True"
| "is_create (CrWait _ _ _ _ _) = True" | "is_create (CrDev _ _ _ _) = True" | "is_create (CrStartDev _ _ _ _ _) = True"
| "is_create _ = False"

fun handler_step :: "'d docker_client \<Rightarrow> dispatch_env \<Rightarrow> pc \<Rightarrow> 'd agent_world \<Rightarrow> pc \<times> 'd agent_world" where
  "handler_step dc E (Finish env (c # cs)) w = (Finish env cs, do_cleanup dc c w)"
| "handler_step dc E (Finish env []) w = (Finish env [], w)"
| "handler_step dc E p w = (if is_create p then create_step dc E p w else start_step dc E p w)"

text \<open>A goroutine is over when it has nothing left to do or has panicked.\<close>

fun over :: "pc \<Rightarrow> bool" where
  "over (Finish env cs) = (cs = [])"
| "over (Panicking env) = True"
| "over _ = False"

subsection \<open>A handler alone\<close>

definition alone_step :: "'d docker_client \<Rightarrow> dispatch_env \<Rightarrow> pc \<times> 'd agent_world \<Rightarrow> pc \<times> 'd agent_world \<Rightarrow> bool" where
  "alone_step dc E c c' \<longleftrightarrow> \<not> over (fst c) \<and> c' = handler_step dc E (fst c) (snd c)"

abbreviation alone where
  "alone dc E \<equiv> (alone_step dc E)\<^sup>*\<^sup>*"

lemma alone_first:
  "\<not> over p \<Longrightarrow> alone dc E (handler_step dc E p w) c \<Longrightarrow> alone dc E (p, w) c"
  by (rule converse_rtranclp_into_rtranclp) (simp_all add: alone_step_def)

lemma alone_create:
  "is_create p \<Longrightarrow> alone dc E (create_step dc E p w) c \<Longrightarrow> alone dc E (p, w) c"
  by (rule alone_first) (cases p; simp)+

definition is_start :: "pc \<Rightarrow> bool" where
  "is_start p \<longleftrightarrow> \<not> is_create p \<and> (\<forall>env cs. p \<noteq> Finish env cs) \<and> (\<forall>env. p \<noteq> Panicking env)"

lemma alone_start:
  "is_start p \<Longrightarrow> alone dc E (start_step dc E p w) c \<Longrightarrow> alone dc E (p, w) c"
  by (rule alone_first) (cases p; simp add: is_start_def)+

lemma alone_finish: "alone dc E (Finish env cs, w) (Finish env [], fold (do_cleanup dc) cs w)"
proof (induction cs arbitrary: w)
  case (Cons c cs)
  show ?case by (rule alone_first) (use Cons[of "do_cleanup dc c w"] in simp_all)
qed simp

lemma alone_finishI: "w' = fold (do_cleanup dc) cs w \<Longrightarrow> alone dc E (Finish env cs, w) (Finish env [], w')"
  using alone_finish by simp

lemma wait_loop_round:
  "wait_loop dc E dl sid w =
     (case wait_round dc E dl sid w of (None, w') \<Rightarrow> wait_loop dc E dl sid w' | (Some r, w') \<Rightarrow> (r, w'))"
  by (subst wait_loop.simps) (auto simp: wait_round_def Let_def split: option.split prod.split)

lemma wait_round_clock:
  "wait_round dc E dl sid w = (None, w') \<Longrightarrow> clock w < dl \<and> clock w < clock w'"
  by (auto simp: wait_round_def Let_def split: if_splits option.splits prod.splits)

lemma alone_wait:
  assumes "\<And>w r w'. wait_round dc E dl sid w = (r, w') \<Longrightarrow>
      handler_step dc E p w = ((case r of None \<Rightarrow> p | Some x \<Rightarrow> k x), w')" and "\<not> over p"
  shows "alone dc E (p, w) (k (fst (wait_loop dc E dl sid w)), snd (wait_loop dc E dl sid w))"
proof (induction "nat (dl - clock w)" arbitrary: w rule: less_induct)
  case less
  obtain r w' where r: "wait_round dc E dl sid w = (r, w')" by force
  show ?case
  proof (cases r)
    case None
    then have "nat (dl - clock w') < nat (dl - clock w)" using wait_round_clock[of dc E dl sid w w'] r by simp
    from less[OF this] show ?thesis
      using assms(1)[OF r] r None by (intro alone_first[OF assms(2)]) (simp add: wait_loop_round[of dc E dl sid w])
  next
    case (Some x)
    then show ?thesis
      using assms(1)[OF r] r by (intro alone_first[OF assms(2)]) (simp add: wait_loop_round[of dc E dl sid w])
  qed
qed

lemma cleanup_simps:
  "fold (do_cleanup dc) (drop_calls sid) w = drop_sidecar dc sid w"
  "do_cleanup dc (cr_error cmd stage e) w = sendError (ce_env_id cmd) stage e w"
  "do_cleanup dc (st_error cmd' e) w = sendError (se_env_id cmd') ''start'' e w"
  by (simp_all add: drop_calls_def drop_sidecar_def cr_error_def st_error_def sendError_def)

lemmas alone_ends = alone_finishI cleanup_simps sendReady_def

lemma alone_dev:
  "alone dc E (CrDev cmd u idx sid, w)
     (Finish (ce_env_id cmd) [], case create_dev dc cmd idx sid w of
        (Inl (stage, e), w') \<Rightarrow> sendError (ce_env_id cmd) stage e (release_gpus u w')
      | (Inr did, w') \<Rightarrow> sendReady (ce_env_id cmd) sid did idx w')"
proof (rule alone_create)
  obtain r w1 where c: "on_docker (CreateContainer dc (dev_spec cmd idx)) w = (r, w1)" by force
  show "alone dc E (create_step dc E (CrDev cmd u idx sid) w) (Finish (ce_env_id cmd) [], case create_dev dc cmd idx sid w of
        (Inl (stage, e), w') \<Rightarrow> sendError (ce_env_id cmd) stage e (release_gpus u w')
      | (Inr did, w') \<Rightarrow> sendReady (ce_env_id cmd) sid did idx w')"
  proof (cases r)
    case (Inl e)
    then show ?thesis using c by (simp add: create_dev_def alone_ends)
  next
    case (Inr did)
    obtain q w2 where s: "on_docker (StartContainer dc did) w1 = (q, w2)" by force
    have "alone dc E (CrStartDev cmd u idx sid did, w1) (Finish (ce_env_id cmd) [], case create_dev dc cmd idx sid w of
        (Inl (stage, e), w') \<Rightarrow> sendError (ce_env_id cmd) stage e (release_gpus u w')
      | (Inr did, w') \<Rightarrow> sendReady (ce_env_id cmd) sid did idx w')"
      by (rule alone_create) (use c s Inr in \<open>cases q; simp add: create_dev_def alone_ends\<close>)+
    then show ?thesis using c Inr by simp
  qed
qed simp

text \<open>The whole of a creation from its containers on.\<close>

lemma alone_sidecar:
  "alone dc E (CrSidecar cmd u idx, w)
     (Finish (ce_env_id cmd) [], case create_sidecar dc E cmd w of
        (Inl (stage, e), w') \<Rightarrow> sendError (ce_env_id cmd) stage e (release_gpus u w')
      | (Inr sid, w') \<Rightarrow> (case create_dev dc cmd idx sid w' of
            (Inl (stage, e), w') \<Rightarrow> sendError (ce_env_id cmd) stage e (release_gpus u w')
          | (Inr did, w') \<Rightarrow> sendReady (ce_env_id cmd) sid did idx w'))" (is "alone dc E _ (_, ?res)")
proof (rule alone_create)
  obtain r w1 where c: "on_docker (CreateContainer dc (sidecar_spec cmd)) w = (r, w1)" by force
  show "alone dc E (create_step dc E (CrSidecar cmd u idx) w) (Finish (ce_env_id cmd) [], ?res)"
  proof (cases r)
    case (Inl e)
    then show ?thesis using c by (simp add: create_sidecar_def alone_ends)
  next
    case sid: (Inr sid)
    obtain q w2 where s: "on_docker (StartContainer dc sid) w1 = (q, w2)" by force
    have "alone dc E (CrStartSidecar cmd u idx sid, w1) (Finish (ce_env_id cmd) [], ?res)"
    proof (rule alone_create)
      show "alone dc E (create_step dc E (CrStartSidecar cmd u idx sid) w1) (Finish (ce_env_id cmd) [], ?res)"
      proof (cases q)
        case (Inl e)
        then show ?thesis using c s sid by (simp add: create_sidecar_def alone_ends)
      next
        case (Inr x)
        let ?dl = "clock w2 + healthTimeout E"
        let ?k = "\<lambda>r. case r of Inl e \<Rightarrow> Finish (ce_env_id cmd) (drop_calls sid @ [DoRelease u, cr_error cmd ''sidecar_health'' e])
            | Inr _ \<Rightarrow> CrDev cmd u idx sid"
        obtain h w3 where h: "wait_loop dc E ?dl sid w2 = (h, w3)" by force
        have "alone dc E (CrWait cmd u idx sid ?dl, w2) (?k h, w3)"
          using alone_wait[of dc E ?dl sid "CrWait cmd u idx sid ?dl" ?k w2] by (simp add: h split: option.split sum.split)
        moreover have "alone dc E (?k h, w3) (Finish (ce_env_id cmd) [], ?res)"
          using c s sid Inr h alone_dev[of dc E cmd u idx sid w3]
          by (cases h) (simp_all add: create_sidecar_def waitSidecarHealth_def alone_ends)
        ultimately show ?thesis using s Inr by simp
      qed
    qed simp
    then show ?thesis using c sid by simp
  qed
qed simp

lemma alone_HandleCreate:
  "alone dc E (NewCreate cmd, w)
     (case HandleCreate dc E cmd w of (r, w') \<Rightarrow> (if r = Returned then Finish (ce_env_id cmd) [] else Panicking (ce_env_id cmd), w'))"
proof (rule alone_create)
  show "alone dc E (create_step dc E (NewCreate cmd) w)
     (case HandleCreate dc E cmd w of (r, w') \<Rightarrow> (if r = Returned then Finish (ce_env_id cmd) [] else Panicking (ce_env_id cmd), w'))"
  proof (cases "uuidParse E (ce_env_id cmd)")
    case (Inl e)
    then show ?thesis by (simp add: HandleCreate_def alone_ends)
  next
    case (Inr u)
    obtain r a where a: "Allocate u (ce_gpu_request cmd) (alloc w) = (r, a)" by force
    show ?thesis
    proof (cases r)
      case (AllocOk idx)
      then show ?thesis using Inr a alone_sidecar[of dc E cmd u idx "w\<lparr>alloc := a\<rparr>"]
        by (auto simp: HandleCreate_def split: prod.splits sum.splits)
    qed (use Inr a in \<open>simp_all add: HandleCreate_def alone_ends\<close>)
  qed
qed simp

text \<open>The same for a start.\<close>

lemma alone_restart_dev:
  "alone dc E (StRmDev cmd u dev idx sid, w) (Finish (se_env_id cmd) [], restart_dev dc cmd u dev idx sid w)"
    (is "alone dc E _ (_, ?res)")
proof (rule alone_start)
  obtain r w1 where c: "on_docker (RemoveContainer dc (env_name (se_env_id cmd)) True) w = (r, w1)" by force
  obtain q w2 where d: "on_docker (CreateContainer dc (restart_dev_spec cmd dev idx)) w1 = (q, w2)" by force
  show "alone dc E (start_step dc E (StRmDev cmd u dev idx sid) w) (Finish (se_env_id cmd) [], ?res)"
  proof (cases r)
    case (Inl e)
    then show ?thesis using c by (simp add: restart_dev_def abortSidecar_def alone_ends)
  next
    case one: (Inr x)
    have "alone dc E (StDev cmd u dev idx sid, w1) (Finish (se_env_id cmd) [], ?res)"
    proof (rule alone_start)
      show "alone dc E (start_step dc E (StDev cmd u dev idx sid) w1) (Finish (se_env_id cmd) [], ?res)"
      proof (cases q)
        case (Inl e)
        then show ?thesis using c d one by (simp add: restart_dev_def abortSidecar_def alone_ends)
      next
        case (Inr did)
        obtain s w3 where s: "on_docker (StartContainer dc did) w2 = (s, w3)" by force
        have "alone dc E (StStartDev cmd u idx sid did, w2) (Finish (se_env_id cmd) [], ?res)"
          by (rule alone_start)
            (use c d s one Inr in \<open>cases s; simp add: is_start_def restart_dev_def abortSidecar_def alone_ends\<close>)+
        then show ?thesis using d Inr by simp
      qed
    qed (simp add: is_start_def)
    then show ?thesis using c one by simp
  qed
qed (simp add: is_start_def)

lemma alone_restart_wait:
  "alone dc E (StWait cmd u dev idx sid dl, w)
     (Finish (se_env_id cmd) [], case wait_loop dc E dl sid w of
        (Inl e, w') \<Rightarrow> sendError (se_env_id cmd) ''start'' (''sidecar health: '' @ e) (release_gpus u (drop_sidecar dc sid w'))
      | (Inr _, w') \<Rightarrow> restart_dev dc cmd u dev idx sid w')" (is "alone dc E _ (_, ?res)")
proof -
  let ?k = "\<lambda>r. case r of Inl e \<Rightarrow> Finish (se_env_id cmd) (drop_calls sid @ [DoRelease u, st_error cmd (''sidecar health: '' @ e)])
      | Inr _ \<Rightarrow> StRmDev cmd u dev idx sid"
  obtain h w3 where h: "wait_loop dc E dl sid w = (h, w3)" by force
  have "alone dc E (StWait cmd u dev idx sid dl, w) (?k h, w3)"
    using alone_wait[of dc E dl sid "StWait cmd u dev idx sid dl" ?k w] by (simp add: h split: option.split sum.split)
  moreover have "alone dc E (?k h, w3) (Finish (se_env_id cmd) [], ?res)"
    using h alone_restart_dev[of dc E cmd u dev idx sid w3] by (cases h) (simp_all add: alone_ends)
  ultimately show ?thesis by simp
qed

lemma alone_restart:
  "alone dc E (StRmSidecar cmd u dev side idx, w) (Finish (se_env_id cmd) [], restart_sidecar dc E cmd u dev side idx w)"
    (is "alone dc E _ (_, ?res)")
proof (rule alone_start)
  obtain r w1 where c: "on_docker (RemoveContainer dc (net_name (se_env_id cmd)) True) w = (r, w1)" by force
  obtain q w2 where d: "on_docker (CreateContainer dc (restart_sidecar_spec cmd side)) w1 = (q, w2)" by force
  show "alone dc E (start_step dc E (StRmSidecar cmd u dev side idx) w) (Finish (se_env_id cmd) [], ?res)"
  proof (cases r)
    case (Inl e)
    then show ?thesis using c by (simp add: restart_sidecar_def alone_ends)
  next
    case one: (Inr x)
    have "alone dc E (StSidecar cmd u dev side idx, w1) (Finish (se_env_id cmd) [], ?res)"
    proof (rule alone_start)
      show "alone dc E (start_step dc E (StSidecar cmd u dev side idx) w1) (Finish (se_env_id cmd) [], ?res)"
      proof (cases q)
        case (Inl e)
        then show ?thesis using c d one by (simp add: restart_sidecar_def alone_ends)
      next
        case (Inr sid)
        obtain s w3 where s: "on_docker (StartContainer dc sid) w2 = (s, w3)" by force
        have "alone dc E (StStartSidecar cmd u dev idx sid, w2) (Finish (se_env_id cmd) [], ?res)"
        proof (rule alone_start)
          show "alone dc E (start_step dc E (StStartSidecar cmd u dev idx sid) w2) (Finish (se_env_id cmd) [], ?res)"
            using c d s one Inr alone_restart_wait[of dc E cmd u dev idx sid "clock w3 + healthTimeout E" w3]
            by (cases s) (simp_all add: restart_sidecar_def waitSidecarHealth_def alone_ends)
        qed (simp add: is_start_def)
        then show ?thesis using d Inr by simp
      qed
    qed (simp add: is_start_def)
    then show ?thesis using c one by simp
  qed
qed (simp add: is_start_def)

lemma alone_HandleStart:
  "alone dc E (NewStart cmd, w)
     (case HandleStart dc E cmd w of (r, w') \<Rightarrow> (if r = Returned then Finish (se_env_id cmd) [] else Panicking (se_env_id cmd), w'))"
    (is "alone dc E _ ?end")
proof (rule alone_start)
  obtain r w1 where c: "on_docker (InspectContainer dc (env_name (se_env_id cmd))) w = (r, w1)" by force
  obtain q w2 where d: "on_docker (InspectContainer dc (net_name (se_env_id cmd))) w1 = (q, w2)" by force
  show "alone dc E (start_step dc E (NewStart cmd) w) ?end"
  proof (cases "uuidParse E (se_env_id cmd)")
    case (Inl e)
    then show ?thesis by (simp add: HandleStart_def Let_def alone_ends sendError_def)
  next
    case u: (Inr u)
    show ?thesis
    proof (cases r)
      case (Inl e)
      then show ?thesis using c u by (simp add: HandleStart_def Let_def alone_ends)
    next
      case dev: (Inr dev)
      have "alone dc E (StInspect cmd u dev, w1) ?end"
      proof (rule alone_start)
        show "alone dc E (start_step dc E (StInspect cmd u dev) w1) ?end"
        proof (cases q)
          case (Inl e)
          then show ?thesis using c d u dev by (simp add: HandleStart_def Let_def alone_ends)
        next
          case (Inr side)
          let ?n = "int (length (parseIndicesCSV (label_of dev LabelGPUIndices)))"
          have "alone dc E (StAllocate cmd u dev side, w2) ?end"
          proof (rule alone_start)
            show "alone dc E (start_step dc E (StAllocate cmd u dev side) w2) ?end"
              using c d u dev Inr alone_restart[of dc E cmd u dev side]
              by (cases "Allocate u ?n (alloc w2)")
                (auto simp: HandleStart_def Let_def cleanup_simps split: alloc_result.split intro!: alone_finishI)
          qed (simp add: is_start_def)
          then show ?thesis using d Inr by simp
        qed
      qed (simp add: is_start_def)
      then show ?thesis using c u dev by simp
    qed
  qed
qed (simp add: is_start_def)

lemma alone_unique:
  assumes "alone dc E c d" "over (fst d)" "alone dc E c d'" "over (fst d')"
  shows "d = d'"
  using assms
proof (induction rule: converse_rtranclp_induct)
  case base
  then show ?case by (auto simp: alone_step_def elim: converse_rtranclpE)
next
  case (step c e)
  then have "alone dc E e d'" by (auto simp: alone_step_def elim: converse_rtranclpE)
  then show ?case using step by blast
qed

definition command_name :: "ControlMessage \<Rightarrow> gostring" where
  "command_name msg =
     (case msg of MsgCreateEnv cmd \<Rightarrow> ce_env_id cmd | MsgStopEnv env \<Rightarrow> env
      | MsgStartEnv cmd \<Rightarrow> se_env_id cmd | MsgDeleteEnv env \<Rightarrow> env | _ \<Rightarrow> '''')"

text \<open>Where a handler ends.\<close>

definition end_pc :: "ControlMessage \<Rightarrow> outcome \<Rightarrow> pc" where
  "end_pc msg r = (if r = Returned then Finish (command_name msg) [] else Panicking (command_name msg))"

lemma alone_handler:
  "alone dc E (start_pc E msg, w) (end_pc msg (fst (handle_command dc E msg w)), snd (handle_command dc E msg w))"
proof (cases msg)
  case (MsgCreateEnv cmd)
  then show ?thesis using alone_HandleCreate[of dc E cmd w]
    by (simp add: start_pc_def handle_command_def end_pc_def command_name_def case_prod_beta split: if_splits)
next
  case (MsgStartEnv cmd)
  then show ?thesis using alone_HandleStart[of dc E cmd w]
    by (simp add: start_pc_def handle_command_def end_pc_def command_name_def case_prod_beta split: if_splits)
next
  case (MsgStopEnv env)
  then show ?thesis
    by (cases "uuidParse E env")
      (simp_all add: start_pc_def handle_command_def end_pc_def command_name_def HandleStop_def stop_calls_def sendError_def Let_def
        alone_finishI)
next
  case (MsgDeleteEnv env)
  then show ?thesis
    by (cases "uuidParse E env")
      (simp_all add: start_pc_def handle_command_def end_pc_def command_name_def HandleDelete_def delete_calls_def sendError_def Let_def
        alone_finishI)
qed (simp_all add: start_pc_def handle_command_def end_pc_def command_name_def)


end
