(* ===== verification/ConcurrencyProperties.thy ===== *)
theory ConcurrencyProperties
  imports Concurrency AgentRuntimeProperties
begin

text \<open>
  The agent's goroutines together: the interleavings of the steps of \<open>Concurrency\<close>, what they keep
  when no two handlers work on one environment, and what a deletion that overtakes a creation breaks.
\<close>

subsection \<open>Handlers together\<close>

text \<open>
  The goroutines of an agent: a command starts one, any one that is not over takes a step, and the
  engine, the clock and messages about no environment interfere as in \<open>agent_step\<close>. A panic ends
  the program, so no step leads to it.
\<close>

inductive pool_step :: "'d docker_client \<Rightarrow> dispatch_env \<Rightarrow> pc list \<times> 'd agent_world \<Rightarrow> pc list \<times> 'd agent_world \<Rightarrow> bool"
  for dc E where
  arrive: "pool_step dc E (ps, w) (ps @ [start_pc E msg], w)"
| run: "i < length ps \<Longrightarrow> \<not> over (ps ! i) \<Longrightarrow> handler_step dc E (ps ! i) w = (p, w') \<Longrightarrow>
    (\<forall>env. p \<noteq> Panicking env) \<Longrightarrow> pool_step dc E (ps, w) (ps[i := p], w')"
| other: "(\<And>u. \<not> about E u m) \<Longrightarrow> pool_step dc E (ps, w) (ps, w\<lparr>sent := sent w @ [m]\<rparr>)"
| world: "pool_step dc E (ps, w) (ps, w\<lparr>docker := d, clock := t\<rparr>)"

fun pc_env :: "pc \<Rightarrow> gostring" where
  "pc_env (Finish env _) = env" | "pc_env (Panicking env) = env"
| "pc_env (NewCreate cmd) = ce_env_id cmd" | "pc_env (CrSidecar cmd _ _) = ce_env_id cmd"
| "pc_env (CrStartSidecar cmd _ _ _) = ce_env_id cmd" | "pc_env (CrWait cmd _ _ _ _) = ce_env_id cmd"
| "pc_env (CrDev cmd _ _ _) = ce_env_id cmd" | "pc_env (CrStartDev cmd _ _ _ _) = ce_env_id cmd"
| "pc_env (NewStart cmd) = se_env_id cmd" | "pc_env (StInspect cmd _ _) = se_env_id cmd"
| "pc_env (StAllocate cmd _ _ _) = se_env_id cmd" | "pc_env (StRmSidecar cmd _ _ _ _) = se_env_id cmd"
| "pc_env (StSidecar cmd _ _ _ _) = se_env_id cmd" | "pc_env (StStartSidecar cmd _ _ _ _) = se_env_id cmd"
| "pc_env (StWait cmd _ _ _ _ _) = se_env_id cmd" | "pc_env (StRmDev cmd _ _ _ _) = se_env_id cmd"
| "pc_env (StDev cmd _ _ _ _) = se_env_id cmd" | "pc_env (StStartDev cmd _ _ _ _) = se_env_id cmd"

text \<open>The environments that a goroutine works on: none, once it is over or when the id is malformed.\<close>

definition owners :: "dispatch_env \<Rightarrow> pc \<Rightarrow> uuid set" where
  "owners E p = (if over p then {} else {u. uuidParse E (pc_env p) = Inr u})"

text \<open>Steps in which at most one command per environment is in flight.\<close>

inductive orderly_step :: "'d docker_client \<Rightarrow> dispatch_env \<Rightarrow> pc list \<times> 'd agent_world \<Rightarrow> pc list \<times> 'd agent_world \<Rightarrow> bool"
  for dc E where
  arrive: "(\<forall>p \<in> set ps. owners E p \<inter> owners E (start_pc E msg) = {}) \<Longrightarrow>
    orderly_step dc E (ps, w) (ps @ [start_pc E msg], w)"
| go: "pool_step dc E (ps, w) (ps', w') \<Longrightarrow> length ps' = length ps \<Longrightarrow> orderly_step dc E (ps, w) (ps', w')"

text \<open>
  The rest of a clean-up settles an account of devices held and devices reported: it only deals
  with its own environment, and in the end everything reported is held.
\<close>

fun settles :: "dispatch_env \<Rightarrow> gostring \<Rightarrow> int set \<Rightarrow> int set \<Rightarrow> cleanup list \<Rightarrow> bool" where
  "settles E env H R [] = (R \<subseteq> H)"
| "settles E env H R (DoRelease v # cs) = (uuidParse E env = Inr v \<and> settles E env {} R cs)"
| "settles E env H R (DoSend m # cs) = ((\<forall>x. about E x m \<longleftrightarrow> uuidParse E env = Inr x) \<and> settles E env H (case uuidParse E env of Inl _ \<Rightarrow> R | Inr _ \<Rightarrow> ready_devices m) cs)"
| "settles E env H R (_ # cs) = settles E env H R cs"

text \<open>What a goroutine relies on: past the allocation its devices are held; a clean-up settles.\<close>

definition holds_for :: "dispatch_env \<Rightarrow> 'd agent_world \<Rightarrow> gostring \<Rightarrow> uuid \<Rightarrow> int list \<Rightarrow> bool" where
  "holds_for E w env u idx \<longleftrightarrow> uuidParse E env = Inr u \<and> set (map to_int32 idx) \<subseteq> held (alloc w) u"

fun task_ok :: "dispatch_env \<Rightarrow> 'd agent_world \<Rightarrow> pc \<Rightarrow> bool" where
  "task_ok E w (Finish env cs) =
     (cs = [] \<or> (case uuidParse E env of
        Inl _ \<Rightarrow> settles E env {} {} cs
      | Inr u \<Rightarrow> settles E env (held (alloc w) u) (reported E u (sent w)) cs))"
| "task_ok E w (Panicking env) = True"
| "task_ok E w (NewCreate cmd) = True"
| "task_ok E w (CrSidecar cmd u idx) = holds_for E w (ce_env_id cmd) u idx"
| "task_ok E w (CrStartSidecar cmd u idx sid) = holds_for E w (ce_env_id cmd) u idx"
| "task_ok E w (CrWait cmd u idx sid dl) = holds_for E w (ce_env_id cmd) u idx"
| "task_ok E w (CrDev cmd u idx sid) = holds_for E w (ce_env_id cmd) u idx"
| "task_ok E w (CrStartDev cmd u idx sid did) = holds_for E w (ce_env_id cmd) u idx"
| "task_ok E w (NewStart cmd) = True"
| "task_ok E w (StInspect cmd u dev) = (uuidParse E (se_env_id cmd) = Inr u)"
| "task_ok E w (StAllocate cmd u dev side) = (uuidParse E (se_env_id cmd) = Inr u)"
| "task_ok E w (StRmSidecar cmd u dev side idx) = holds_for E w (se_env_id cmd) u idx"
| "task_ok E w (StSidecar cmd u dev side idx) = holds_for E w (se_env_id cmd) u idx"
| "task_ok E w (StStartSidecar cmd u dev idx sid) = holds_for E w (se_env_id cmd) u idx"
| "task_ok E w (StWait cmd u dev idx sid dl) = holds_for E w (se_env_id cmd) u idx"
| "task_ok E w (StRmDev cmd u dev idx sid) = holds_for E w (se_env_id cmd) u idx"
| "task_ok E w (StDev cmd u dev idx sid) = holds_for E w (se_env_id cmd) u idx"
| "task_ok E w (StStartDev cmd u idx sid did) = holds_for E w (se_env_id cmd) u idx"

lemma wait_round_frame: "wait_round dc E dl sid w = (r, w') \<Longrightarrow> alloc w' = alloc w \<and> sent w' = sent w"
  by (auto simp: wait_round_def Let_def on_docker_eq split: if_splits option.splits prod.splits)

lemma on_docker_frame: "on_docker f w = (r, w') \<Longrightarrow> alloc w' = alloc w \<and> sent w' = sent w"
  by (auto simp: on_docker_eq)

lemma settles_drop [simp]: "settles E env H R (drop_calls sid @ cs) = settles E env H R cs"
  by (simp add: drop_calls_def)

lemma about_own [simp]:
  "about E x (EnvError env s e) \<longleftrightarrow> uuidParse E env = Inr x" "about E x (EnvReady env a b i) \<longleftrightarrow> uuidParse E env = Inr x"
  "about E x (EnvStopped env) \<longleftrightarrow> uuidParse E env = Inr x" "about E x (EnvDeleted env) \<longleftrightarrow> uuidParse E env = Inr x"
  "ready_devices (EnvError env s e) = {}" "ready_devices (EnvReady env a b i) = set i"
  "ready_devices (EnvStopped env) = {}" "ready_devices (EnvDeleted env) = {}"
  by (simp_all add: about_def ready_devices_def)

text \<open>What a step of a goroutine does to the account of all environments.\<close>

definition local_step :: "dispatch_env \<Rightarrow> pc \<Rightarrow> 'd agent_world \<Rightarrow> pc \<Rightarrow> 'd agent_world \<Rightarrow> bool" where
  "local_step E p w p' w' \<longleftrightarrow>
     alloc_wf (alloc w') \<and> total_gpus (alloc w') = total_gpus (alloc w) \<and> pc_env p' = pc_env p \<and> task_ok E w' p' \<and>
     (\<forall>x. uuidParse E (pc_env p) \<noteq> Inr x \<longrightarrow>
        held (alloc w') x = held (alloc w) x \<and> reported E x (sent w') = reported E x (sent w))"

definition settled :: "dispatch_env \<Rightarrow> pc \<Rightarrow> 'd agent_world \<Rightarrow> bool" where
  "settled E p w \<longleftrightarrow> (over p \<longrightarrow> (\<forall>x. uuidParse E (pc_env p) = Inr x \<longrightarrow> reported E x (sent w) \<subseteq> held (alloc w) x))"

lemma quiet_step:
  assumes "alloc_wf (alloc w)" "alloc w' = alloc w" "sent w' = sent w" "pc_env p' = pc_env p" "\<not> over p'" "task_ok E w' p'"
  shows "local_step E p w p' w' \<and> settled E p' w'"
  using assms by (simp add: local_step_def settled_def)

lemma finish_local:
  assumes "task_ok E w (Finish env (c # cs))" "alloc_wf (alloc w)"
  shows "local_step E (Finish env (c # cs)) w (Finish env cs) (do_cleanup dc c w) \<and> settled E (Finish env cs) (do_cleanup dc c w)"
proof (cases "uuidParse E env")
  case (Inl e)
  then have s: "settles E env {} {} (c # cs)" using assms(1) by simp
  show ?thesis
    using s assms(2) Inl by (cases c) (auto simp: local_step_def settled_def reported_snoc try_docker_eq)
next
  case (Inr u)
  then have s: "settles E env (held (alloc w) u) (reported E u (sent w)) (c # cs)" using assms(1) by simp
  show ?thesis
    using s assms(2) Inr
    by (cases c; cases cs) (auto simp: local_step_def settled_def reported_snoc try_docker_eq held_Release Release_wf)
qed

lemma picked_held:
  assumes "alloc_wf (alloc w)" "int32_devices (alloc w)" "Allocate u n (alloc w) = (AllocOk idx, a)"
  shows "alloc_wf a \<and> total_gpus a = total_gpus (alloc w) \<and> set (map to_int32 idx) \<subseteq> held a u \<and>
    (\<forall>x. x \<noteq> u \<longrightarrow> held a x = held (alloc w) x)"
  using Allocate_ok_account[OF assms(3,1)] picked_int32[OF assms(1,3,2)] by simp

lemma create_local:
  assumes "is_create p" "task_ok E w p" "alloc_wf (alloc w)" "int32_devices (alloc w)"
    and "create_step dc E p w = (p', w')" "\<forall>env. p' \<noteq> Panicking env"
  shows "local_step E p w p' w' \<and> settled E p' w'"
proof (cases p)
  case (NewCreate cmd)
  show ?thesis
  proof (cases "uuidParse E (ce_env_id cmd)")
    case (Inl e)
    then show ?thesis using assms NewCreate by (intro quiet_step) (auto simp: cr_error_def)
  next
    case (Inr u)
    obtain r a where al: "Allocate u (ce_gpu_request cmd) (alloc w) = (r, a)" by force
    show ?thesis
    proof (cases r)
      case (AllocOk idx)
      then show ?thesis using assms(3-6) NewCreate Inr al picked_held[OF assms(3,4), of u "ce_gpu_request cmd" idx a]
        by (auto simp: local_step_def settled_def holds_for_def)
    next
      case (AllocErr e)
      then have "a = alloc w" using Allocate_not_ok[OF al] by simp
      then show ?thesis using assms NewCreate Inr al AllocErr by (intro quiet_step) (auto simp: cr_error_def)
    qed (use assms NewCreate Inr al in auto)
  qed
next
  case (CrWait cmd u idx sid dl)
  then show ?thesis using assms
    by (intro quiet_step) (auto simp: holds_for_def cr_error_def split: prod.splits sum.splits option.splits dest!: wait_round_frame)
qed ((use assms in \<open>simp; fail\<close>) | (rule quiet_step; use assms in
    \<open>auto simp: holds_for_def cr_error_def split: prod.splits sum.splits dest!: on_docker_frame\<close>))+

lemma start_local:
  assumes "is_start p" "task_ok E w p" "alloc_wf (alloc w)" "int32_devices (alloc w)"
    and "start_step dc E p w = (p', w')" "\<forall>env. p' \<noteq> Panicking env"
  shows "local_step E p w p' w' \<and> settled E p' w'"
proof (cases p)
  case (StAllocate cmd u dev side)
  let ?n = "int (length (parseIndicesCSV (label_of dev LabelGPUIndices)))"
  obtain r a where al: "Allocate u ?n (alloc w) = (r, a)" by force
  show ?thesis
  proof (cases "0 < ?n")
    case False
    then show ?thesis using assms StAllocate by (intro quiet_step) (auto simp: Let_def holds_for_def)
  next
    case pos: True
    show ?thesis
    proof (cases r)
      case (AllocOk idx)
      then show ?thesis using assms(2-6) StAllocate pos al picked_held[OF assms(3,4), of u ?n idx a]
        by (auto simp: Let_def local_step_def settled_def holds_for_def)
    next
      case (AllocErr e)
      then have "a = alloc w" using Allocate_not_ok[OF al] by simp
      then show ?thesis using assms StAllocate pos al AllocErr by (intro quiet_step) (auto simp: Let_def st_error_def split: sum.split)
    qed (use assms StAllocate pos al in \<open>auto simp: Let_def\<close>)
  qed
next
  case (StWait cmd u dev idx sid dl)
  then show ?thesis using assms
    by (intro quiet_step) (auto simp: holds_for_def st_error_def split: prod.splits sum.splits option.splits dest!: wait_round_frame)
qed ((use assms in \<open>simp add: is_start_def; fail\<close>) | (rule quiet_step; use assms in
    \<open>auto simp: holds_for_def st_error_def split: prod.splits sum.splits dest!: on_docker_frame\<close>))+

lemma handler_local:
  assumes "task_ok E w p" "\<not> over p" "alloc_wf (alloc w)" "int32_devices (alloc w)"
    and "handler_step dc E p w = (p', w')" "\<forall>env. p' \<noteq> Panicking env"
  shows "local_step E p w p' w' \<and> settled E p' w'"
proof (cases "\<exists>env cs. p = Finish env cs")
  case True
  then obtain env c cs where p: "p = Finish env (c # cs)" using assms(2) by (metis list.exhaust over.simps(1))
  then show ?thesis using finish_local[of E w env c cs] assms by auto
next
  case False
  show ?thesis
  proof (cases "is_create p")
    case True
    then have "create_step dc E p w = (p', w')" using assms(5) by (cases p) simp_all
    then show ?thesis using create_local[OF True] assms by blast
  next
    case no: False
    then have "is_start p" "start_step dc E p w = (p', w')" using False assms(2,5) by (cases p; simp add: is_start_def)+
    then show ?thesis using start_local assms by blast
  qed
qed

subsection \<open>The invariant of an orderly pool\<close>

lemma task_ok_frame:
  assumes "task_ok E w p"
    and "\<And>x. x \<in> owners E p \<Longrightarrow> held (alloc w') x = held (alloc w) x \<and> reported E x (sent w') = reported E x (sent w)"
  shows "task_ok E w' p"
proof (cases "over p")
  case True
  then show ?thesis by (cases p) auto
next
  case False
  have "held (alloc w') x = held (alloc w) x \<and> reported E x (sent w') = reported E x (sent w)" if "uuidParse E (pc_env p) = Inr x" for x
    using assms(2) that False by (simp add: owners_def)
  then show ?thesis using assms(1) by (cases p) (auto simp: holds_for_def split: sum.splits)
qed

lemma task_ok_start: "task_ok E w (start_pc E msg)"
  by (cases msg) (auto simp: start_pc_def stop_calls_def delete_calls_def split: sum.splits)

definition pool_inv :: "dispatch_env \<Rightarrow> pc list \<Rightarrow> 'd agent_world \<Rightarrow> bool" where
  "pool_inv E ps w \<longleftrightarrow> alloc_wf (alloc w) \<and> int32_devices (alloc w) \<and> (\<forall>p \<in> set ps. task_ok E w p) \<and>
     (\<forall>i < length ps. \<forall>j < length ps. i \<noteq> j \<longrightarrow> owners E (ps ! i) \<inter> owners E (ps ! j) = {}) \<and>
     (\<forall>u. (\<forall>p \<in> set ps. u \<notin> owners E p) \<longrightarrow> reported E u (sent w) \<subseteq> held (alloc w) u)"

lemma pool_inv_arrive:
  assumes "pool_inv E ps w" "\<forall>p \<in> set ps. owners E p \<inter> owners E (start_pc E msg) = {}"
  shows "pool_inv E (ps @ [start_pc E msg]) w"
  using assms by (auto simp: pool_inv_def task_ok_start nth_append less_Suc_eq dest: nth_mem)

lemma owners_step: "pc_env p' = pc_env p \<Longrightarrow> \<not> over p \<Longrightarrow> owners E p' \<subseteq> owners E p"
  by (simp add: owners_def)

lemma pool_inv_run:
  assumes inv: "pool_inv E ps w" and i: "i < length ps" "\<not> over (ps ! i)"
    and s: "handler_step dc E (ps ! i) w = (p, w')" "\<forall>env. p \<noteq> Panicking env"
  shows "pool_inv E (ps[i := p]) w'"
proof -
  let ?p = "ps ! i"
  have l: "local_step E ?p w p w'" "settled E p w'"
    using handler_local[OF _ i(2) _ _ s] inv i(1) by (auto simp: pool_inv_def)
  have own: "owners E p \<subseteq> owners E ?p" using owners_step l(1) i(2) by (auto simp: local_step_def)
  have apart: "owners E ?p \<inter> owners E (ps ! j) = {}" if "j < length ps" "j \<noteq> i" for j
    using inv i(1) that unfolding pool_inv_def by blast
  have same: "held (alloc w') x = held (alloc w) x \<and> reported E x (sent w') = reported E x (sent w)" if "x \<notin> owners E ?p" for x
    using l(1) i(2) that by (auto simp: local_step_def owners_def)
  have others: "task_ok E w' q \<and> (\<forall>x \<in> owners E q. x \<notin> owners E ?p)" if q: "q \<in> set (ps[i := p])" "q \<noteq> p" for q
  proof -
    obtain j where "j < length ps" "ps[i := p] ! j = q" using q(1) by (auto simp: in_set_conv_nth)
    then have j: "j < length ps" "j \<noteq> i" "q = ps ! j" using q(2) by (cases "j = i"; simp)+
    have "task_ok E w q" using inv j unfolding pool_inv_def by (auto intro: nth_mem)
    then show ?thesis using task_ok_frame[of E w q w'] same apart[OF j(1,2)] j(3) by blast
  qed
  have tasks: "task_ok E w' q" if "q \<in> set (ps[i := p])" for q
    using others[OF that] l(1) by (cases "q = p") (auto simp: local_step_def)
  have distinct: "owners E (ps[i := p] ! j) \<inter> owners E (ps[i := p] ! k) = {}" if "j < length ps" "k < length ps" "j \<noteq> k" for j k
    using inv that own apart[of j] apart[of k] i(1) unfolding pool_inv_def by (auto simp: nth_list_update split: if_splits) blast+
  have rest: "reported E u (sent w') \<subseteq> held (alloc w') u" if u: "\<forall>q \<in> set (ps[i := p]). u \<notin> owners E q" for u
  proof (cases "u \<in> owners E ?p")
    case True
    have "u \<notin> owners E p" using u i(1) by (simp add: set_update_memI)
    then show ?thesis using True l by (auto simp: owners_def settled_def local_step_def split: if_splits)
  next
    case False
    have "u \<notin> owners E q" if q: "q \<in> set ps" for q
    proof -
      obtain j where j: "j < length ps" "q = ps ! j" using q by (auto simp: in_set_conv_nth)
      show ?thesis
      proof (cases "j = i")
        case no: False
        then have "q \<in> set (ps[i := p])" using j by (metis length_list_update nth_list_update_neq nth_mem)
        then show ?thesis using u by blast
      qed (use False j in simp)
    qed
    then show ?thesis using inv same[OF False] unfolding pool_inv_def by auto
  qed
  show ?thesis
    using l(1) inv tasks distinct rest unfolding pool_inv_def by (auto simp: local_step_def int32_devices_def)
qed

lemma pool_inv_frame:
  "pool_inv E ps w \<Longrightarrow> alloc w' = alloc w \<Longrightarrow> (\<And>u. reported E u (sent w') = reported E u (sent w)) \<Longrightarrow> pool_inv E ps w'"
  using task_ok_frame[of E w _ w'] by (auto simp: pool_inv_def)

lemma pool_inv_go:
  "pool_step dc E c c' \<Longrightarrow> length (fst c') = length (fst c) \<Longrightarrow> pool_inv E (fst c) (snd c) \<Longrightarrow> pool_inv E (fst c') (snd c')"
proof (induction rule: pool_step.induct)
  case (other m ps w)
  then show ?case using pool_inv_frame[of E ps w "w\<lparr>sent := sent w @ [m]\<rparr>"] by (simp add: reported_snoc)
next
  case (world ps w t d)
  then show ?case using pool_inv_frame[of E ps w "w\<lparr>docker := d, clock := t\<rparr>"] by simp
qed (auto intro: pool_inv_run)

lemma pool_inv_step: "orderly_step dc E c c' \<Longrightarrow> pool_inv E (fst c) (snd c) \<Longrightarrow> pool_inv E (fst c') (snd c')"
proof (induction rule: orderly_step.induct)
  case (go ps w ps' w')
  then show ?case using pool_inv_go[of dc E "(ps, w)" "(ps', w')"] by simp
qed (auto intro: pool_inv_arrive)

lemma pool_inv_steps:
  "(orderly_step dc E)\<^sup>*\<^sup>* c c' \<Longrightarrow> pool_inv E (fst c) (snd c) \<Longrightarrow> pool_inv E (fst c') (snd c')"
proof (induction rule: rtranclp_induct)
  case (step c1 c2)
  then show ?case using pool_inv_step[of dc E c1 c2] by blast
qed simp

lemma pool_inv_start:
  "distinct idx \<Longrightarrow> list_all (fits_int 32) idx \<Longrightarrow>
   pool_inv E [] \<lparr>docker = d, alloc = NewGPUAllocator idx, sent = [], clock = t\<rparr>"
  using agent_inv_start[of idx E d t] by (simp add: agent_inv_def pool_inv_def)

text \<open>C6: handlers that run at the same time do not disturb each other's devices, as long as no two of them work on
  one environment: however the steps of an agent's goroutines interleave, each engine call and each
  round of the health wait a step of its own, and whatever the engine and the clock do in between,
  what was last reported of an environment that no handler is working on is held by it, and two
  such environments are never reported on the same device.\<close>

theorem concurrent_handlers_share_nothing:
  assumes "(orderly_step dc E)\<^sup>*\<^sup>* ([], \<lparr>docker = d, alloc = NewGPUAllocator idx, sent = [], clock = t\<rparr>) (ps, w)"
    and "distinct idx" and "list_all (fits_int 32) idx"
    and "u \<noteq> v" and "list_all (\<lambda>p. u \<notin> owners E p \<and> v \<notin> owners E p) ps"
  shows "reported E u (sent w) \<subseteq> held (alloc w) u \<and> reported E v (sent w) \<subseteq> held (alloc w) v \<and>
    reported E u (sent w) \<inter> reported E v (sent w) = {}"
proof -
  have "pool_inv E ps w"
    using pool_inv_steps[OF assms(1)] pool_inv_start[OF assms(2,3), of E d t] by simp
  then have "alloc_wf (alloc w)" "reported E u (sent w) \<subseteq> held (alloc w) u" "reported E v (sent w) \<subseteq> held (alloc w) v"
    using assms(5) by (auto simp: pool_inv_def list_all_iff)
  then show ?thesis using wf_exclusive[OF _ assms(4)] by blast
qed

subsection \<open>Schedules\<close>

text \<open>A schedule says which goroutine runs next, or which command arrives.\<close>

datatype choice = Arrive ControlMessage | Go nat

fun go_on :: "'d docker_client \<Rightarrow> dispatch_env \<Rightarrow> choice \<Rightarrow> pc list \<times> 'd agent_world \<Rightarrow> pc list \<times> 'd agent_world" where
  "go_on dc E (Arrive msg) (ps, w) = (ps @ [start_pc E msg], w)"
| "go_on dc E (Go i) (ps, w) = (case handler_step dc E (ps ! i) w of (p, w') \<Rightarrow> (ps[i := p], w'))"

fun panicking :: "pc \<Rightarrow> bool" where
  "panicking (Panicking env) = True" | "panicking p = False"

fun allowed :: "'d docker_client \<Rightarrow> dispatch_env \<Rightarrow> choice \<Rightarrow> pc list \<times> 'd agent_world \<Rightarrow> bool" where
  "allowed dc E (Arrive msg) (ps, w) = True"
| "allowed dc E (Go i) (ps, w) = (i < length ps \<and> \<not> over (ps ! i) \<and> \<not> panicking (fst (handler_step dc E (ps ! i) w)))"

fun run_schedule ::
  "'d docker_client \<Rightarrow> dispatch_env \<Rightarrow> choice list \<Rightarrow> pc list \<times> 'd agent_world \<Rightarrow> (pc list \<times> 'd agent_world) option" where
  "run_schedule dc E [] c = Some c"
| "run_schedule dc E (s # ss) c = (if allowed dc E s c then run_schedule dc E ss (go_on dc E s c) else None)"

lemma panicking_iff: "panicking p \<longleftrightarrow> (\<exists>env. p = Panicking env)"
  by (cases p) auto

lemma go_on_step: "allowed dc E s c \<Longrightarrow> pool_step dc E c (go_on dc E s c)"
  by (cases c; cases s) (auto simp: panicking_iff split: prod.split intro!: pool_step.intros)

lemma schedule_run: "run_schedule dc E ss c = Some c' \<Longrightarrow> (pool_step dc E)\<^sup>*\<^sup>* c c'"
proof (induction ss arbitrary: c)
  case (Cons s ss)
  then have "pool_step dc E c (go_on dc E s c)" "(pool_step dc E)\<^sup>*\<^sup>* (go_on dc E s c) c'"
    by (auto simp: go_on_step split: if_splits)
  then show ?case by (rule converse_rtranclp_into_rtranclp)
qed simp

text \<open>A schedule with no command for an environment that a goroutine still works on.\<close>

fun in_order :: "'d docker_client \<Rightarrow> dispatch_env \<Rightarrow> choice list \<Rightarrow> pc list \<times> 'd agent_world \<Rightarrow> bool" where
  "in_order dc E [] c = True"
| "in_order dc E (s # ss) c =
     ((case s of Arrive msg \<Rightarrow>
          list_all (\<lambda>p. over p \<or> over (start_pc E msg) \<or>
              (case uuidParse E (pc_env p) of Inl _ \<Rightarrow> True | Inr u \<Rightarrow> uuidParse E (pc_env (start_pc E msg)) \<noteq> Inr u)) (fst c)
        | Go i \<Rightarrow> True) \<and>
      in_order dc E ss (go_on dc E s c))"

lemma in_order_run:
  "run_schedule dc E ss c = Some c' \<Longrightarrow> in_order dc E ss c \<Longrightarrow> (orderly_step dc E)\<^sup>*\<^sup>* c c'"
proof (induction ss arbitrary: c)
  case (Cons s ss)
  obtain ps w where c: "c = (ps, w)" by force
  have a: "allowed dc E s c" "run_schedule dc E ss (go_on dc E s c) = Some c'" "in_order dc E ss (go_on dc E s c)"
    using Cons.prems by (simp_all split: if_splits)
  have "orderly_step dc E c (go_on dc E s c)"
  proof (cases s)
    case (Arrive msg)
    then show ?thesis using Cons.prems(2) c
      by (auto simp: owners_def list_all_iff split: sum.splits if_splits intro!: orderly_step.arrive)
  next
    case (Go i)
    then show ?thesis using go_on_step[OF a(1)] c
      by (cases "handler_step dc E (ps ! i) w") (auto intro!: orderly_step.go)
  qed
  then show ?case using Cons.IH[OF a(2,3)] by (rule converse_rtranclp_into_rtranclp)
qed simp

text \<open>Two creations at once, their steps alternating to the end.\<close>

definition demo_together :: "choice list" where
  "demo_together = [Arrive (MsgCreateEnv (demo_create ''7'' 1)), Arrive (MsgCreateEnv (demo_create ''8'' 1))] @
     concat (replicate 7 [Go 1, Go 0])"

definition demo_ended :: "(pc list \<times> MockDockerClient agent_world) option" where
  "demo_ended = run_schedule mock_client demo_env demo_together ([], demo_world)"

lemma concurrent_handlers_share_nothing_witness:
  "reported demo_env 7 (sent (snd (the demo_ended))) = {1} \<and> reported demo_env 8 (sent (snd (the demo_ended))) = {0} \<and>
   reported demo_env 7 (sent (snd (the demo_ended))) \<inter> reported demo_env 8 (sent (snd (the demo_ended))) = {}"
proof -
  obtain ps w where e: "demo_ended = Some (ps, w)" and o: "in_order mock_client demo_env demo_together ([], demo_world)"
    and p: "list_all over (fst (the demo_ended))"
  proof -
    have "demo_ended \<noteq> None" "in_order mock_client demo_env demo_together ([], demo_world)"
      "list_all over (fst (the demo_ended))" by code_simp+
    then show ?thesis using that by auto
  qed
  have "(orderly_step mock_client demo_env)\<^sup>*\<^sup>* ([], demo_world) (ps, w)"
    using in_order_run[OF _ o] e by (simp add: demo_ended_def)
  from concurrent_handlers_share_nothing[OF this[unfolded demo_world_def], of 7 8]
  have "list_all (\<lambda>p. 7 \<notin> owners demo_env p \<and> 8 \<notin> owners demo_env p) ps \<Longrightarrow>
      reported demo_env 7 (sent w) \<inter> reported demo_env 8 (sent w) = {}"
    by (simp add: fits_int_def)
  moreover have "list_all (\<lambda>p. 7 \<notin> owners demo_env p \<and> 8 \<notin> owners demo_env p) ps"
    using p by (simp add: e owners_def list_all_iff)
  moreover have "reported demo_env 7 (sent (snd (the demo_ended))) = {1}" "reported demo_env 8 (sent (snd (the demo_ended))) = {0}"
    by code_simp+
  ultimately show ?thesis by (simp add: e)
qed

text \<open>
  Environment 7 is deleted while its creation waits for the engine, 8 is created on the device the
  deletion gave back, and then the creation of 7 goes on.
\<close>

definition demo_race :: "choice list" where
  "demo_race = [Arrive (MsgCreateEnv (demo_create ''7'' 1)), Go 0, Arrive (MsgDeleteEnv ''7'')] @ replicate 7 (Go 1) @
     [Arrive (MsgCreateEnv (demo_create ''8'' 1))] @ replicate 7 (Go 2) @ replicate 6 (Go 0)"

definition demo_raced :: "(pc list \<times> MockDockerClient agent_world) option" where
  "demo_raced = run_schedule mock_client demo_env demo_race ([], demo_world)"

text \<open>C13: a deletion that overtakes the creation of its environment double-books a device. There is an
  interleaving on the mock engine, with no engine call failing but the deletion's own (there is
  nothing to stop yet), in which all handlers end, the deletion answers deleted, and yet two
  environments run on the same device: the deleted one, whose creation goes on with a device it no
  longer holds and reports it, and the one that was given the device since.\<close>

theorem delete_during_create_double_books:
  "\<exists>ps w. (pool_step mock_client demo_env)\<^sup>*\<^sup>* ([], demo_world) (ps, w) \<and> list_all over ps \<and>
     EnvDeleted ''7'' \<in> set (sent w) \<and> held (alloc w) 7 = {} \<and>
     reported demo_env 7 (sent w) = {0} \<and> reported demo_env 8 (sent w) = {0} \<and>
     map (\<lambda>c. (info_Name c, info_State c, label_of c LabelGPUIndices)) (map snd (Containers (docker w))) =
       [(''flex-net-8'', ''running'', []), (''flex-env-8'', ''running'', ''0''),
        (''flex-net-7'', ''running'', []), (''flex-env-7'', ''running'', ''0'')]"
proof -
  obtain ps w where e: "demo_raced = Some (ps, w)"
  proof -
    have "demo_raced \<noteq> None" by code_simp
    then show ?thesis using that by auto
  qed
  have "list_all over (fst (the demo_raced))" by code_simp
  moreover have "list_ex (\<lambda>m. m = EnvDeleted ''7'') (sent (snd (the demo_raced)))" by code_simp
  moreover have "held (alloc (snd (the demo_raced))) 7 = {}" by code_simp
  moreover have "reported demo_env 7 (sent (snd (the demo_raced))) = {0}" by code_simp
  moreover have "reported demo_env 8 (sent (snd (the demo_raced))) = {0}" by code_simp
  moreover have "map (\<lambda>c. (info_Name c, info_State c, label_of c LabelGPUIndices)) (map snd (Containers (docker (snd (the demo_raced))))) =
       [(''flex-net-8'', ''running'', []), (''flex-env-8'', ''running'', ''0''),
        (''flex-net-7'', ''running'', []), (''flex-env-7'', ''running'', ''0'')]" by code_simp
  moreover have "(pool_step mock_client demo_env)\<^sup>*\<^sup>* ([], demo_world) (ps, w)"
    using schedule_run e by (simp add: demo_raced_def)
  ultimately show ?thesis by (intro exI[of _ ps] exI[of _ w]) (simp add: e list_ex_iff)
qed

end
