(* ===== verification/ConcurrencyLiveness.thy ===== *)
theory ConcurrencyLiveness
  imports ConcurrencyProperties "HOL-Library.Multiset"
begin

text \<open>
  Progress of the agent's goroutines: under a fair scheduler every handler ends, and the messages
  sent are exactly the answers of the handlers.
\<close>

subsection \<open>Runs of the agent\<close>

text \<open>
  Goroutine \<open>i\<close> takes a step. A creation never asks for a negative number of devices here, which is
  the one way to a panic; the requests of the control plane do not
  (\<open>envs/handlers.go\<close> refuses them).
\<close>

inductive goes :: "'d docker_client \<Rightarrow> dispatch_env \<Rightarrow> nat \<Rightarrow> pc list \<times> 'd agent_world \<Rightarrow> pc list \<times> 'd agent_world \<Rightarrow> bool"
  for dc E i where
  "i < length ps \<Longrightarrow> \<not> over (ps ! i) \<Longrightarrow> handler_step dc E (ps ! i) w = (p, w') \<Longrightarrow> goes dc E i (ps, w) (ps[i := p], w')"

inductive_simps goes_simps: "goes dc E i (ps, w) c"

definition reply_env :: "AgentMessage \<Rightarrow> gostring option" where
  "reply_env m =
     (case m of EnvReady i _ _ _ \<Rightarrow> Some i | EnvStopped i \<Rightarrow> Some i | EnvDeleted i \<Rightarrow> Some i
      | EnvError i _ _ \<Rightarrow> Some i | _ \<Rightarrow> None)"

definition sane_command :: "ControlMessage \<Rightarrow> bool" where
  "sane_command msg =
     (case msg of MsgCreateEnv cmd \<Rightarrow> 0 \<le> ce_gpu_request cmd | MsgStopEnv _ \<Rightarrow> True | MsgStartEnv _ \<Rightarrow> True
      | MsgDeleteEnv _ \<Rightarrow> True | _ \<Rightarrow> False)"

text \<open>One step of the agent: commands arrive, goroutines run, heartbeats go out, time passes.\<close>

inductive live_step :: "'d docker_client \<Rightarrow> dispatch_env \<Rightarrow> pc list \<times> 'd agent_world \<Rightarrow> pc list \<times> 'd agent_world \<Rightarrow> bool"
  for dc E where
  arrive: "sane_command msg \<Longrightarrow> live_step dc E (ps, w) (ps @ [start_pc E msg], w)"
| go: "goes dc E i c c' \<Longrightarrow> live_step dc E c c'"
| other: "reply_env m = None \<Longrightarrow> live_step dc E (ps, w) (ps, w\<lparr>sent := sent w @ [m]\<rparr>)"
| world: "clock w \<le> t \<Longrightarrow> live_step dc E (ps, w) (ps, w\<lparr>docker := d, clock := t\<rparr>)"

text \<open>An infinite run in which every goroutine that is not over runs again some time.\<close>

definition fair_run :: "'d docker_client \<Rightarrow> dispatch_env \<Rightarrow> (nat \<Rightarrow> pc list \<times> 'd agent_world) \<Rightarrow> bool" where
  "fair_run dc E f \<longleftrightarrow> (\<forall>n. live_step dc E (f n) (f (Suc n))) \<and>
     (\<forall>n. \<forall>i < length (fst (f n)). \<not> over (fst (f n) ! i) \<longrightarrow> (\<exists>m \<ge> n. goes dc E i (f m) (f (Suc m))))"

subsection \<open>A measure for a goroutine\<close>

fun stage :: "pc \<Rightarrow> nat" where
  "stage (Finish env cs) = length cs" | "stage (Panicking env) = 0"
| "stage (NewCreate cmd) = 15" | "stage (CrSidecar cmd u idx) = 14" | "stage (CrStartSidecar cmd u idx sid) = 13"
| "stage (CrWait cmd u idx sid dl) = 12" | "stage (CrDev cmd u idx sid) = 11" | "stage (CrStartDev cmd u idx sid did) = 10"
| "stage (NewStart cmd) = 18" | "stage (StInspect cmd u dev) = 17" | "stage (StAllocate cmd u dev side) = 16"
| "stage (StRmSidecar cmd u dev side idx) = 15" | "stage (StSidecar cmd u dev side idx) = 14"
| "stage (StStartSidecar cmd u dev idx sid) = 13" | "stage (StWait cmd u dev idx sid dl) = 12"
| "stage (StRmDev cmd u dev idx sid) = 11" | "stage (StDev cmd u dev idx sid) = 10" | "stage (StStartDev cmd u idx sid did) = 9"

fun wait_left :: "pc \<Rightarrow> int \<Rightarrow> nat" where
  "wait_left (CrWait cmd u idx sid dl) t = nat (dl - t)"
| "wait_left (StWait cmd u dev idx sid dl) t = nat (dl - t)"
| "wait_left p t = 0"

definition left :: "pc \<Rightarrow> 'd agent_world \<Rightarrow> nat \<times> nat" where
  "left p w = (stage p, wait_left p (clock w))"

abbreviation lower :: "((nat \<times> nat) \<times> (nat \<times> nat)) set" where
  "lower \<equiv> less_than <*lex*> less_than"

lemma wf_lower: "wf lower"
  by (simp add: wf_lex_prod)

lemma lower_trans: "(a, b) \<in> lower \<Longrightarrow> (b, c) \<in> lower \<Longrightarrow> (a, c) \<in> lower"
  by (cases a; cases b; cases c) auto

lemma wait_left_mono: "t \<le> t' \<Longrightarrow> wait_left p t' \<le> wait_left p t"
  by (cases p) auto

lemma wait_round_time: "wait_round dc E dl sid w = (r, w') \<Longrightarrow> clock w \<le> clock w'"
  by (auto simp: wait_round_def Let_def on_docker_eq split: if_splits option.splits prod.splits)

lemma on_docker_time: "on_docker f w = (r, w') \<Longrightarrow> clock w' = clock w"
  by (auto simp: on_docker_eq)

lemmas step_clocks = on_docker_time wait_round_time

lemma create_step_clock: "create_step dc E p w = (p', w') \<Longrightarrow> clock w \<le> clock w'"
  by (cases p) (auto split: sum.splits prod.splits alloc_result.splits option.splits dest: step_clocks)

lemma start_step_clock: "start_step dc E p w = (p', w') \<Longrightarrow> clock w \<le> clock w'"
  by (cases p) (auto simp: Let_def split: sum.splits prod.splits alloc_result.splits option.splits if_splits dest: step_clocks)

lemma do_cleanup_clock [simp]: "clock (do_cleanup dc c w) = clock w"
  by (cases c) (simp_all add: try_docker_eq release_gpus_def)

lemma handler_create: "is_create p \<Longrightarrow> handler_step dc E p w = create_step dc E p w"
  by (cases p) (simp_all del: create_step.simps)

lemma handler_start: "is_start p \<Longrightarrow> handler_step dc E p w = start_step dc E p w"
  by (cases p) (simp_all add: is_start_def del: start_step.simps)

lemma handler_cases:
  assumes "handler_step dc E p w = (p', w')" and "\<not> over p"
  obtains (finish) env c cs where "p = Finish env (c # cs)" "p' = Finish env cs" "w' = do_cleanup dc c w"
  | (create) "is_create p" "create_step dc E p w = (p', w')"
  | (start) "is_start p" "start_step dc E p w = (p', w')"
proof (cases "\<exists>env cs. p = Finish env cs")
  case True
  then obtain env c cs where "p = Finish env (c # cs)" using assms(2) by (metis list.exhaust over.simps(1))
  then show ?thesis using finish assms(1) by simp
next
  case False
  show ?thesis
  proof (cases "is_create p")
    case True
    then show ?thesis using create handler_create assms(1) by metis
  next
    case no: False
    then have "is_start p" using False assms(2) by (cases p) (simp_all add: is_start_def)
    then show ?thesis using start handler_start assms(1) by metis
  qed
qed

lemma handler_clock: "handler_step dc E p w = (p', w') \<Longrightarrow> \<not> over p \<Longrightarrow> clock w \<le> clock w'"
  by (erule handler_cases) (auto dest: create_step_clock start_step_clock)

lemma create_step_lower:
  "is_create p \<Longrightarrow> create_step dc E p w = (p', w') \<Longrightarrow> (left p' w', left p w) \<in> lower"
  by (cases p)
    (auto simp: left_def drop_calls_def dest: wait_round_clock split: sum.splits prod.splits alloc_result.splits option.splits)

lemma start_step_lower:
  "is_start p \<Longrightarrow> start_step dc E p w = (p', w') \<Longrightarrow> (left p' w', left p w) \<in> lower"
  by (cases p)
    (auto simp: left_def drop_calls_def is_start_def Let_def dest: wait_round_clock
      split: sum.splits prod.splits alloc_result.splits option.splits if_splits)

lemma handler_lower:
  "handler_step dc E p w = (p', w') \<Longrightarrow> \<not> over p \<Longrightarrow> (left p' w', left p w) \<in> lower"
  by (erule handler_cases) (blast dest: create_step_lower start_step_lower | simp add: left_def)+

subsection \<open>Every handler ends\<close>

lemma goes_length: "goes dc E i c c' \<Longrightarrow> length (fst c') = length (fst c)"
  by (auto simp: goes.simps)

lemma goes_other: "goes dc E i c c' \<Longrightarrow> j \<noteq> i \<Longrightarrow> fst c' ! j = fst c ! j"
  by (auto simp: goes.simps)

lemma goes_lower: "goes dc E i c c' \<Longrightarrow> (left (fst c' ! i) (snd c'), left (fst c ! i) (snd c)) \<in> lower"
  by (auto simp: goes.simps handler_lower)

lemma live_step_length: "live_step dc E c c' \<Longrightarrow> length (fst c) \<le> length (fst c')"
  by (auto simp: live_step.simps goes_length)

lemma live_step_left:
  "live_step dc E c c' \<Longrightarrow> i < length (fst c) \<Longrightarrow>
   left (fst c' ! i) (snd c') = left (fst c ! i) (snd c) \<or> (left (fst c' ! i) (snd c'), left (fst c ! i) (snd c)) \<in> lower"
proof (induction rule: live_step.induct)
  case (go j c c')
  show ?case
  proof (cases "j = i")
    case False
    then have "fst c' ! i = fst c ! i" "clock (snd c) \<le> clock (snd c')"
      using goes_other[OF go(1)] go(1) by (auto simp: goes.simps handler_clock)
    then show ?thesis using wait_left_mono[of "clock (snd c)" "clock (snd c')" "fst c ! i"] by (auto simp: left_def)
  qed (use goes_lower[OF go(1)] in simp)
next
  case (world w t ps d)
  then show ?case using wait_left_mono[OF world(1), of "ps ! i"] by (auto simp: left_def)
qed (auto simp: nth_append left_def)

lemma fair_run_left:
  assumes "fair_run dc E f" "n \<le> m" "i < length (fst (f n))"
  shows "i < length (fst (f m)) \<and>
    (left (fst (f m) ! i) (snd (f m)) = left (fst (f n) ! i) (snd (f n)) \<or>
     (left (fst (f m) ! i) (snd (f m)), left (fst (f n) ! i) (snd (f n))) \<in> lower)"
  using assms(2)
proof (induction rule: dec_induct)
  case (step k)
  have s: "live_step dc E (f k) (f (Suc k))" using assms(1) by (simp add: fair_run_def)
  have i: "i < length (fst (f k))" using step by blast
  show ?case using live_step_left[OF s i] live_step_length[OF s] i step(3) by (fastforce dest: lower_trans)
qed (use assms(3) in simp)

lemma ends_eventually:
  assumes "fair_run dc E f" "i < length (fst (f n))"
  shows "\<exists>m \<ge> n. over (fst (f m) ! i)"
  using assms(2)
proof (induction "left (fst (f n) ! i) (snd (f n))" arbitrary: n rule: wf_induct_rule[OF wf_lower])
  case (1 n)
  show ?case
  proof (cases "over (fst (f n) ! i)")
    case False
    then obtain m where m: "n \<le> m" "goes dc E i (f m) (f (Suc m))" using assms(1) 1(2) unfolding fair_run_def by blast
    have "(left (fst (f (Suc m)) ! i) (snd (f (Suc m))), left (fst (f n) ! i) (snd (f n))) \<in> lower"
      using goes_lower[OF m(2)] fair_run_left[OF assms(1) m(1) 1(2)] lower_trans by metis
    moreover have "i < length (fst (f (Suc m)))" using fair_run_left[OF assms(1), of n "Suc m" i] m(1) 1(2) by simp
    ultimately obtain k where "Suc m \<le> k" "over (fst (f k) ! i)" using 1(1) by blast
    then show ?thesis using m(1) by (intro exI[of _ k]) simp
  qed blast
qed

lemma over_stays: "live_step dc E c c' \<Longrightarrow> i < length (fst c) \<Longrightarrow> over (fst c ! i) \<Longrightarrow> over (fst c' ! i)"
proof (induction rule: live_step.induct)
  case (go j c c')
  then show ?case by (cases "j = i") (auto simp: goes.simps)
qed (auto simp: nth_append)

lemma over_forever:
  assumes "fair_run dc E f" "m \<le> k" "i < length (fst (f m))" "over (fst (f m) ! i)"
  shows "over (fst (f k) ! i)"
  using assms(2)
proof (induction rule: dec_induct)
  case (step k)
  then show ?case using over_stays[of dc E "f k" "f (Suc k)" i] fair_run_left[OF assms(1) _ assms(3), of k] assms(1)
    by (simp add: fair_run_def)
qed (rule assms(4))

subsection \<open>Every answer is sent once\<close>

definition replies :: "AgentMessage list \<Rightarrow> gostring list" where
  "replies ms = List.map_filter reply_env ms"

lemma replies_simps [simp]:
  "replies [] = []" "replies (m # ms) = (case reply_env m of None \<Rightarrow> replies ms | Some e \<Rightarrow> e # replies ms)"
  "replies (ms @ ns) = replies ms @ replies ns"
  by (simp_all add: replies_def List.map_filter_def split: option.split)

fun message_of :: "cleanup \<Rightarrow> AgentMessage list" where
  "message_of (DoSend m) = [m]" | "message_of c = []"

text \<open>The answer that a goroutine has still to give.\<close>

fun owed :: "pc \<Rightarrow> gostring list" where
  "owed (Finish env cs) = replies (concat (map message_of cs))"
| "owed (Panicking env) = []"
| "owed p = [pc_env p]"

text \<open>A goroutine that answers for its own environment, at most once, and does not panic.\<close>

definition answers_once :: "pc \<Rightarrow> bool" where
  "answers_once p \<longleftrightarrow> owed p \<in> {[], [pc_env p]} \<and> (\<forall>env. p \<noteq> Panicking env) \<and> (\<forall>cmd. p = NewCreate cmd \<longrightarrow> 0 \<le> ce_gpu_request cmd)"

lemma reply_env_simps [simp]:
  "reply_env (EnvReady e a b i) = Some e" "reply_env (EnvError e s t) = Some e"
  "reply_env (EnvStopped e) = Some e" "reply_env (EnvDeleted e) = Some e"
  by (simp_all add: reply_env_def)

lemma drop_calls_silent [simp]: "concat (map message_of (drop_calls sid)) = []"
  by (simp add: drop_calls_def)

lemma Allocate_no_panic: "0 \<le> n \<Longrightarrow> Allocate u n a \<noteq> (AllocPanic, b)"
  by (auto simp: Allocate_def Let_def)

text \<open>What is sent in a step is what is owed less.\<close>

definition pays :: "pc \<Rightarrow> 'd agent_world \<Rightarrow> pc \<Rightarrow> 'd agent_world \<Rightarrow> bool" where
  "pays p w p' w' \<longleftrightarrow> answers_once p' \<and> pc_env p' = pc_env p \<and>
     (\<exists>ms. sent w' = sent w @ ms \<and> replies ms @ owed p' = owed p)"

lemma pays_quiet:
  "sent w' = sent w \<Longrightarrow> pc_env p' = pc_env p \<Longrightarrow> owed p' = owed p \<Longrightarrow> owed p = [pc_env p] \<Longrightarrow>
   \<forall>env. p' \<noteq> Panicking env \<Longrightarrow> \<forall>cmd. p' \<noteq> NewCreate cmd \<Longrightarrow> pays p w p' w'"
  by (simp add: pays_def answers_once_def)

lemma create_step_pays:
  "is_create p \<Longrightarrow> create_step dc E p w = (p', w') \<Longrightarrow> answers_once p \<Longrightarrow> pays p w p' w'"
  by (cases p; (intro pays_quiet)?)
    (auto simp: cr_error_def answers_once_def Allocate_no_panic dest!: on_docker_frame wait_round_frame
      split: sum.splits prod.splits alloc_result.splits option.splits)

lemma start_step_pays:
  "is_start p \<Longrightarrow> start_step dc E p w = (p', w') \<Longrightarrow> pays p w p' w'"
  by (cases p; (intro pays_quiet)?)
    (auto simp: st_error_def is_start_def Allocate_no_panic Let_def dest!: on_docker_frame wait_round_frame
      split: sum.splits prod.splits alloc_result.splits option.splits if_splits)

lemma do_cleanup_sent: "sent (do_cleanup dc c w) = sent w @ message_of c"
  by (cases c) (simp_all add: try_docker_eq release_gpus_def)

lemma handler_pays:
  assumes "handler_step dc E p w = (p', w')" "\<not> over p" "answers_once p"
  shows "pays p w p' w'"
  using assms(1,2)
proof (cases rule: handler_cases)
  case (finish env c cs)
  then have "replies (message_of c) @ owed p' = owed p" "sent w' = sent w @ message_of c"
    by (simp_all add: do_cleanup_sent)
  moreover have "owed p' \<in> {[], [pc_env p']}"
    using assms(3) calculation(1) finish(1,2) by (auto simp: answers_once_def append_eq_Cons_conv)
  ultimately show ?thesis using finish(1,2) by (auto simp: pays_def answers_once_def)
qed (use assms(3) in \<open>simp_all add: create_step_pays start_step_pays\<close>)

lemma start_answers_once: "sane_command msg \<Longrightarrow> answers_once (start_pc E msg) \<and> owed (start_pc E msg) = [pc_env (start_pc E msg)]"
  by (cases msg) (auto simp: sane_command_def start_pc_def answers_once_def stop_calls_def delete_calls_def split: sum.splits)

text \<open>The account: answers given and answers owed are one for each goroutine.\<close>

definition owing :: "pc list \<Rightarrow> gostring multiset" where
  "owing ps = mset (concat (map owed ps))"

definition account :: "nat \<Rightarrow> pc list \<times> 'd agent_world \<Rightarrow> bool" where
  "account k c \<longleftrightarrow> list_all answers_once (fst c) \<and> k \<le> length (sent (snd c)) \<and>
     mset (replies (drop k (sent (snd c)))) + owing (fst c) = mset (map pc_env (fst c))"

lemma owing_update: "i < length ps \<Longrightarrow> owing (ps[i := p]) + mset (owed (ps ! i)) = owing ps + mset (owed p)"
  by (induction ps arbitrary: i) (auto simp: owing_def ac_simps split: nat.split)

lemma account_goes: "goes dc E i c c' \<Longrightarrow> account k c \<Longrightarrow> account k c'"
proof (induction rule: goes.induct)
  case (1 ps w p w')
  have "pays (ps ! i) w p w'" using handler_pays[OF 1(3,2)] 1(1,4) by (simp add: account_def list_all_length)
  then obtain ms where ms: "sent w' = sent w @ ms" "replies ms @ owed p = owed (ps ! i)"
      and p: "answers_once p" "pc_env p = pc_env (ps ! i)" by (auto simp: pays_def)
  have "mset (replies ms) + owing (ps[i := p]) = owing ps"
    using owing_update[OF 1(1), of p] ms(2)[symmetric] by (simp add: ac_simps)
  then have "mset (replies (drop k (sent w'))) + owing (ps[i := p]) = mset (replies (drop k (sent w))) + owing ps"
  proof -
    have "mset (replies (drop k (sent w'))) = mset (replies (drop k (sent w))) + mset (replies ms)"
      using 1(4) ms(1) by (simp add: account_def)
    then show ?thesis using \<open>mset (replies ms) + owing (ps[i := p]) = owing ps\<close> by (metis add.assoc)
  qed
  moreover have "map pc_env (ps[i := p]) = map pc_env ps" using p(2) 1(1) by (simp add: map_update list_update_same_conv)
  moreover have "list_all answers_once (ps[i := p])" using 1(1,4) p(1) by (auto simp: account_def list_all_length nth_list_update)
  moreover have "k \<le> length (sent w')" using 1(4) ms(1) by (simp add: account_def)
  ultimately show ?case using 1(4) by (simp add: account_def del: mset_map)
qed

lemma account_step: "live_step dc E c c' \<Longrightarrow> account k c \<Longrightarrow> account k c'"
proof (induction rule: live_step.induct)
  case (arrive msg ps w)
  then show ?case using start_answers_once[OF arrive(1), of E] by (simp add: account_def owing_def)
next
  case (go i c c')
  then show ?case by (rule account_goes)
qed (simp_all add: account_def)

lemma account_run: "fair_run dc E f \<Longrightarrow> account k (f 0) \<Longrightarrow> account k (f n)"
  by (induction n) (auto simp: fair_run_def intro: account_step)

lemma over_owing: "list_all answers_once ps \<Longrightarrow> mset (map pc_env (filter over ps)) + owing ps \<subseteq># mset (map pc_env ps)"
proof (induction ps)
  case (Cons p ps)
  have "(if over p then {#pc_env p#} else {#}) + mset (owed p) \<subseteq># {#pc_env p#}"
    using Cons.prems by (cases p) (auto simp: answers_once_def)
  from subset_mset.add_mono[OF this Cons.IH] show ?case using Cons.prems by (auto simp: owing_def ac_simps split: if_splits)
qed (simp add: owing_def)

lemma account_bounds:
  assumes "account k c"
  shows "mset (map pc_env (filter over (fst c))) \<subseteq># mset (replies (drop k (sent (snd c))))"
    and "mset (replies (drop k (sent (snd c)))) \<subseteq># mset (map pc_env (fst c))"
proof -
  have "mset (map pc_env (filter over (fst c))) + owing (fst c) \<subseteq># mset (replies (drop k (sent (snd c)))) + owing (fst c)"
    using over_owing[of "fst c"] assms by (simp add: account_def)
  then show "mset (map pc_env (filter over (fst c))) \<subseteq># mset (replies (drop k (sent (snd c))))" by simp
  show "mset (replies (drop k (sent (snd c)))) \<subseteq># mset (map pc_env (fst c))"
    using assms by (simp add: account_def mset_subset_eq_exists_conv) (metis add.commute)
qed


subsection \<open>A fair run\<close>

text \<open>A schedule to its end, and then nothing more.\<close>

definition schedule_at :: "'d docker_client \<Rightarrow> dispatch_env \<Rightarrow> choice list \<Rightarrow> pc list \<times> 'd agent_world \<Rightarrow> nat \<Rightarrow> pc list \<times> 'd agent_world" where
  "schedule_at dc E ss c n = fold (go_on dc E) (take n ss) c"

fun live_choice :: "'d docker_client \<Rightarrow> dispatch_env \<Rightarrow> choice \<Rightarrow> pc list \<times> 'd agent_world \<Rightarrow> bool" where
  "live_choice dc E (Arrive msg) c = sane_command msg"
| "live_choice dc E (Go i) c = (i < length (fst c) \<and> \<not> over (fst c ! i))"

fun live_schedule :: "'d docker_client \<Rightarrow> dispatch_env \<Rightarrow> choice list \<Rightarrow> pc list \<times> 'd agent_world \<Rightarrow> bool" where
  "live_schedule dc E [] c = list_all over (fst c)"
| "live_schedule dc E (s # ss) c = (live_choice dc E s c \<and> live_schedule dc E ss (go_on dc E s c))"

lemma go_on_goes: "live_choice dc E (Go i) c \<Longrightarrow> goes dc E i c (go_on dc E (Go i) c)"
  by (cases c) (auto simp: goes_simps split: prod.split)

lemma go_on_live: "live_choice dc E s c \<Longrightarrow> live_step dc E c (go_on dc E s c)"
proof (cases s)
  case (Arrive msg)
  then show "live_choice dc E s c \<Longrightarrow> ?thesis" by (cases c) (auto intro: live_step.arrive)
qed (use go_on_goes live_step.go in blast)

lemma live_step_stay: "live_step dc E c c"
  using live_step.world[of "snd c" "clock (snd c)" dc E "fst c" "docker (snd c)"] by simp

lemma live_schedule_at:
  "live_schedule dc E ss c \<Longrightarrow> live_step dc E (schedule_at dc E ss c n) (schedule_at dc E ss c (Suc n))"
proof (induction ss arbitrary: c n)
  case Nil
  then show ?case by (simp add: schedule_at_def live_step_stay)
next
  case (Cons s ss)
  then show ?case using go_on_live[of dc E s c] by (cases n) (auto simp: schedule_at_def)
qed

lemma live_schedule_fair:
  "live_schedule dc E ss c \<Longrightarrow> i < length (fst (schedule_at dc E ss c n)) \<Longrightarrow> \<not> over (fst (schedule_at dc E ss c n) ! i) \<Longrightarrow>
   \<exists>m \<ge> n. goes dc E i (schedule_at dc E ss c m) (schedule_at dc E ss c (Suc m))"
proof (induction ss arbitrary: c n)
  case Nil
  then show ?case by (simp add: schedule_at_def list_all_length)
next
  case (Cons s ss)
  have shift: "schedule_at dc E (s # ss) c (Suc m) = schedule_at dc E ss (go_on dc E s c) m" for m
    by (simp add: schedule_at_def)
  have live: "live_schedule dc E ss (go_on dc E s c)" "live_choice dc E s c" using Cons.prems(1) by simp_all
  have later: "\<exists>m \<ge> k. goes dc E i (schedule_at dc E (s # ss) c m) (schedule_at dc E (s # ss) c (Suc m))"
    if "k = Suc j" "i < length (fst (schedule_at dc E (s # ss) c k))" "\<not> over (fst (schedule_at dc E (s # ss) c k) ! i)" for k j
    using Cons.IH[OF live(1), of j] that by (metis Suc_le_mono shift)
  show ?case
  proof (cases n)
    case (Suc j)
    then show ?thesis using later Cons.prems by blast
  next
    case 0
    have c0: "schedule_at dc E (s # ss) c 0 = c" by (simp add: schedule_at_def)
    have c1: "schedule_at dc E (s # ss) c 1 = go_on dc E s c" by (simp add: schedule_at_def)
    show ?thesis
    proof (cases "s = Go i")
      case True
      then show ?thesis using go_on_goes[of dc E i c] live(2) 0 c0 c1 by (metis One_nat_def order_refl)
    next
      case False
      have "i < length (fst c)" "\<not> over (fst c ! i)" using Cons.prems 0 c0 by simp_all
      moreover have "fst (go_on dc E s c) ! i = fst c ! i" "length (fst c) \<le> length (fst (go_on dc E s c))"
        using False calculation(1) by (cases s; cases c; auto simp: nth_append split: prod.splits)+
      ultimately show ?thesis using later[of 1 0] c1 0 by auto
    qed
  qed
qed

lemma live_schedule_run: "live_schedule dc E ss c \<Longrightarrow> fair_run dc E (schedule_at dc E ss c)"
  by (simp add: fair_run_def live_schedule_at live_schedule_fair)


end
