(* ===== verification/PairingConcurrency.thy ===== *)
theory PairingConcurrency
  imports NodesProperties
begin

text \<open>
  Pairing requests at the same time (\<open>nodes/service.go\<close>). Each is a transaction at PostgreSQL's default
  level, read committed: a statement sees what is committed when it starts, \<open>FOR UPDATE\<close> waits until no
  other open transaction has locked the row and locks it until the transaction's end, and an insert
  waits for open transactions that have inserted a row with the same unique key.
\<close>

subsection \<open>The transactions\<close>

text \<open>Where a request is: what it has read and written is its own until it commits.\<close>

datatype pair_pc =
    Selecting
  | Selected pair_token_row
  | Marked pair_token_row gostring
  | Inserted pair_token_row gostring Node_row
  | PairEnded "go_error + Node \<times> gostring"

type_synonym pair_task = "PairRequest \<times> pair_pc"

fun locked_row :: "pair_pc \<Rightarrow> pair_token_row option" where
  "locked_row (Selected t) = Some t" | "locked_row (Marked t raw) = Some t"
| "locked_row (Inserted t raw r) = Some t" | "locked_row pc = None"

definition unlocked :: "(gostring \<Rightarrow> gostring) \<Rightarrow> pair_task list \<Rightarrow> PairRequest \<Rightarrow> bool" where
  "unlocked h ps req = list_all (\<lambda>(req', pc). h (pr_Token req') = h (pr_Token req) \<longrightarrow> locked_row pc = None) ps"

definition select_token :: "(gostring \<Rightarrow> gostring) \<Rightarrow> PairRequest \<Rightarrow> db \<Rightarrow> pair_pc" where
  "select_token h req d =
     (case select_one (\<lambda>t. pt_TokenHash t = h (pr_Token req)) (t_pair_tokens d) of
        None \<Rightarrow> PairEnded (Inl nodes_ErrTokenInvalid)
      | Some t \<Rightarrow> Selected t)"

definition check_token :: "(go_error + gostring) \<Rightarrow> int \<Rightarrow> pair_token_row \<Rightarrow> pair_pc" where
  "check_token rnd now t =
     (if pt_UsedAt t \<noteq> None \<or> pt_ExpiresAt t < now then PairEnded (Inl nodes_ErrTokenInvalid)
      else case rnd of
             Inl e \<Rightarrow> PairEnded (Inl (Wrap ''read random: '' e))
           | Inr raw \<Rightarrow> Marked t raw)"

definition stored_info :: "PairRequest \<Rightarrow> gostring" where
  "stored_info req = (if pr_GPUInfo req = '''' then ''[]'' else pr_GPUInfo req)"

definition paired_row :: "(gostring \<Rightarrow> gostring) \<Rightarrow> PairRequest \<Rightarrow> pair_token_row \<Rightarrow> gostring \<Rightarrow> uuid \<Rightarrow> gostring \<Rightarrow> Node_row" where
  "paired_row h req t raw i j =
     \<lparr>node_ID = i, node_OwnerUserID = pt_UserID t, node_Name = pr_Name req, node_AgentVersion = '''',
      node_GPUInfo = j, node_Status = ''offline'', node_LastSeenAt = None,
      node_TokenHash = h (b64_encode URLAlphabet raw)\<rparr>"

definition same_unique_key :: "Node_row \<Rightarrow> Node_row \<Rightarrow> bool" where
  "same_unique_key r r' \<longleftrightarrow> node_ID r = node_ID r' \<or> node_TokenHash r = node_TokenHash r' \<or>
     node_OwnerUserID r = node_OwnerUserID r' \<and> node_Name r = node_Name r'"

definition may_insert :: "pair_task list \<Rightarrow> Node_row \<Rightarrow> bool" where
  "may_insert ps r = list_all (\<lambda>(req, pc). case pc of Inserted t raw r' \<Rightarrow> \<not> same_unique_key r r' | _ \<Rightarrow> True) ps"

definition insert_paired :: "pair_token_row \<Rightarrow> gostring \<Rightarrow> Node_row \<Rightarrow> db \<Rightarrow> pair_pc" where
  "insert_paired t raw r d =
     (case fst (insert_node r d) of
        Inl e \<Rightarrow> PairEnded (Inl (if is_unique_violation e then nodes_ErrNodeNameTaken else Wrap ''insert node: '' e))
      | Inr _ \<Rightarrow> Inserted t raw r)"

definition paired_node :: "PairRequest \<Rightarrow> pair_token_row \<Rightarrow> Node_row \<Rightarrow> Node" where
  "paired_node req t r =
     \<lparr>node_ID = node_ID r, node_OwnerUserID = pt_UserID t, node_Name = pr_Name req, node_AgentVersion = '''',
      node_GPUInfo = stored_info req, node_Status = ''offline'', node_LastSeenAt = None\<rparr>"

definition commit_pairing :: "(gostring \<Rightarrow> gostring) \<Rightarrow> int \<Rightarrow> PairRequest \<Rightarrow> Node_row \<Rightarrow> db \<Rightarrow> db" where
  "commit_pairing h u req r d =
     d\<lparr>t_pair_tokens := update_rows (\<lambda>t. pt_TokenHash t = h (pr_Token req)) (pt_UsedAt_update (\<lambda>_. Some u)) (t_pair_tokens d),
       t_nodes := t_nodes d @ [r]\<rparr>"

text \<open>
  What other requests and agents may do meanwhile: change other tables, the status and inventory of nodes,
  and accounts, but no account that a pair token belongs to (deleting it would delete the token, whose row
  may be locked).
\<close>

definition node_key :: "Node_row \<Rightarrow> uuid \<times> gostring \<times> uuid \<times> gostring" where
  "node_key r = (node_ID r, node_TokenHash r, node_OwnerUserID r, node_Name r)"

definition elsewhere :: "db \<Rightarrow> db \<Rightarrow> bool" where
  "elsewhere d d' \<longleftrightarrow> t_pair_tokens d' = t_pair_tokens d \<and> map node_key (t_nodes d') = map node_key (t_nodes d) \<and>
     (\<forall>t \<in> set (t_pair_tokens d). pt_UserID t \<in> user_ID ` set (t_users d) \<longrightarrow> pt_UserID t \<in> user_ID ` set (t_users d'))"

text \<open>
  One step of the control plane's database: a request arrives or goes on, with whatever clock,
  random bytes and generated id, or fails; a pair token is issued; other things happen elsewhere.
\<close>

inductive pair_step :: "(gostring \<Rightarrow> gostring) \<Rightarrow> db \<times> pair_task list \<Rightarrow> db \<times> pair_task list \<Rightarrow> bool" for h where
  arrive: "pair_step h (d, ps) (d, ps @ [(req, Selecting)])"
| select: "i < length ps \<Longrightarrow> ps ! i = (req, Selecting) \<Longrightarrow> unlocked h ps req \<Longrightarrow>
    pair_step h (d, ps) (d, ps[i := (req, select_token h req d)])"
| check: "i < length ps \<Longrightarrow> ps ! i = (req, Selected t) \<Longrightarrow> pair_step h (d, ps) (d, ps[i := (req, check_token rnd now t)])"
| insert: "i < length ps \<Longrightarrow> ps ! i = (req, Marked t raw) \<Longrightarrow> db_jsonb d (stored_info req) = Inr j \<Longrightarrow>
    r = paired_row h req t raw u j \<Longrightarrow> may_insert ps r \<Longrightarrow>
    pair_step h (d, ps) (d, ps[i := (req, insert_paired t raw r d)])"
| commit: "i < length ps \<Longrightarrow> ps ! i = (req, Inserted t raw r) \<Longrightarrow>
    pair_step h (d, ps) (commit_pairing h u req r d, ps[i := (req, PairEnded (Inr (paired_node req t r, b64_encode URLAlphabet raw)))])"
| fails: "i < length ps \<Longrightarrow> ps ! i = (req, pc) \<Longrightarrow> (\<forall>x. pc \<noteq> PairEnded x) \<Longrightarrow> pair_step h (d, ps) (d, ps[i := (req, PairEnded (Inl e))])"
| issue: "insert_pair_token row d = (Inr (), d') \<Longrightarrow> pt_UsedAt row = None \<Longrightarrow> pair_step h (d, ps) (d', ps)"
| other: "elsewhere d d' \<Longrightarrow> pair_step h (d, ps) (d', ps)"

subsection \<open>The invariant of the locks\<close>

definition insertable :: "Node_row \<Rightarrow> db \<Rightarrow> bool" where
  "insertable r d \<longleftrightarrow> (\<forall>x \<in> set (t_nodes d). \<not> same_unique_key x r) \<and> (\<exists>u \<in> set (t_users d). user_ID u = node_OwnerUserID r)"

definition spent :: "gostring \<Rightarrow> db \<Rightarrow> bool" where
  "spent x d \<longleftrightarrow> (\<exists>t \<in> set (t_pair_tokens d). pt_TokenHash t = x \<and> pt_UsedAt t \<noteq> None)"

definition task_holds :: "(gostring \<Rightarrow> gostring) \<Rightarrow> db \<Rightarrow> pair_task \<Rightarrow> bool" where
  "task_holds h d = (\<lambda>(req, pc).
     (\<forall>t. locked_row pc = Some t \<longrightarrow> t \<in> set (t_pair_tokens d) \<and> pt_TokenHash t = h (pr_Token req)) \<and>
     (case pc of
        Marked t raw \<Rightarrow> pt_UsedAt t = None
      | Inserted t raw r \<Rightarrow> pt_UsedAt t = None \<and> insertable r d \<and>
          (\<exists>i j. r = paired_row h req t raw i j)
      | PairEnded (Inr a) \<Rightarrow> spent (h (pr_Token req)) d
      | _ \<Rightarrow> True))"

definition apart :: "(gostring \<Rightarrow> gostring) \<Rightarrow> pair_task \<Rightarrow> pair_task \<Rightarrow> bool" where
  "apart h = (\<lambda>(req, pc) (req', pc').
     (h (pr_Token req) = h (pr_Token req') \<longrightarrow> locked_row pc = None \<or> locked_row pc' = None) \<and>
     (h (pr_Token req) = h (pr_Token req') \<longrightarrow> (\<forall>a b. pc = PairEnded (Inr a) \<longrightarrow> pc' \<noteq> PairEnded (Inr b))) \<and>
     (\<forall>t raw r t' raw' r'. pc = Inserted t raw r \<longrightarrow> pc' = Inserted t' raw' r' \<longrightarrow> \<not> same_unique_key r r'))"

definition pairing_inv :: "(gostring \<Rightarrow> gostring) \<Rightarrow> db \<times> pair_task list \<Rightarrow> bool" where
  "pairing_inv h = (\<lambda>(d, ps). uniq pt_TokenHash (t_pair_tokens d) \<and> list_all (task_holds h d) ps \<and>
     (\<forall>i < length ps. \<forall>j < length ps. i \<noteq> j \<longrightarrow> apart h (ps ! i) (ps ! j)))"

lemma insert_node_iff: "insert_node r d = (Inr x, d') \<longleftrightarrow> insertable r d \<and> d' = d\<lparr>t_nodes := t_nodes d @ [r]\<rparr>"
proof -
  have "violated
      [(exists_row (\<lambda>x. node_ID x = node_ID r) (t_nodes d), ''23505'', ''nodes_pkey''),
       (exists_row (\<lambda>x. node_TokenHash x = node_TokenHash r) (t_nodes d), ''23505'', ''nodes_node_token_hash_key''),
       (exists_row (\<lambda>x. node_OwnerUserID x = node_OwnerUserID r \<and> node_Name x = node_Name r)
          (t_nodes d), ''23505'', ''nodes_owner_user_id_name_key''),
       (\<not> exists_row (\<lambda>u. user_ID u = node_OwnerUserID r) (t_users d), ''23503'', ''nodes_owner_user_id_fkey'')] = None
    \<longleftrightarrow> insertable r d"
    by (auto simp: violated_None insertable_def same_unique_key_def exists_row_iff)
  then show ?thesis unfolding insert_node_def by (auto simp del: violated.simps split: option.split)
qed

lemma same_unique_key_sym: "same_unique_key r r' \<longleftrightarrow> same_unique_key r' r"
  by (auto simp: same_unique_key_def)

lemma apart_sym: "apart h x y \<longleftrightarrow> apart h y x"
  by (auto simp: apart_def same_unique_key_sym split: prod.splits)

lemma pairing_inv_update:
  assumes inv: "pairing_inv h (d, ps)" and i: "i < length ps"
    and d': "uniq pt_TokenHash (t_pair_tokens d')" "\<And>j. j < length ps \<Longrightarrow> j \<noteq> i \<Longrightarrow> task_holds h d' (ps ! j)"
    and x: "task_holds h d' x" "\<And>j. j < length ps \<Longrightarrow> j \<noteq> i \<Longrightarrow> apart h x (ps ! j)"
  shows "pairing_inv h (d', ps[i := x])"
proof -
  have "apart h (ps[i := x] ! j) (ps[i := x] ! k)" if "j < length ps" "k < length ps" "j \<noteq> k" for j k
    using that inv i x(2)[of j] x(2)[of k] apart_sym[of h "ps ! j" x]
    by (cases "j = i"; cases "k = i") (simp_all add: pairing_inv_def)
  then show ?thesis using d' i x(1) by (simp add: pairing_inv_def list_all_length nth_list_update)
qed

text \<open>A request that moves on without a commit.\<close>

lemma pairing_inv_move:
  assumes inv: "pairing_inv h (d, ps)" and i: "i < length ps"
    and x: "task_holds h d x" "\<And>j. j < length ps \<Longrightarrow> j \<noteq> i \<Longrightarrow> apart h x (ps ! j)"
  shows "pairing_inv h (d, ps[i := x])"
  using pairing_inv_update[OF inv i _ _ x] inv by (auto simp: pairing_inv_def list_all_length)

lemma task_at: "pairing_inv h (d, ps) \<Longrightarrow> i < length ps \<Longrightarrow> task_holds h d (ps ! i)"
  by (simp add: pairing_inv_def list_all_length)

lemma apart_at: "pairing_inv h (d, ps) \<Longrightarrow> i < length ps \<Longrightarrow> j < length ps \<Longrightarrow> j \<noteq> i \<Longrightarrow> apart h (ps ! i) (ps ! j)"
  by (simp add: pairing_inv_def)

lemma ended_apart: "apart h (req, PairEnded (Inl e)) x" "task_holds h d (req, PairEnded (Inl e))"
  by (simp_all add: apart_def task_holds_def split: prod.split)

lemma inv_select:
  assumes inv: "pairing_inv h (d, ps)" and i: "i < length ps" "unlocked h ps req"
  shows "pairing_inv h (d, ps[i := (req, select_token h req d)])"
proof (cases "select_one (\<lambda>t. pt_TokenHash t = h (pr_Token req)) (t_pair_tokens d)")
  case None
  then show ?thesis using inv i by (auto simp: select_token_def ended_apart intro!: pairing_inv_move)
next
  case (Some t)
  have "apart h (req, Selected t) (ps ! j)" if "j < length ps" for j
    using i(2) that by (auto simp: apart_def unlocked_def list_all_length split: prod.splits)
  then show ?thesis using inv i Some select_one_Some[OF Some]
    by (auto simp: select_token_def task_holds_def intro!: pairing_inv_move)
qed

lemma inv_check:
  assumes inv: "pairing_inv h (d, ps)" and i: "i < length ps" "ps ! i = (req, Selected t)"
  shows "pairing_inv h (d, ps[i := (req, check_token rnd now t)])"
proof (rule pairing_inv_move[OF inv i(1)])
  show "task_holds h d (req, check_token rnd now t)"
    using task_at[OF inv i(1)] i(2) by (auto simp: check_token_def task_holds_def split: sum.split)
  show "apart h (req, check_token rnd now t) (ps ! j)" if "j < length ps" "j \<noteq> i" for j
    using apart_at[OF inv i(1) that] i(2) by (auto simp: check_token_def ended_apart apart_def split: sum.split prod.splits)
qed

lemma inv_insert:
  assumes inv: "pairing_inv h (d, ps)" and i: "i < length ps" "ps ! i = (req, Marked t raw)"
    and r: "r = paired_row h req t raw u j" "may_insert ps r"
  shows "pairing_inv h (d, ps[i := (req, insert_paired t raw r d)])"
proof (cases "insert_node r d")
  case (Pair res d')
  show ?thesis
  proof (cases res)
    case (Inl e)
    then show ?thesis using Pair inv i by (auto simp: insert_paired_def ended_apart intro!: pairing_inv_move)
  next
    case (Inr a)
    then have ok: "insertable r d" "insert_paired t raw r d = Inserted t raw r"
      using Pair insert_node_iff[of r d a d'] by (simp_all add: insert_paired_def)
    have "task_holds h d (req, Inserted t raw r)" using task_at[OF inv i(1)] i(2) ok(1) r(1) by (auto simp: task_holds_def)
    moreover have "apart h (req, Inserted t raw r) (ps ! k)" if "k < length ps" "k \<noteq> i" for k
    proof -
      have "case ps ! k of (req, Inserted t raw r') \<Rightarrow> \<not> same_unique_key r r' | _ \<Rightarrow> True"
        using r(2) that by (auto simp: may_insert_def list_all_length split: prod.splits)
      then show ?thesis using apart_at[OF inv i(1) that] i(2) by (auto simp: apart_def split: prod.splits pair_pc.splits)
    qed
    ultimately show ?thesis using ok(2) by (auto intro: pairing_inv_move[OF inv i(1)])
  qed
qed

lemma commit_row:
  "t \<in> set (t_pair_tokens d) \<Longrightarrow>
   (if pt_TokenHash t = h (pr_Token req) then pt_UsedAt_update (\<lambda>_. Some u) t else t) \<in> set (t_pair_tokens (commit_pairing h u req r d))"
  by (simp add: commit_pairing_def set_update_rows)

lemma commit_tokens:
  "t \<in> set (t_pair_tokens d) \<Longrightarrow> pt_TokenHash t \<noteq> h (pr_Token req) \<Longrightarrow> t \<in> set (t_pair_tokens (commit_pairing h u req r d))"
  using commit_row[of t d h req u r] by simp

lemma commit_spends: "t \<in> set (t_pair_tokens d) \<Longrightarrow> pt_TokenHash t = h (pr_Token req) \<Longrightarrow> spent (h (pr_Token req)) (commit_pairing h u req r d)"
  using commit_row[of t d h req u r] unfolding spent_def by (rule rev_bexI) simp_all

lemma commit_spent: "spent x d \<Longrightarrow> spent x (commit_pairing h u req r d)"
  using commit_spends commit_tokens unfolding spent_def by metis

lemma inv_commit:
  assumes inv: "pairing_inv h (d, ps)" and i: "i < length ps" "ps ! i = (req, Inserted t raw r)"
  shows "pairing_inv h (commit_pairing h u req r d, ps[i := (req, PairEnded (Inr a))])"
proof (rule pairing_inv_update[OF inv i(1)])
  let ?d = "commit_pairing h u req r d"
  have t: "t \<in> set (t_pair_tokens d)" "pt_TokenHash t = h (pr_Token req)" "pt_UsedAt t = None"
    using task_at[OF inv i(1)] i(2) by (auto simp: task_holds_def)
  have un: "uniq pt_TokenHash (t_pair_tokens d)" using inv by (simp add: pairing_inv_def)
  show "uniq pt_TokenHash (t_pair_tokens ?d)" using un by (auto simp: commit_pairing_def intro: uniq_update)
  show "task_holds h ?d (req, PairEnded (Inr a))" using commit_spends[of t d h req] t(1,2) by (simp add: task_holds_def)
  have unspent: "\<not> spent (h (pr_Token req)) d"
  proof
    assume "spent (h (pr_Token req)) d"
    then obtain t' where "t' \<in> set (t_pair_tokens d)" "pt_TokenHash t' = pt_TokenHash t" "pt_UsedAt t' \<noteq> None"
      using t(2) by (auto simp: spent_def)
    then show False using uniq_same[OF un _ t(1)] t(3) by metis
  qed
  show "task_holds h ?d (ps ! j)" "apart h (req, PairEnded (Inr a)) (ps ! j)" if j: "j < length ps" "j \<noteq> i" for j
  proof -
    have a: "apart h (req, Inserted t raw r) (ps ! j)" using apart_at[OF inv i(1) j] i(2) by simp
    have h: "task_holds h d (ps ! j)" using task_at[OF inv j(1)] .
    obtain req' pc where q: "ps ! j = (req', pc)" by force
    have "t' \<in> set (t_pair_tokens ?d)" if "locked_row pc = Some t'" for t'
      using that a h q by (auto simp: apart_def task_holds_def intro!: commit_tokens)
    moreover have "insertable r' ?d" if "pc = Inserted t' raw' r'" for t' raw' r'
      using that a h q by (auto simp: apart_def task_holds_def insertable_def commit_pairing_def same_unique_key_sym)
    ultimately show "task_holds h ?d (ps ! j)"
      using h q commit_spent by (auto simp: task_holds_def split: pair_pc.splits sum.splits)
    show "apart h (req, PairEnded (Inr a)) (ps ! j)"
      using h q unspent by (auto simp: apart_def task_holds_def)
  qed
qed

lemma insertable_elsewhere:
  assumes "insertable r d" "map node_key (t_nodes d') = map node_key (t_nodes d)" "node_OwnerUserID r \<in> user_ID ` set (t_users d')"
  shows "insertable r d'"
proof -
  have "node_key ` set (t_nodes d') = node_key ` set (t_nodes d)" using assms(2) by (metis set_map)
  then have "\<exists>y \<in> set (t_nodes d). node_key y = node_key x" if "x \<in> set (t_nodes d')" for x
    using that by (metis imageE imageI)
  then show ?thesis using assms(1,3) by (fastforce simp: insertable_def same_unique_key_def node_key_def)
qed

lemma inv_frame:
  assumes inv: "pairing_inv h (d, ps)" and t: "set (t_pair_tokens d) \<subseteq> set (t_pair_tokens d')" "uniq pt_TokenHash (t_pair_tokens d')"
    and n: "map node_key (t_nodes d') = map node_key (t_nodes d)"
    and u: "\<And>t. t \<in> set (t_pair_tokens d) \<Longrightarrow> pt_UserID t \<in> user_ID ` set (t_users d) \<Longrightarrow> pt_UserID t \<in> user_ID ` set (t_users d')"
  shows "pairing_inv h (d', ps)"
proof -
  have s: "spent y d \<Longrightarrow> spent y d'" for y using t(1) by (auto simp: spent_def)
  have "task_holds h d' x" if x: "task_holds h d x" for x
  proof (cases "snd x")
    case (Inserted t raw r)
    obtain req where q: "x = (req, Inserted t raw r)" using Inserted by (metis prod.collapse)
    have "insertable r d" "node_OwnerUserID r = pt_UserID t" "t \<in> set (t_pair_tokens d)"
      using x q by (auto simp: task_holds_def paired_row_def)
    moreover from this have "pt_UserID t \<in> user_ID ` set (t_users d)" by (force simp: insertable_def)
    ultimately have "insertable r d'" using insertable_elsewhere[of r d d'] n u[of t] by simp
    then show ?thesis using x q t(1) by (auto simp: task_holds_def)
  qed (use x s t(1) in \<open>cases x; auto simp: task_holds_def split: sum.splits\<close>)+
  then show ?thesis using inv t(2) by (auto simp: pairing_inv_def list_all_length)
qed

lemma pairing_inv_step: "pair_step h c c' \<Longrightarrow> pairing_inv h c \<Longrightarrow> pairing_inv h c'"
proof (induction rule: pair_step.induct)
  case (arrive d ps req)
  then show ?case by (auto simp: pairing_inv_def task_holds_def nth_append less_Suc_eq apart_def split: prod.splits)
next
  case (fails i ps req pc d e)
  then show ?case by (intro pairing_inv_move) (simp_all add: ended_apart)
next
  case (issue row d d' ps)
  then have d': "d' = d\<lparr>t_pair_tokens := t_pair_tokens d @ [row]\<rparr>" "\<not> exists_row (\<lambda>x. pt_TokenHash x = pt_TokenHash row) (t_pair_tokens d)"
    by (simp_all add: insert_pair_token_def split: option.splits if_splits)
  show ?case
    by (rule inv_frame[OF issue(3)]) (use issue(3) d' in \<open>auto simp: pairing_inv_def intro: uniq_append\<close>)
next
  case (other d d' ps)
  then show ?case by (intro inv_frame[of h d ps d']) (auto simp: pairing_inv_def elsewhere_def)
qed (simp_all add: inv_select inv_check inv_insert inv_commit)

lemma pairing_inv_run: "(pair_step h)\<^sup>*\<^sup>* c c' \<Longrightarrow> pairing_inv h c \<Longrightarrow> pairing_inv h c'"
  by (induction rule: rtranclp_induct) (auto dest: pairing_inv_step)

subsection \<open>The promises\<close>

lemma pairing_inv_start: "pair_tokens_ok d \<Longrightarrow> pairing_inv h (d, [])"
  by (simp add: pairing_inv_def pair_tokens_ok_def)

fun succeeded :: "pair_pc \<Rightarrow> bool" where
  "succeeded (PairEnded (Inr a)) = True" | "succeeded pc = False"

lemma succeeded_iff: "succeeded pc \<longleftrightarrow> (\<exists>a. pc = PairEnded (Inr a))"
  by (cases pc rule: succeeded.cases) auto

lemma at_most_one:
  assumes "\<And>i j. i < length xs \<Longrightarrow> j < length xs \<Longrightarrow> P (xs ! i) \<Longrightarrow> P (xs ! j) \<Longrightarrow> i = j"
  shows "length (filter P xs) \<le> 1"
  using assms by (auto simp: length_filter_conv_card card_le_Suc0_iff_eq)

text \<open>C17: a pair token buys at most one node even when pairing requests run at the same time. However the
  statements of their transactions interleave, whatever fails and whatever else the control plane
  does, at most one of the requests with the same token succeeds, because the token's row is locked
  from the check to the commit.\<close>

theorem concurrent_pairing_buys_one_node:
  assumes "(pair_step h)\<^sup>*\<^sup>* (d, []) (d', ps)" and "pair_tokens_ok d"
  shows "length (filter (\<lambda>(req, pc). pr_Token req = tok \<and> succeeded pc) ps) \<le> 1"
proof (rule at_most_one)
  have inv: "pairing_inv h (d', ps)" using pairing_inv_run[OF assms(1) pairing_inv_start[OF assms(2)]] .
  fix i j
  assume "i < length ps" "j < length ps" "case ps ! i of (req, pc) \<Rightarrow> pr_Token req = tok \<and> succeeded pc"
    "case ps ! j of (req, pc) \<Rightarrow> pr_Token req = tok \<and> succeeded pc"
  then show "i = j" using apart_at[OF inv, of i j] by (auto simp: apart_def succeeded_iff split: prod.splits)
qed

text \<open>What the transactions do, taken one at a time: a successful pairing in one piece, a token issued, changes elsewhere.\<close>

inductive serial_step :: "(gostring \<Rightarrow> gostring) \<Rightarrow> db \<Rightarrow> db \<Rightarrow> bool" for h where
  pairs: "same_tables d d0 \<Longrightarrow> PairNode h rnd now req d0 = (Inr a, d1) \<Longrightarrow> same_tables d1 d' \<Longrightarrow> serial_step h d d'"
| issues: "insert_pair_token row d = (Inr (), d') \<Longrightarrow> serial_step h d d'"
| others: "elsewhere d d' \<Longrightarrow> serial_step h d d'"

lemma select_one_uniq:
  assumes "uniq key xs" "x \<in> set xs" "key x = k"
  shows "select_one (\<lambda>y. key y = k) xs = Some x"
proof -
  obtain y where y: "select_one (\<lambda>y. key y = k) xs = Some y"
    using assms(2,3) by (cases "select_one (\<lambda>y. key y = k) xs") (auto simp: select_one_None exists_row_iff)
  then show ?thesis using uniq_same[OF assms(1) _ assms(2)] select_one_Some[OF y] assms(3) by simp
qed

text \<open>A commit does what the transaction in one piece does.\<close>

lemma commit_is_PairNode:
  assumes "pairing_inv h (d, ps)" "i < length ps" "ps ! i = (req, Inserted t raw r)"
  shows "serial_step h d (commit_pairing h u req r d)"
proof -
  have t: "t \<in> set (t_pair_tokens d)" "pt_TokenHash t = h (pr_Token req)" "pt_UsedAt t = None"
    and r: "insertable r d" and row: "\<exists>i j. r = paired_row h req t raw i j"
    using task_at[OF assms(1,2)] assms(3) by (auto simp: task_holds_def)
  from row obtain k j where rk: "r = paired_row h req t raw k j" by blast
  have sel: "select_one (\<lambda>t. pt_TokenHash t = h (pr_Token req)) (t_pair_tokens d) = Some t"
    using select_one_uniq[of pt_TokenHash "t_pair_tokens d" t "h (pr_Token req)"] t assms(1) by (simp add: pairing_inv_def)
  let ?d0 = "d\<lparr>db_faults := [], db_now := u, db_uuid := \<lambda>_. k, db_jsonb := \<lambda>_. Inr j\<rparr>"
  let ?d1 = "?d0\<lparr>t_pair_tokens := update_rows (\<lambda>t. pt_TokenHash t = h (pr_Token req)) (pt_UsedAt_update (\<lambda>_. Some u)) (t_pair_tokens d)\<rparr>"
  let ?d2 = "?d1\<lparr>db_uuid_next := Suc (db_uuid_next d)\<rparr>"
  have ins: "insert_node r ?d2 = (Inr (), ?d2\<lparr>t_nodes := t_nodes d @ [r]\<rparr>)"
    using r by (simp add: insert_node_iff insertable_def)
  have "PairNode h (Inr raw) (pt_ExpiresAt t) req ?d0 = (Inr (paired_node req t r, b64_encode URLAlphabet raw), ?d2\<lparr>t_nodes := t_nodes d @ [r]\<rparr>)"
    using sel t(3) ins
    by (simp add: PairNode_def in_tx_def stmt_def give_def and_then_def query_row_def with_state_def update_pair_tokens_def
        pair_insert_node_def jsonb_input_def gen_random_uuid_def Let_def on_error_def rk paired_row_def paired_node_def stored_info_def)
  then show ?thesis
    by (rule serial_step.pairs[rotated]) (simp_all add: same_tables_def commit_pairing_def)
qed

text \<open>C18: pairing requests at the same time are serial: whatever state of the tables interleaved transactions
  lead to, the pairing transactions in one piece lead to it too, run one after another in the order
  of the commits.\<close>

theorem concurrent_pairing_is_serial:
  assumes "(pair_step h)\<^sup>*\<^sup>* (d, []) (d', ps)" and "pair_tokens_ok d"
  shows "(serial_step h)\<^sup>*\<^sup>* d d'"
proof -
  have step: "(serial_step h)\<^sup>*\<^sup>* (fst c) (fst c')" if "pair_step h c c'" "pairing_inv h c" for c c'
    using that
  proof (induction rule: pair_step.induct)
    case (commit i ps req t raw r d u)
    then show ?case using commit_is_PairNode by auto
  next
    case (issue row d d' ps)
    then show ?case by (auto intro: serial_step.issues)
  next
    case (other d d' ps)
    then show ?case by (auto intro: serial_step.others)
  qed simp_all
  have "(pair_step h)\<^sup>*\<^sup>* c c' \<Longrightarrow> pairing_inv h c \<Longrightarrow> (serial_step h)\<^sup>*\<^sup>* (fst c) (fst c')" for c c'
  proof (induction rule: rtranclp_induct)
    case (step y z)
    then show ?case using pairing_inv_run[of h c y] \<open>\<And>c c'. _ \<Longrightarrow> _ \<Longrightarrow> (serial_step h)\<^sup>*\<^sup>* (fst c) (fst c')\<close>[of y z] by auto
  qed simp
  from this[OF assms(1) pairing_inv_start[OF assms(2)]] show ?thesis by simp
qed

subsection \<open>Schedules\<close>

datatype pair_choice =
    Asks PairRequest
  | Selects nat
  | Checks nat "go_error + gostring" int
  | Inserts nat uuid
  | Commits nat int

fun pair_go :: "(gostring \<Rightarrow> gostring) \<Rightarrow> pair_choice \<Rightarrow> db \<times> pair_task list \<Rightarrow> (db \<times> pair_task list) option" where
  "pair_go h (Asks req) (d, ps) = Some (d, ps @ [(req, Selecting)])"
| "pair_go h (Selects i) (d, ps) =
     (if i < length ps then
        (case ps ! i of
           (req, Selecting) \<Rightarrow> if unlocked h ps req then Some (d, ps[i := (req, select_token h req d)]) else None
         | _ \<Rightarrow> None)
      else None)"
| "pair_go h (Checks i rnd now) (d, ps) =
     (if i < length ps then
        (case ps ! i of (req, Selected t) \<Rightarrow> Some (d, ps[i := (req, check_token rnd now t)]) | _ \<Rightarrow> None)
      else None)"
| "pair_go h (Inserts i u) (d, ps) =
     (if i < length ps then
        (case ps ! i of
           (req, Marked t raw) \<Rightarrow>
             (case db_jsonb d (stored_info req) of
                Inl _ \<Rightarrow> None
              | Inr j \<Rightarrow>
                  let r = paired_row h req t raw u j
                  in if may_insert ps r then Some (d, ps[i := (req, insert_paired t raw r d)]) else None)
         | _ \<Rightarrow> None)
      else None)"
| "pair_go h (Commits i u) (d, ps) =
     (if i < length ps then
        (case ps ! i of
           (req, Inserted t raw r) \<Rightarrow>
             Some (commit_pairing h u req r d, ps[i := (req, PairEnded (Inr (paired_node req t r, b64_encode URLAlphabet raw)))])
         | _ \<Rightarrow> None)
      else None)"

fun pair_schedule :: "(gostring \<Rightarrow> gostring) \<Rightarrow> pair_choice list \<Rightarrow> db \<times> pair_task list \<Rightarrow> (db \<times> pair_task list) option" where
  "pair_schedule h [] c = Some c"
| "pair_schedule h (s # ss) c = (case pair_go h s c of None \<Rightarrow> None | Some c' \<Rightarrow> pair_schedule h ss c')"

lemma pair_go_step: "pair_go h s c = Some c' \<Longrightarrow> pair_step h c c'"
  by (cases "(h, s, c)" rule: pair_go.cases)
    (auto simp: Let_def split: if_splits prod.splits pair_pc.splits sum.splits
      intro: pair_step.arrive pair_step.select pair_step.check pair_step.insert pair_step.commit)

lemma pair_schedule_run: "pair_schedule h ss c = Some c' \<Longrightarrow> (pair_step h)\<^sup>*\<^sup>* c c'"
proof (induction ss arbitrary: c)
  case (Cons s ss)
  then show ?case by (auto split: option.splits dest!: pair_go_step Cons.IH intro: converse_rtranclp_into_rtranclp)
qed simp

text \<open>Two requests for two machines with one token: the second has to wait, and is refused.\<close>

definition demo_rivals :: "pair_choice list" where
  "demo_rivals = [Asks demo_req, Asks (demo_req\<lparr>pr_Name := ''rack''\<rparr>), Selects 1, Checks 1 (Inr ''r1'') 5,
     Inserts 1 9, Commits 1 6, Selects 0, Checks 0 (Inr ''r0'') 7]"

definition demo_rivals_end :: "db \<times> pair_task list" where
  "demo_rivals_end = the (pair_schedule id demo_rivals (demo_paired, []))"

lemma demo_rivals_run: "(pair_step id)\<^sup>*\<^sup>* (demo_paired, []) (fst demo_rivals_end, snd demo_rivals_end)"
proof -
  have "pair_schedule id demo_rivals (demo_paired, []) \<noteq> None" by code_simp
  then show ?thesis by (intro pair_schedule_run[of id demo_rivals]) (auto simp: demo_rivals_end_def)
qed

lemma demo_paired_ok: "pair_tokens_ok demo_paired"
proof -
  have "distinct (map pt_TokenHash (t_pair_tokens demo_paired))" by code_simp
  moreover have "list_all (\<lambda>t. list_ex (\<lambda>u. user_ID u = pt_UserID t) (t_users demo_paired)) (t_pair_tokens demo_paired)"
    by code_simp
  ultimately show ?thesis by (auto simp: pair_tokens_ok_def uniq_def refers_def list_all_iff list_ex_iff image_iff) metis
qed

lemma concurrent_pairing_buys_one_node_witness:
  "map (map_prod pr_Name succeeded) (snd demo_rivals_end) = [(''box'', False), (''rack'', True)] \<and>
   length (filter (\<lambda>(req, pc). pr_Token req = demo_token \<and> succeeded pc) (snd demo_rivals_end)) \<le> 1"
proof -
  have "map (map_prod pr_Name succeeded) (snd demo_rivals_end) = [(''box'', False), (''rack'', True)]" by code_simp
  then show ?thesis using concurrent_pairing_buys_one_node[OF demo_rivals_run demo_paired_ok] by blast
qed

lemma concurrent_pairing_is_serial_witness:
  "map node_Name (t_nodes (fst demo_rivals_end)) = [''rack''] \<and> (serial_step id)\<^sup>*\<^sup>* demo_paired (fst demo_rivals_end)"
proof -
  have "map node_Name (t_nodes (fst demo_rivals_end)) = [''rack'']" by code_simp
  then show ?thesis using concurrent_pairing_is_serial[OF demo_rivals_run demo_paired_ok] by blast
qed

end
