(* ===== verification/SignupConcurrency.thy ===== *)
theory SignupConcurrency
  imports UsersHttpProperties
begin

text \<open>
  Sign-ups at the same time (\<open>users/handlers.go\<close>, \<open>policy/policy.go\<close>). A sign-up commits its account, creates the
  Headscale user, reads all slugs and pushes the policy generated from them; these are steps between
  which other requests run. Left alone the steps are \<open>users_signup\<close>; together, the policy covers the
  accounts as long as no refresh reads while another has still to push, and not otherwise.
\<close>

subsection \<open>A sign-up in steps\<close>

definition refresh_text :: "gostring list \<Rightarrow> go_error + gostring" where
  "refresh_text slugs =
     (if slugs = [] then Inr emptyPolicy
      else (case GenerateACL slugs of
              Inl err \<Rightarrow> Inl (Wrap ''generate acl: '' err)
            | Inr acl \<Rightarrow> Inr acl))"

datatype signup_pc =
    SNew
  | SHook User
  | SRead User
  | SPush User "gostring list"
  | SUndo User
  | SDone "meResp response"
  | SLeft User

fun ended :: "signup_pc \<Rightarrow> bool" where
  "ended (SDone resp) = True" | "ended (SLeft u) = True" | "ended pc = False"

text \<open>\<open>SLeft\<close>: the account of a failed sign-up could not be deleted.\<close>

fun signup_step ::
  "http_env \<Rightarrow> users_env \<Rightarrow> 'h hs_client \<Rightarrow> http_request \<Rightarrow> signupReq \<Rightarrow> signup_pc \<Rightarrow> 'h cp \<Rightarrow> signup_pc \<times> 'h cp" where
  "signup_step E U H rq r SNew w =
     (case on_db (Signup U (sr_Email r) (sr_Slug r) (sr_Password r)) w of
        (Inl err, w) \<Rightarrow> (SDone (err_response signup_errors err), w)
      | (Inr u, w) \<Rightarrow>
          (SHook u, log_event E rq (Some (user_ID u)) ''user.signup'' (user_Slug u) (Some [(''email'', user_Email u)]) w))"
| "signup_step E U H rq r (SHook u) w =
     (case ensure_user H id (user_Slug u) w of (Inl err, w) \<Rightarrow> (SUndo u, w) | (Inr _, w) \<Rightarrow> (SRead u, w))"
| "signup_step E U H rq r (SRead u) w =
     (case on_db allSlugs w of (Inl err, w) \<Rightarrow> (SUndo u, w) | (Inr slugs, w) \<Rightarrow> (SPush u slugs, w))"
| "signup_step E U H rq r (SPush u slugs) w =
     (case refresh_text slugs of
        Inl err \<Rightarrow> (SUndo u, w)
      | Inr pol \<Rightarrow>
          (case on_hs (hs_SetPolicy H pol) w of
             (Inl err, w) \<Rightarrow> (SUndo u, w)
           | (Inr _, w) \<Rightarrow> (SDone (admit_user E rq 201 u), w)))"
| "signup_step E U H rq r (SUndo u) w =
     (case on_db (HardDelete (user_ID u)) w of
        (Inl err, w) \<Rightarrow> (SLeft u, w)
      | (Inr _, w) \<Rightarrow> (SDone (httperr_Write 500 ''registration failed''), w))"
| "signup_step E U H rq r pc w = (pc, w)"

fun signup_alone :: "nat \<Rightarrow> http_env \<Rightarrow> users_env \<Rightarrow> 'h hs_client \<Rightarrow> http_request \<Rightarrow> signupReq \<Rightarrow> signup_pc \<times> 'h cp \<Rightarrow> signup_pc \<times> 'h cp" where
  "signup_alone 0 E U H rq r c = c"
| "signup_alone (Suc n) E U H rq r (pc, w) = signup_alone n E U H rq r (signup_step E U H rq r pc w)"

fun answer_of :: "signup_pc \<Rightarrow> meResp response" where
  "answer_of (SDone resp) = resp"
| "answer_of pc = httperr_Write 500 ''registration failed''"

lemma ended_stays [simp]: "ended pc \<Longrightarrow> signup_alone n E U H rq r (pc, w) = (pc, w)"
  by (induction n) (cases pc; simp)+

lemma ensure_user_wrap:
  "ensure_user H f name w = (case ensure_user H id name w of (Inl err, w) \<Rightarrow> (Inl (f err), w) | (Inr x, w) \<Rightarrow> (Inr x, w))"
  by (auto simp: ensure_user_def split: prod.split sum.split)

text \<open>Where the steps that are left lead: whether to the end, with which answer and state.\<close>

definition leads :: "nat \<Rightarrow> http_env \<Rightarrow> users_env \<Rightarrow> 'h hs_client \<Rightarrow> http_request \<Rightarrow> signupReq \<Rightarrow> signup_pc \<Rightarrow> 'h cp \<Rightarrow>
    bool \<times> meResp response \<times> 'h cp" where
  "leads n E U H rq r pc w = (case signup_alone n E U H rq r (pc, w) of (pc, w) \<Rightarrow> (ended pc, answer_of pc, w))"

lemma leads_ended: "ended pc \<Longrightarrow> leads n E U H rq r pc w = (True, answer_of pc, w)"
  by (simp add: leads_def)

lemma leads_Suc:
  "leads (Suc n) E U H rq r pc w = (case signup_step E U H rq r pc w of (pc, w) \<Rightarrow> leads n E U H rq r pc w)"
  by (simp add: leads_def split: prod.split)

lemma leads_undo:
  "leads (Suc n) E U H rq r (SUndo u) w = (True, httperr_Write 500 ''registration failed'', snd (on_db (HardDelete (user_ID u)) w))"
  by (auto simp: leads_Suc leads_ended split: prod.split sum.split)

definition failing :: "User \<Rightarrow> 'h cp \<Rightarrow> bool \<times> meResp response \<times> 'h cp" where
  "failing u w = (True, httperr_Write 500 ''registration failed'', snd (on_db (HardDelete (user_ID u)) w))"

lemma leads_push:
  "leads (Suc (Suc n)) E U H rq r (SPush u slugs) w =
     (case refresh_text slugs of
        Inl _ \<Rightarrow> failing u w
      | Inr pol \<Rightarrow>
          (case on_hs (hs_SetPolicy H pol) w of
             (Inl _, w) \<Rightarrow> failing u w
           | (Inr _, w) \<Rightarrow> (True, admit_user E rq 201 u, w)))"
  by (subst leads_Suc) (auto simp: leads_undo leads_ended failing_def split: prod.split sum.split)

lemma leads_read:
  "leads (Suc (Suc (Suc n))) E U H rq r (SRead u) w =
     (case Refresh H w of (Inl _, w) \<Rightarrow> failing u w | (Inr _, w) \<Rightarrow> (True, admit_user E rq 201 u, w))"
  by (subst leads_Suc)
    (auto simp: leads_undo leads_push failing_def Refresh_def refresh_text_def and_then_def on_error_def give_def give_error_def
      split: prod.split sum.split)

lemma leads_hook:
  "leads (Suc (Suc (Suc (Suc n)))) E U H rq r (SHook u) w =
     (case OnUserCreated H (user_Slug u) w of (Inl _, w) \<Rightarrow> failing u w | (Inr _, w) \<Rightarrow> (True, admit_user E rq 201 u, w))"
proof -
  let ?f = "Wrap (''create headscale user '' @ go_quote (user_Slug u) @ '': '')"
  obtain q w1 where e: "ensure_user H id (user_Slug u) w = (q, w1)" by force
  show ?thesis
  proof (cases q)
    case (Inl err)
    then show ?thesis using e ensure_user_wrap[of H ?f "user_Slug u" w]
      by (subst leads_Suc) (simp add: leads_undo failing_def OnUserCreated_def and_then_def)
  next
    case (Inr x)
    then show ?thesis using e ensure_user_wrap[of H ?f "user_Slug u" w]
      by (subst leads_Suc)
        (simp add: leads_read OnUserCreated_def and_then_def on_error_def split: prod.split sum.split)
  qed
qed

text \<open>The steps of a sign-up, left alone, are the sign-up handler: after five steps it has ended, with the
  handler's answer and state, for every Headscale, database and request.\<close>

theorem signup_steps_are_the_handler:
  "leads 5 E U H rq r SNew w =
     (case users_signup E U (OnUserCreated H) rq (Some r) w of (resp, w') \<Rightarrow> (True, resp, w'))"
proof -
  have five: "5 = Suc (Suc (Suc (Suc (Suc 0))))" by simp
  show ?thesis
    unfolding five by (subst leads_Suc)
      (auto simp: leads_ended leads_hook users_signup_def serve_def after_signup_def failing_def split: prod.split sum.split)
qed

subsection \<open>Sign-ups together\<close>

type_synonym signup_task = "(http_request \<times> signupReq) \<times> signup_pc"

definition pushing :: "signup_pc \<Rightarrow> bool" where
  "pushing pc \<longleftrightarrow> (case pc of SPush _ _ \<Rightarrow> True | _ \<Rightarrow> False)"

text \<open>The slugs of the policy last pushed.\<close>

fun pushed_after :: "signup_pc \<Rightarrow> signup_pc \<Rightarrow> gostring list \<Rightarrow> gostring list" where
  "pushed_after (SPush u slugs) (SDone resp) P = slugs"
| "pushed_after pc pc' P = P"

text \<open>
  A request arrives, goes on by a step, or something else happens that leaves the accounts alone.
  \<open>apart_refreshes\<close> says whether refreshes exclude each other; the code has nothing that makes them.
\<close>

inductive signups_step ::
  "http_env \<Rightarrow> users_env \<Rightarrow> 'h hs_client \<Rightarrow> bool \<Rightarrow> signup_task list \<times> 'h cp \<times> gostring list \<Rightarrow>
   signup_task list \<times> 'h cp \<times> gostring list \<Rightarrow> bool"
  for E U H apart_refreshes where
  arrive: "signups_step E U H apart_refreshes (ps, w, P) (ps @ [(q, SNew)], w, P)"
| go: "i < length ps \<Longrightarrow> ps ! i = ((rq, r), pc) \<Longrightarrow> \<not> ended pc \<Longrightarrow>
    (apart_refreshes \<longrightarrow> (\<exists>u. pc = SRead u) \<longrightarrow> list_all (\<lambda>(q, pc). \<not> pushing pc) ps) \<Longrightarrow>
    signup_step E U H rq r pc w = (pc', w') \<Longrightarrow>
    signups_step E U H apart_refreshes (ps, w, P) (ps[i := ((rq, r), pc')], w', pushed_after pc pc' P)"
| other: "t_users (store w') = t_users (store w) \<Longrightarrow> signups_step E U H apart_refreshes (ps, w, P) (ps, w', P)"

subsection \<open>What the policy covers\<close>

fun user_of :: "signup_pc \<Rightarrow> uuid option" where
  "user_of (SHook u) = Some (user_ID u)" | "user_of (SRead u) = Some (user_ID u)"
| "user_of (SPush u slugs) = Some (user_ID u)" | "user_of (SUndo u) = Some (user_ID u)"
| "user_of (SLeft u) = Some (user_ID u)" | "user_of SNew = None" | "user_of (SDone resp) = None"

text \<open>Accounts whose sign-up is not done; \<open>yet_to_read\<close>: and has still to read the slugs, or never will.\<close>

definition in_progress :: "signup_task list \<Rightarrow> uuid set" where
  "in_progress ps = {x. \<exists>(q, pc) \<in> set ps. user_of pc = Some x}"

definition yet_to_read :: "signup_task list \<Rightarrow> uuid set" where
  "yet_to_read ps = {x. \<exists>(q, pc) \<in> set ps. \<not> pushing pc \<and> user_of pc = Some x}"

definition covers :: "User_row list \<Rightarrow> gostring list \<Rightarrow> uuid set \<Rightarrow> bool" where
  "covers us slugs rest \<longleftrightarrow> (\<forall>r \<in> set us. user_Slug r \<in> set slugs \<or> user_ID r \<in> rest)"

definition pushes :: "signup_task list \<Rightarrow> nat \<Rightarrow> User \<Rightarrow> gostring list \<Rightarrow> bool" where
  "pushes ps i u S \<longleftrightarrow> i < length ps \<and> snd (ps ! i) = SPush u S"

definition policy_inv :: "signup_task list \<times> 'h cp \<times> gostring list \<Rightarrow> bool" where
  "policy_inv = (\<lambda>(ps, w, P). covers (t_users (store w)) P (in_progress ps) \<and>
     (\<forall>i u S. pushes ps i u S \<longrightarrow> covers (t_users (store w)) S (yet_to_read ps)) \<and>
     (\<forall>i j u v S T. pushes ps i u S \<longrightarrow> pushes ps j v T \<longrightarrow> i = j))"

lemma pushing_simps [simp]:
  "\<not> pushing SNew" "\<not> pushing (SHook u)" "\<not> pushing (SRead u)" "pushing (SPush u s)" "\<not> pushing (SUndo u)"
  "\<not> pushing (SDone resp)" "\<not> pushing (SLeft u)"
  by (simp_all add: pushing_def)

lemma pushes_update: "i < length ps \<Longrightarrow> pushes (ps[i := (q, pc)]) j u S \<longleftrightarrow> (if j = i then pc = SPush u S else pushes ps j u S)"
  by (auto simp: pushes_def)

lemma not_pushing: "\<not> pushing pc \<Longrightarrow> pc \<noteq> SPush u S"
  by auto

lemma task_sets_update:
  assumes "i < length ps" "ps ! i = (q, pc)"
  shows "x \<in> in_progress ps \<Longrightarrow> user_of pc \<noteq> Some x \<or> user_of pc' = Some x \<Longrightarrow> x \<in> in_progress (ps[i := (q, pc')])"
    and "x \<in> yet_to_read ps \<Longrightarrow> user_of pc \<noteq> Some x \<or> \<not> pushing pc' \<and> user_of pc' = Some x \<or> pushing pc \<Longrightarrow>
      x \<in> yet_to_read (ps[i := (q, pc')])"
proof -
  have keep: "y \<in> set (ps[i := (q, pc')])" if y: "y \<in> set ps" "y \<noteq> (q, pc)" for y
  proof -
    obtain j where j: "j < length ps" "ps ! j = y" using y(1) by (auto simp: in_set_conv_nth)
    then have "ps[i := (q, pc')] ! j = y" using y(2) assms(2) by (cases "j = i") simp_all
    then show ?thesis using j(1) by (metis length_list_update nth_mem)
  qed
  have new: "(q, pc') \<in> set (ps[i := (q, pc')])" using assms(1) by (rule set_update_memI)
  show "x \<in> in_progress (ps[i := (q, pc')])" if x: "x \<in> in_progress ps" "user_of pc \<noteq> Some x \<or> user_of pc' = Some x"
  proof -
    obtain q' pc1 where y: "(q', pc1) \<in> set ps" "user_of pc1 = Some x" using x(1) by (auto simp: in_progress_def)
    then have "(q', pc1) \<in> set (ps[i := (q, pc')]) \<or> user_of pc' = Some x" using keep[OF y(1)] x(2) by auto
    then show ?thesis using y new by (auto simp: in_progress_def)
  qed
  show "x \<in> yet_to_read (ps[i := (q, pc')])"
    if x: "x \<in> yet_to_read ps" "user_of pc \<noteq> Some x \<or> \<not> pushing pc' \<and> user_of pc' = Some x \<or> pushing pc"
  proof -
    obtain q' pc1 where y: "(q', pc1) \<in> set ps" "user_of pc1 = Some x" "\<not> pushing pc1" using x(1) by (auto simp: yet_to_read_def)
    then have "(q', pc1) \<in> set (ps[i := (q, pc')]) \<or> user_of pc' = Some x \<and> \<not> pushing pc'" using keep[OF y(1)] x(2) by auto
    then show ?thesis using y new by (auto simp: yet_to_read_def)
  qed
qed

text \<open>A step that is not a push and does not start one.\<close>

lemma policy_inv_move:
  assumes inv: "policy_inv (ps, w, P)" and i: "i < length ps" "ps ! i = (q, pc)" "\<not> pushing pc" "\<not> pushing pc'"
    and us: "\<And>r. r \<in> set (t_users (store w')) \<Longrightarrow>
      (r \<in> set (t_users (store w)) \<and> user_of pc \<noteq> Some (user_ID r)) \<or> user_of pc' = Some (user_ID r)"
  shows "policy_inv (ps[i := (q, pc')], w', P)"
proof -
  let ?ps = "ps[i := (q, pc')]"
  have new: "(q, pc') \<in> set ?ps" using i(1) by (rule set_update_memI)
  have mine: "x \<in> in_progress ?ps" "x \<in> yet_to_read ?ps" if "user_of pc' = Some x" for x
    using that new i(4) by (auto simp: in_progress_def yet_to_read_def)
  have c: "covers (t_users (store w')) P (in_progress ?ps)"
    using inv us mine(1) task_sets_update(1)[OF i(1,2), of _ pc'] unfolding policy_inv_def covers_def by blast
  have s: "covers (t_users (store w')) S (yet_to_read ?ps)" if "covers (t_users (store w)) S (yet_to_read ps)" for S
    using that us mine(2) task_sets_update(2)[OF i(1,2), of _ pc'] unfolding covers_def by blast
  have "pushes ?ps = pushes ps" using i by (auto simp: fun_eq_iff pushes_update) (auto simp: pushes_def)
  then show ?thesis using inv c s unfolding policy_inv_def by auto
qed

lemma policy_inv_read:
  assumes inv: "policy_inv (ps, w, P)" and i: "i < length ps" "ps ! i = (q, SRead u)"
    and calm: "list_all (\<lambda>(q, pc). \<not> pushing pc) ps" and us: "t_users (store w') = t_users (store w)"
      "set (map user_Slug (t_users (store w))) \<subseteq> set slugs"
  shows "policy_inv (ps[i := (q, SPush u slugs)], w', P)"
proof -
  let ?ps = "ps[i := (q, SPush u slugs)]"
  have "covers (t_users (store w')) P (in_progress ?ps)"
    using inv us(1) task_sets_update(1)[OF i, of _ "SPush u slugs"] unfolding policy_inv_def covers_def by auto
  moreover have "covers (t_users (store w')) slugs R" for R using us by (auto simp: covers_def)
  moreover have "\<not> pushes ps j v T" for j v T
    using calm by (auto simp: pushes_def list_all_length split_beta)
  ultimately show ?thesis using i(1) unfolding policy_inv_def by (auto simp: pushes_update split: if_splits)
qed

lemma policy_inv_push:
  assumes inv: "policy_inv (ps, w, P)" and i: "i < length ps" "ps ! i = (q, SPush u S)"
    and us: "t_users (store w') = t_users (store w)"
  shows "policy_inv (ps[i := (q, SDone resp)], w', S)" and "policy_inv (ps[i := (q, SUndo u)], w', P)"
proof -
  have mine: "pushes ps i u S" using i by (simp add: pushes_def)
  have only: "pushes ps j v T \<longleftrightarrow> j = i \<and> v = u \<and> T = S" for j v T
  proof
    assume p: "pushes ps j v T"
    then have "j = i" using inv mine unfolding policy_inv_def by blast
    then show "j = i \<and> v = u \<and> T = S" using p i(2) by (simp add: pushes_def)
  qed (use mine in simp)
  have S: "covers (t_users (store w)) S (yet_to_read ps)" and P: "covers (t_users (store w)) P (in_progress ps)"
    using inv only unfolding policy_inv_def by auto
  have sub: "x \<in> in_progress (ps[i := (q, pc)])" if "x \<in> yet_to_read ps" for x pc
    using task_sets_update(2)[OF i that, of pc] by (auto simp: yet_to_read_def in_progress_def)
  show "policy_inv (ps[i := (q, SDone resp)], w', S)"
    using S us sub i(1) only unfolding policy_inv_def covers_def by (auto simp: pushes_update split: if_splits)
  show "policy_inv (ps[i := (q, SUndo u)], w', P)"
    using P us i(1) only task_sets_update(1)[OF i, of _ "SUndo u"] unfolding policy_inv_def covers_def
    by (auto simp: pushes_update split: if_splits)
qed

lemma log_event_users: "t_users (store (log_event E rq uid a t meta w)) = t_users (store w)"
  using same_rowsD(1)[OF log_event_same] .

lemma reading_users: "on_db m w = (x, w') \<Longrightarrow> db_reads m \<Longrightarrow> t_users (store w') = t_users (store w)"
  using same_rowsD(1)[OF cp_readsD_eq[OF cp_reads_calls(1)]] by blast

lemma allSlugs_ok: "on_db allSlugs w = (Inr slugs, w') \<Longrightarrow> set (map user_Slug (t_users (store w))) \<subseteq> set slugs"
  by (auto simp: on_db_def allSlugs_def and_then_def on_error_def query_rows_def select_rows_def give_def
      split: prod.splits sum.splits elim!: stmt_okE)

lemma HardDelete_rows:
  "HardDelete i d = (x, d') \<Longrightarrow> set (t_users d') \<subseteq> set (t_users d) \<and> (x = Inr () \<longrightarrow> (\<forall>r \<in> set (t_users d'). user_ID r \<noteq> i))"
  by (cases rule: stmt_cases[of "delete_user i" d])
    (auto simp: HardDelete_def and_then_def on_error_def delete_user_def give_def give_error_def set_delete_rows exists_row_iff
      split: if_splits)

lemma policy_inv_signup:
  assumes inv: "policy_inv (ps, w, P)" and i: "i < length ps" "ps ! i = ((rq, r), pc)" "\<not> ended pc"
    and calm: "(\<exists>u. pc = SRead u) \<longrightarrow> list_all (\<lambda>(q, pc). \<not> pushing pc) ps"
    and s: "signup_step E U H rq r pc w = (pc', w')"
  shows "policy_inv (ps[i := ((rq, r), pc')], w', pushed_after pc pc' P)"
proof (cases pc)
  case SNew
  obtain x w1 where x: "on_db (Signup U (sr_Email r) (sr_Slug r) (sr_Password r)) w = (x, w1)" by force
  then have d: "Signup U (sr_Email r) (sr_Slug r) (sr_Password r) (store w) = (x, store w1)"
    using on_db_frame by blast
  have "\<not> pushing pc' \<and> (\<forall>y \<in> set (t_users (store w')). y \<in> set (t_users (store w)) \<or> user_of pc' = Some (user_ID y))"
  proof (cases x)
    case (Inl err)
    then have "pc' = SDone (err_response signup_errors err)" "w' = w1" using s SNew x by simp_all
    moreover have "t_users (store w1) = t_users (store w)" using d Inl by (blast intro: Signup_error)
    ultimately show ?thesis by simp
  next
    case (Inr u)
    with d obtain y where "t_users (store w1) = t_users (store w) @ [y]" "user_ID y = user_ID u"
      by (auto elim!: Signup_ok)
    moreover have "pc' = SHook u" "t_users (store w') = t_users (store w1)"
      using s SNew x Inr log_event_users by auto
    ultimately show ?thesis by simp
  qed
  then show ?thesis using policy_inv_move[OF inv i(1,2), of pc' w'] SNew by (cases pc') auto
next
  case (SHook u)
  have us: "t_users (store w') = t_users (store w)" and "pc' = SUndo u \<or> pc' = SRead u"
    using s SHook same_rowsD(1)[OF cp_readsD_eq[OF ensure_user_reads]] by (auto split: prod.splits sum.splits)
  then show ?thesis using policy_inv_move[OF inv i(1,2), of pc' w'] SHook by auto
next
  case (SRead u)
  obtain x where x: "on_db allSlugs w = (x, w')" using s SRead by (auto split: prod.splits sum.splits)
  then have us: "t_users (store w') = t_users (store w)" using allSlugs_reads by (rule reading_users)
  show ?thesis
  proof (cases x)
    case (Inl err)
    then show ?thesis using s SRead x us policy_inv_move[OF inv i(1,2), of "SUndo u" w'] by auto
  next
    case (Inr slugs)
    then show ?thesis using s SRead x us policy_inv_read[OF inv i(1), of "(rq, r)" u w' slugs] i(2) calm allSlugs_ok[of w slugs w'] by auto
  qed
next
  case (SPush u S)
  have "t_users (store w') = t_users (store w)" and "pc' = SUndo u \<or> pc' = SDone (admit_user E rq 201 u)"
    using s SPush by (auto dest: on_hs_frame split: prod.splits sum.splits)
  then show ?thesis using policy_inv_push[OF inv i(1), of "(rq, r)" u S w'] i(2) SPush by auto
next
  case (SUndo u)
  obtain x where x: "on_db (HardDelete (user_ID u)) w = (x, w')" using s SUndo by (auto split: prod.splits sum.splits)
  then have "HardDelete (user_ID u) (store w) = (x, store w')" using on_db_frame[OF x] by blast
  note rows = HardDelete_rows[OF this]
  show ?thesis
  proof (cases x)
    case (Inl err)
    then have "pc' = SLeft u" using s SUndo x by simp
    moreover have "policy_inv (ps[i := ((rq, r), SLeft u)], w', P)"
      by (rule policy_inv_move[OF inv i(1,2)]) (use rows SUndo in auto)
    ultimately show ?thesis using SUndo by simp
  next
    case (Inr y)
    then have "pc' = SDone (httperr_Write 500 ''registration failed'')" using s SUndo x by simp
    moreover have "policy_inv (ps[i := ((rq, r), SDone (httperr_Write 500 ''registration failed''))], w', P)"
      by (rule policy_inv_move[OF inv i(1,2)]) (use rows SUndo Inr in auto)
    ultimately show ?thesis using SUndo by simp
  qed
qed (use i(3) in simp_all)

lemma policy_inv_step:
  "signups_step E U H True c c' \<Longrightarrow> policy_inv c \<Longrightarrow> policy_inv c'"
proof (induction rule: signups_step.induct)
  case (arrive ps w P q)
  have "pushes (ps @ [(q, SNew)]) = pushes ps" by (auto simp: pushes_def nth_append fun_eq_iff less_Suc_eq)
  moreover have "in_progress (ps @ [(q, SNew)]) = in_progress ps" "yet_to_read (ps @ [(q, SNew)]) = yet_to_read ps"
    by (auto simp: in_progress_def yet_to_read_def)
  ultimately show ?case using arrive by (simp add: policy_inv_def)
next
  case (go i ps rq r pc w pc' w' P)
  then show ?case using policy_inv_signup by blast
qed (simp add: policy_inv_def)


subsection \<open>Schedules\<close>

text \<open>Requests that arrive, and which goes on next.\<close>

datatype signup_choice = Signs signupReq | Next nat

fun signup_go :: "http_env \<Rightarrow> users_env \<Rightarrow> 'h hs_client \<Rightarrow> bool \<Rightarrow> signup_choice \<Rightarrow> signup_task list \<times> 'h cp \<times> gostring list \<Rightarrow>
    (signup_task list \<times> 'h cp \<times> gostring list) option" where
  "signup_go E U H ex (Signs r) (ps, w, P) = Some (ps @ [((demo_rq, r), SNew)], w, P)"
| "signup_go E U H ex (Next i) (ps, w, P) =
     (if i < length ps then
        (case ps ! i of ((rq, r), pc) \<Rightarrow>
           if ended pc \<or> ex \<and> (case pc of SRead _ \<Rightarrow> True | _ \<Rightarrow> False) \<and> list_ex (\<lambda>(q, pc). pushing pc) ps then None
           else (case signup_step E U H rq r pc w of (pc', w') \<Rightarrow> Some (ps[i := ((rq, r), pc')], w', pushed_after pc pc' P)))
      else None)"

fun signup_schedule :: "http_env \<Rightarrow> users_env \<Rightarrow> 'h hs_client \<Rightarrow> bool \<Rightarrow> signup_choice list \<Rightarrow>
    signup_task list \<times> 'h cp \<times> gostring list \<Rightarrow> (signup_task list \<times> 'h cp \<times> gostring list) option" where
  "signup_schedule E U H ex [] c = Some c"
| "signup_schedule E U H ex (s # ss) c =
     (case signup_go E U H ex s c of None \<Rightarrow> None | Some c' \<Rightarrow> signup_schedule E U H ex ss c')"

lemma signup_go_step: "signup_go E U H ex s c = Some c' \<Longrightarrow> signups_step E U H ex c c'"
proof (cases s; cases c)
  fix i ps w P assume g: "signup_go E U H ex s c = Some c'" and s: "s = Next i" and c: "c = (ps, w, P)"
  obtain rq r pc where q: "ps ! i = ((rq, r), pc)" by (metis prod.collapse)
  obtain pc' w' where n: "signup_step E U H rq r pc w = (pc', w')" by force
  have "i < length ps" "\<not> ended pc" "c' = (ps[i := ((rq, r), pc')], w', pushed_after pc pc' P)"
    and "ex \<longrightarrow> (\<exists>u. pc = SRead u) \<longrightarrow> list_all (\<lambda>(q, pc). \<not> pushing pc) ps"
    using g s c q n by (auto simp: list_all_iff list_ex_iff split: if_splits)
  then show "signups_step E U H ex c c'" using signups_step.go[OF _ q _ _ n] c by blast
qed (auto intro: signups_step.arrive)

lemma signup_schedule_run: "signup_schedule E U H ex ss c = Some c' \<Longrightarrow> (signups_step E U H ex)\<^sup>*\<^sup>* c c'"
proof (induction ss arbitrary: c)
  case (Cons s ss)
  then show ?case by (auto split: option.splits dest!: signup_go_step Cons.IH intro: converse_rtranclp_into_rtranclp)
qed simp

text \<open>Requests whose sessions all look alike.\<close>

definition quick_env :: http_env where
  "quick_env = demo_http_env\<lparr>he_session := demo_signer\<lparr>marshalSession := (\<lambda>s. Inr ''s'')\<rparr>\<rparr>"

definition demo_signup_of :: "gostring \<Rightarrow> signupReq" where
  "demo_signup_of name = \<lparr>sr_Email = name @ ''@x'', sr_Slug = name, sr_Password = ''correct-horse''\<rparr>"

definition demo_blank :: "gostring list cp" where
  "demo_blank = \<lparr>store = empty_db (\<lambda>n. n + 100) 0, hs = [], streams = [], outbox = [], broken = []\<rparr>"

definition demo_signups :: "bool \<Rightarrow> signup_choice list \<Rightarrow> (signup_task list \<times> gostring list cp \<times> gostring list) option" where
  "demo_signups ex ss = signup_schedule quick_env demo_users demo_hs ex
     ([Signs (demo_signup_of ''carol''), Signs (demo_signup_of ''dave'')] @ ss) ([], demo_blank, [])"

text \<open>What is read off the end of a run: the answers, the accounts and the slugs of the policy.\<close>

definition signups_view :: "signup_task list \<times> gostring list cp \<times> gostring list \<Rightarrow> int list \<times> gostring list \<times> gostring list" where
  "signups_view = (\<lambda>(ps, w, P). (map (\<lambda>(q, pc). case pc of SDone resp \<Rightarrow> status resp | _ \<Rightarrow> 0) ps, map user_Slug (t_users (store w)), P))"

text \<open>On a Headscale that accepts everything the last policy is the one of the slugs last pushed.\<close>

lemma signup_go_text:
  assumes "signup_go E U demo_hs ex s (ps, w, P) = Some (ps', w', P')" "hs w \<noteq> [] \<longrightarrow> refresh_text P = Inr (hd (hs w))"
  shows "hs w' \<noteq> [] \<longrightarrow> refresh_text P' = Inr (hd (hs w'))"
proof (cases s)
  case (Next i)
  obtain rq r pc where q: "ps ! i = ((rq, r), pc)" by (metis prod.collapse)
  have log: "hs (log_event E rq uid a t meta v) = hs v" for uid a t meta v
    by (simp add: log_event_def on_db_eq)
  have hook: "hs (snd (ensure_user demo_hs f n v)) = hs v" for f n v
    by (simp add: ensure_user_def on_hs_eq demo_hs_def)
  have "hs w' = hs w \<and> P' = P \<or> refresh_text P' = Inr (hd (hs w'))"
    using assms(1) Next q
  proof (cases pc)
    case (SHook u)
    then show ?thesis using assms(1) Next q hook[of id "user_Slug u" w]
      by (auto split: if_splits prod.splits sum.splits)
  qed (auto simp: log on_db_eq on_hs_eq demo_hs_def split: if_splits prod.splits sum.splits)
  then show ?thesis using assms(2) by auto
qed (use assms in simp)

lemma signup_schedule_text:
  "signup_schedule E U demo_hs ex ss (ps, w, P) = Some (ps', w', P') \<Longrightarrow> hs w \<noteq> [] \<longrightarrow> refresh_text P = Inr (hd (hs w)) \<Longrightarrow>
   hs w' \<noteq> [] \<longrightarrow> refresh_text P' = Inr (hd (hs w'))"
proof (induction ss arbitrary: ps w P)
  case (Cons s ss)
  then obtain ps1 w1 P1 where g: "signup_go E U demo_hs ex s (ps, w, P) = Some (ps1, w1, P1)"
    and r: "signup_schedule E U demo_hs ex ss (ps1, w1, P1) = Some (ps', w', P')" by (auto split: option.splits)
  then show ?case using Cons.IH[OF r] signup_go_text[OF g] Cons.prems(2) by auto
qed simp


text \<open>Both read only after the other has pushed.\<close>

definition demo_turns :: "signup_choice list" where
  "demo_turns = [Next 0, Next 1, Next 0, Next 1, Next 0, Next 0, Next 1, Next 1]"

lemma demo_turns_end: "map_option signups_view (demo_signups True demo_turns) = Some ([201, 201], [''carol'', ''dave''], [''carol'', ''dave''])"
  by code_simp


text \<open>Carol's sign-up reads the slugs, then the whole of dave's runs, then carol's pushes what it read.\<close>

definition demo_overtaken :: "signup_choice list" where
  "demo_overtaken = [Next 0, Next 0, Next 0] @ replicate 4 (Next 1) @ [Next 0]"

lemma demo_overtaken_end:
  "map_option (\<lambda>c. (signups_view c, hs (fst (snd c)) = [])) (demo_signups False demo_overtaken) =
     Some (([201, 201], [''carol'', ''dave''], [''carol'']), False)"
  by code_simp

text \<open>C20: without that proviso, and the code has nothing to provide it, a sign-up can be undone by another one as
  far as Headscale is concerned: there is a run on a Headscale that accepts everything in which two
  sign-ups are both answered 201 and the policy left in place knows only one of the two accounts,
  because it was read before and pushed after the other's.\<close>

theorem overlapping_signups_lose_an_account:
  "\<exists>ps w P. (signups_step quick_env demo_users demo_hs False)\<^sup>*\<^sup>* ([], demo_blank, []) (ps, w, P) \<and>
     map (status \<circ> answer_of \<circ> snd) ps = [201, 201] \<and> map user_Slug (t_users (store w)) = [''carol'', ''dave''] \<and>
     refresh_text [''carol''] = Inr (hd (hs w))"
proof -
  obtain ps w P where c: "demo_signups False demo_overtaken = Some (ps, w, P)"
    and v: "signups_view (ps, w, P) = ([201, 201], [''carol'', ''dave''], [''carol''])" and h: "hs w \<noteq> []"
    using demo_overtaken_end by auto
  have P: "P = [''carol'']" and us: "map user_Slug (t_users (store w)) = [''carol'', ''dave'']"
    and st: "map (\<lambda>(q, pc). case pc of SDone resp \<Rightarrow> status resp | _ \<Rightarrow> 0) ps = [201, 201]"
    using v by (simp_all add: signups_view_def)
  have all: "status (answer_of (snd x)) = 201" if "x \<in> set ps" for x
  proof -
    have "(\<lambda>(q, pc). case pc of SDone resp \<Rightarrow> status resp | _ \<Rightarrow> 0) x \<in> set [201, 201]"
      unfolding st[symmetric] set_map using that by (rule imageI)
    then show ?thesis by (cases x; cases "snd x") auto
  qed
  have "map (status \<circ> answer_of \<circ> snd) ps = map (\<lambda>x. 201) ps" using all by (intro map_cong) simp_all
  also have "\<dots> = map (\<lambda>x. 201) [201, 201 :: int]" using map_cong[OF st[symmetric], of "\<lambda>x. 201 :: int" "\<lambda>x. 201"]
    by (simp add: comp_def)
  finally have "map (status \<circ> answer_of \<circ> snd) ps = [201, 201]" by simp
  moreover have "(signups_step quick_env demo_users demo_hs False)\<^sup>*\<^sup>* ([], demo_blank, []) (ps, w, P)"
    using signup_schedule_run[OF c[unfolded demo_signups_def]] .
  moreover have "refresh_text P = Inr (hd (hs w))"
    using signup_schedule_text[OF c[unfolded demo_signups_def]] h by (simp add: demo_blank_def)
  ultimately show ?thesis using us unfolding P by (intro exI conjI)
qed

end
