(* ===== verification/Lifecycle.thy ===== *)
theory Lifecycle
  imports ControlPlane
begin

text \<open>
  The life of the control plane's process (\<open>cmd/control-plane/main.go\<close>): the start-up, the two servers, the
  signal, the shutdown and the exit code. The listeners and servers are libraries: a listener is opened
  or not, a server may fail, \<open>http.Server.Shutdown\<close> refuses new requests and returns when no request is
  active or its context ends, \<open>grpc.Server.GracefulStop\<close> refuses new streams and returns when none is open.
\<close>

subsection \<open>The process\<close>

datatype phase =
    Serving
  | Draining int
  | Stopping int
  | Exited int

record process =
  ph :: phase
  requests :: nat
  streams :: nat
  signalled :: "int option"
  ticks :: int

text \<open>
  The program up to its servers: what exits before them does so with code 1. \<open>listen\<close> is \<open>net.Listen\<close> of the
  address of the agents' server; the HTTP server opens its own listener later, in its goroutine.
\<close>

definition begin_process :: "int \<Rightarrow> phase \<Rightarrow> process" where
  "begin_process t p = \<lparr>ph = p, requests = 0, streams = 0, signalled = None, ticks = t\<rparr>"

definition main_boot ::
  "(gostring \<Rightarrow> gostring) \<Rightarrow> (gostring \<Rightarrow> go_error + unit) \<Rightarrow> (gostring \<Rightarrow> gostring \<Rightarrow> 'h hs_client) \<Rightarrow>
   (gostring \<Rightarrow> go_error + unit) \<Rightarrow> int \<Rightarrow> 'h cp \<Rightarrow> process \<times> 'h cp" where
  "main_boot getenv db_open client listen t w =
     (case startup getenv db_open client w of
        (Inl msg, w) \<Rightarrow> (begin_process t (Exited 1), w)
      | (Inr mc, w) \<Rightarrow>
          (case listen (mc_grpcAddr mc) of
             Inl err \<Rightarrow> (begin_process t (Exited 1), w)
           | Inr _ \<Rightarrow> (begin_process t Serving, w)))"

definition shutdown_timeout :: int where
  "shutdown_timeout = 10 * 1000000000"

definition exited :: "process \<Rightarrow> bool" where
  "exited p \<longleftrightarrow> (\<exists>c. ph p = Exited c)"

inductive process_step :: "process \<Rightarrow> process \<Rightarrow> bool" where
  accepts: "ph p = Serving \<Longrightarrow> process_step p (p\<lparr>requests := Suc (requests p)\<rparr>)"
| answers: "\<not> exited p \<Longrightarrow> requests p = Suc n \<Longrightarrow> process_step p (p\<lparr>requests := n\<rparr>)"
| agent_opens: "(case ph p of Serving \<Rightarrow> True | Draining _ \<Rightarrow> True | _ \<Rightarrow> False) \<Longrightarrow>
    process_step p (p\<lparr>streams := Suc (streams p)\<rparr>)"
| agent_closes: "\<not> exited p \<Longrightarrow> streams p = Suc n \<Longrightarrow> process_step p (p\<lparr>streams := n\<rparr>)"
| http_fails: "ph p = Serving \<Longrightarrow> process_step p (p\<lparr>ph := Exited 1\<rparr>)"
| grpc_fails: "(case ph p of Serving \<Rightarrow> True | Draining _ \<Rightarrow> True | _ \<Rightarrow> False) \<Longrightarrow> process_step p (p\<lparr>ph := Exited 1\<rparr>)"
| signal: "ph p = Serving \<Longrightarrow> process_step p (p\<lparr>ph := Draining (ticks p + shutdown_timeout), signalled := Some (ticks p)\<rparr>)"
| drained: "ph p = Draining dl \<Longrightarrow> requests p = 0 \<or> dl \<le> ticks p \<Longrightarrow> process_step p (p\<lparr>ph := Stopping dl\<rparr>)"
| stopped: "ph p = Stopping dl \<Longrightarrow> streams p = 0 \<Longrightarrow> process_step p (p\<lparr>ph := Exited 0\<rparr>)"
| time: "\<not> exited p \<Longrightarrow> ticks p \<le> t \<Longrightarrow> process_step p (p\<lparr>ticks := t\<rparr>)"


subsection \<open>What the exit means\<close>

definition process_inv :: "process \<Rightarrow> bool" where
  "process_inv p \<longleftrightarrow>
     (case ph p of
        Serving \<Rightarrow> signalled p = None
      | Draining dl \<Rightarrow> \<exists>s. signalled p = Some s \<and> dl = s + shutdown_timeout
      | Stopping dl \<Rightarrow> (\<exists>s. signalled p = Some s \<and> dl = s + shutdown_timeout) \<and> (requests p = 0 \<or> dl \<le> ticks p)
      | Exited c \<Rightarrow> c = 1 \<or> c = 0 \<and> streams p = 0 \<and>
          (\<exists>s. signalled p = Some s \<and> (requests p = 0 \<or> s + shutdown_timeout \<le> ticks p)))"

lemma process_inv_step: "process_step p q \<Longrightarrow> process_inv p \<Longrightarrow> process_inv q"
  by (induction rule: process_step.induct) (auto simp: process_inv_def exited_def split: phase.splits)

lemma exited_final: "process_step p q \<Longrightarrow> \<not> exited p"
  by (induction rule: process_step.induct) (auto simp: exited_def split: phase.splits)

text \<open>
  The control plane serves nothing unless the start-up succeeded, which takes a session secret of at
  least 32 bytes and a Headscale key. It ends with code 1, or with code 0 after a
  signal, when no agent's stream is open and every request has been answered or ten seconds are over.
\<close>

theorem control_plane_life:
  assumes "main_boot getenv db_open client listen t w = (p0, w')" and "process_step\<^sup>*\<^sup>* p0 p"
  shows "(p = begin_process t (Exited 1) \<or>
      (\<exists>mc. startup getenv db_open client w = (Inr mc, w') \<and> 32 \<le> length (mc_secret mc) \<and> mc_hsKey mc \<noteq> [])) \<and>
    (\<forall>c. ph p = Exited c \<longrightarrow> c = 1 \<or> c = 0 \<and> streams p = 0 \<and>
       (\<exists>s. signalled p = Some s \<and> (requests p = 0 \<or> s + shutdown_timeout \<le> ticks p)))"
proof -
  have ok: "startup getenv db_open client w = (Inr mc, v) \<Longrightarrow> 32 \<le> length (mc_secret mc) \<and> mc_hsKey mc \<noteq> []" for mc v
    by (auto simp: startup_def Let_def split: sum.splits if_splits prod.splits)
  have p0: "p0 = begin_process t (Exited 1) \<or> p0 = begin_process t Serving \<and> (\<exists>mc. startup getenv db_open client w = (Inr mc, w'))"
    using assms(1) by (auto simp: main_boot_def split: prod.splits sum.splits)
  have "process_inv p"
    using assms(2)
    by (induction rule: rtranclp_induct) (use p0 in \<open>auto simp: process_inv_def begin_process_def dest: process_inv_step\<close>)
  moreover have "p = p0" if "exited p0"
    using assms(2) that by (metis converse_rtranclpE exited_final)
  ultimately show ?thesis using p0 ok by (auto simp: process_inv_def begin_process_def exited_def split: phase.splits)
qed

text \<open>An agent that stays connected keeps a stopped control plane from ending.\<close>

lemma agents_hold_shutdown:
  assumes "(\<lambda>p q. process_step p q \<and> streams p \<le> streams q)\<^sup>*\<^sup>* p q" and "0 < streams p" "ph p \<noteq> Exited 0"
  shows "ph q \<noteq> Exited 0"
proof -
  have "0 < streams q \<and> ph q \<noteq> Exited 0"
    using assms
  proof (induction rule: rtranclp_induct)
    case (step y z)
    then have "process_step y z" "streams y \<le> streams z" "0 < streams y" "ph y \<noteq> Exited 0" by auto
    then show ?case by (cases rule: process_step.cases) auto
  qed simp
  then show ?thesis by blast
qed

end
