(* ===== verification/Spec2Isabelle.thy ===== *)
theory Spec2Isabelle
  imports System ControlPlaneProperties NodesProperties EnvsProperties AgentCommand Sidecar ConcurrencyLiveness PairingConcurrency
    SignupConcurrency Lifecycle
begin

text \<open>
  flexctl is a GPU cloud of the users' own machines. A control plane (\<open>src/cmd/control-plane\<close>, services
  under \<open>src/internal\<close>) keeps accounts, nodes, devices, keys and environments in PostgreSQL, answers
  HTTP requests, and talks to the nodes' agents over one gRPC stream per node. An agent
  (\<open>internal/flexctlagent\<close>, \<open>internal/envlifecycle\<close>) runs environments as pairs of Docker containers, a
  sidecar that joins the tailnet and a dev container with the reserved GPUs. The client
  (\<open>internal/flexctlcli\<close>) logs a user's machine in, connects to environments, pairs nodes, and is also
  the agent's and the sidecar's program. Headscale keeps the tailnet; its policy is generated here.

  The theories follow these parts, each bottom up. A service method is a function from the state to
  an error or a value and the new state (\<open>call\<close> in \<open>GoErrors\<close>, composed with \<open>and_then\<close> and \<open>on_error\<close>
  as the source composes calls and wraps errors); a Go map is an association list without duplicate
  keys, a string its list of bytes, an \<open>int\<close> an integer with the wrap-around of its width written out
  where it can occur.

  \<^bold>\<open>Library.\<close> \<open>Prelude\<close> (maps, tables, fact collections), \<open>GoStrings\<close>, \<open>GoNumbers\<close>, \<open>GoErrors\<close>, \<open>Base64\<close>,
  \<open>Json\<close>, \<open>Quoting\<close> (\<open>%q\<close> and \<open>strconv.Unquote\<close>), \<open>GoFiles\<close> (environment, files, paths, the line
  scanner): what the program uses of Go's standard library. \<open>Names\<close>: the name patterns.

  \<^bold>\<open>Agent.\<close> \<open>Docker\<close> holds \<open>envdocker\<close>'s data, the interface \<open>DockerClient\<close> as a record of operations, its
  contracts \<open>docker_laws\<close> and \<open>docker_run_laws\<close>, and \<open>mock.go\<close>'s engine, which interprets them.
  \<open>RealDocker\<close> is the client of a real node over a record of the Docker SDK. \<open>Allocator\<close>
  (\<open>allocator.go\<close>) interprets the contract \<open>exclusive_pool\<close>. \<open>Proto\<close> has the messages of
  \<open>proto/agent.proto\<close>. \<open>Dispatcher\<close> (\<open>dispatcher.go\<close>) has the four command handlers, the health wait,
  which ends because the clock reaches its deadline, and the snapshot; \<open>DispatcherProofs\<close> their frame
  and case lemmas; \<open>AgentProperties\<close> what they do to devices, containers and messages, and the step
  relation \<open>agent_step\<close> with its invariant \<open>agent_inv\<close>. \<open>AgentRuntime\<close> (\<open>agent.go\<close>) is the loop that
  connects, registers, sends the snapshot and heartbeats, handles commands and waits before it
  connects again; \<open>AgentRuntimeProperties\<close> shows that it is a run of \<open>agent_step\<close>, that a connection
  registers first, and the bounds of the waits. \<open>Concurrency\<close> cuts each handler into its calls, one step
  each, and shows that the steps left alone are the handler; \<open>ConcurrencyProperties\<close> interleaves the
  goroutines: devices stay apart as long as no two handlers work on one environment, and a deletion
  that overtakes a creation breaks that; \<open>ConcurrencyLiveness\<close> shows that under a fair scheduler every
  handler ends and every command is answered once. \<open>GpuInfo\<close> (\<open>gpuinfo/nvidia.go\<close>) builds the detector from its options and parses the
  inventory,
  \<open>AgentCommand\<close> (\<open>flexctlcli/agent.go\<close>) puts the program together, \<open>Sidecar\<close> is the program of the
  sidecar container, tied to the specification the dispatcher gives Docker.

  \<^bold>\<open>Control plane.\<close> \<open>Db\<close> has the tables of \<open>migrations/\<close> and their statements with the errors the driver
  reports, \<open>DbInvariant\<close> the constraints as \<open>db_wf\<close> and the calculus \<open>keeps\<close> that carries invariants through
  calls. The services: \<open>Auth\<close>, \<open>Users\<close>, \<open>SshKeys\<close>, \<open>ImageTemplates\<close> (with the audit log), \<open>Nodes\<close>, \<open>Envs\<close>,
  \<open>Devices\<close>, \<open>Headscale\<close> (policy generator and client), \<open>Policy\<close>. \<open>CpState\<close> is the state they share with the
  streams, \<open>AgentStream\<close> (\<open>agentstream/server.go\<close>) the control plane's end of a stream and the dispatch of
  commands. The handlers: \<open>Http\<close>, \<open>UsersHttp\<close>, \<open>EnvsHttp\<close> over the interface \<open>env_dispatcher\<close> of \<open>EnvDispatch\<close>,
  which \<open>AgentStreamProperties\<close> interprets, \<open>ResourcesHttp\<close>. \<open>ControlPlane\<close> (\<open>main.go\<close>) is the configuration,
  the start-up and the routes. \<open>NodesProperties\<close>, \<open>EnvsProperties\<close>, \<open>UsersHttpProperties\<close>,
  \<open>EnvsHttpProperties\<close> and \<open>ControlPlaneProperties\<close> hold the theorems: what pairing, creation, sign-up and
  login promise on every branch, who may act on what, and that every reachable state keeps the schema.
  Two things that requests at the same time could break are taken apart into steps: \<open>PairingConcurrency\<close> (the
  pairing transactions under their row locks are serial, a token buys one node) and
  \<open>SignupConcurrency\<close> (the pushed policy covers all accounts if refreshes do not overlap, and need not
  otherwise). \<open>Lifecycle\<close> is the process: start-up, servers, signal, shutdown and exit code.

  \<^bold>\<open>Both together.\<close> \<open>System\<close> connects an agent and the control plane by the messages in between and shows
  that the rows of running environments never share a GPU, and how a creation ends.

  \<^bold>\<open>Client.\<close> \<open>ConfigFiles\<close> (\<open>client.toml\<close>, \<open>agent.toml\<close>), \<open>SshConfig\<close> (the block in the user's SSH
  configuration), \<open>ApiClient\<close> (requests to the control plane; network and JSON decoders are parameters),
  \<open>ClientCommands\<close> (login, logout, join, keys, env list, ssh, proxy and the embedded tailnet node).
  \<open>SshConfigProperties\<close> and \<open>ClientProperties\<close> show that files are read back as written, that a login
  writes its configuration last, that a logout undoes a login, and which host ssh reaches.

  \<^bold>\<open>Parameters.\<close> Code that is not in the repository is an argument with named assumptions where a theorem
  needs some: the database's faults, clock and generated ids, Argon2id and HMAC, the parsers of mail
  addresses, UUIDs, JSON bodies and SSH keys, Headscale's answers, the Docker SDK, \<open>nvidia-smi\<close>, the
  gRPC transport, the terminal and the tailnet library. Every main theorem with an assumption has a
  witness at a concrete input. No fuel is used: loops are structural, or end by a measure (the
  health wait and the wait for the sidecar's socket: the time to the deadline).

  \<^bold>\<open>Not modelled.\<close> Opening the connection pool and running the migrations (\<open>db/db.go\<close>), the request timeouts
  of the control plane's middleware, the generated protocol code, and the assembly of the commands by a
  library (\<open>root.go\<close>, \<open>cmd/flexctl\<close>): input and output only. Elsewhere the requests and streams
  of the control plane interleave at the level of service calls, and \<open>System\<close> and \<open>AgentRuntime\<close> take a
  handler of a command for one step of the agent; \<open>Concurrency\<close> says when that is sound. Non-ASCII text is bytes: case conversion
  leaves it alone. A write to a file succeeds or leaves the file as it was.
\<close>

end
